(* ===== verification/Prelude.thy ===== *)
theory Prelude
  imports Main "HOL-Library.List_Lexorder" "HOL-Library.Char_ord"
begin

text \<open>
  Shared vocabulary of the development: the result type of fallible code and its
  sequencing, tables as lists of rows addressed by a key, and insertion-ordered
  maps as JavaScript's \<open>Map\<close> keeps them.  The lemmas collected in
  \<open>result_simps\<close> and \<open>table_simps\<close> carry the component proofs.
\<close>

named_theorems result_simps \<open>unfolding a sequence of fallible steps\<close>
named_theorems table_simps \<open>reading and writing tables\<close>

section \<open>Results\<close>

text \<open>
  A call that may throw returns \<open>Inl\<close> of the error or \<open>Inr\<close> of the value; \<open>rbind\<close>
  is what \<open>await\<close> and \<open>;\<close> do: the first error ends the sequence.
\<close>

type_synonym ('e, 'a) result = "'e + 'a"

definition rbind :: "('e, 'a) result \<Rightarrow> ('a \<Rightarrow> ('e, 'b) result) \<Rightarrow> ('e, 'b) result" where
  "rbind m f = (case m of Inl e \<Rightarrow> Inl e | Inr a \<Rightarrow> f a)"

definition require :: "bool \<Rightarrow> 'e \<Rightarrow> ('e, unit) result" where
  "require b e = (if b then Inr () else Inl e)"

definition require_some :: "'a option \<Rightarrow> 'e \<Rightarrow> ('e, 'a) result" where
  "require_some v e = (case v of None \<Rightarrow> Inl e | Some a \<Rightarrow> Inr a)"

fun mapR :: "('a \<Rightarrow> ('e, 'b) result) \<Rightarrow> 'a list \<Rightarrow> ('e, 'b list) result" where
  "mapR f [] = Inr []"
| "mapR f (x # xs) = rbind (f x) (\<lambda>y. rbind (mapR f xs) (\<lambda>ys. Inr (y # ys)))"

fun foldR :: "('a \<Rightarrow> 's \<Rightarrow> ('e, 's) result) \<Rightarrow> 'a list \<Rightarrow> 's \<Rightarrow> ('e, 's) result" where
  "foldR f [] s = Inr s"
| "foldR f (x # xs) s = rbind (f x s) (foldR f xs)"

lemma rbind_Inl [simp]: "rbind (Inl e) f = Inl e"
  by (simp add: rbind_def)

lemma rbind_Inr [simp]: "rbind (Inr a) f = f a"
  by (simp add: rbind_def)

lemma rbind_eq_Inr [result_simps]:
  "rbind m f = Inr b \<longleftrightarrow> (\<exists>a. m = Inr a \<and> f a = Inr b)"
  by (cases m) auto

lemma rbind_eq_Inl [result_simps]:
  "rbind m f = Inl e \<longleftrightarrow> m = Inl e \<or> (\<exists>a. m = Inr a \<and> f a = Inl e)"
  by (cases m) auto

lemma rbind_assoc: "rbind (rbind m f) g = rbind m (\<lambda>x. rbind (f x) g)"
  by (cases m) auto

lemma require_eq_Inr [simp]: "require b e = Inr u \<longleftrightarrow> b"
  by (simp add: require_def)

lemma require_eq_Inl [simp]: "require b e = Inl e' \<longleftrightarrow> \<not> b \<and> e' = e"
  by (auto simp: require_def)

lemma require_some_eq_Inr [simp]: "require_some v e = Inr a \<longleftrightarrow> v = Some a"
  by (cases v) (auto simp: require_some_def)

lemma require_some_eq_Inl [simp]: "require_some v e = Inl e' \<longleftrightarrow> v = None \<and> e' = e"
  by (cases v) (auto simp: require_some_def)

lemma require_some_Some [simp]: "require_some (Some a) e = Inr a"
  by (simp add: require_some_def)

lemma require_True [simp]: "require True e = Inr ()"
  by (simp add: require_def)

lemma mapR_length: "mapR f xs = Inr ys \<Longrightarrow> length ys = length xs"
  by (induction xs arbitrary: ys) (auto simp: result_simps)

lemma mapR_nth:
  "mapR f xs = Inr ys \<Longrightarrow> i < length xs \<Longrightarrow> f (xs ! i) = Inr (ys ! i)"
proof (induction xs arbitrary: ys i)
  case Nil
  then show ?case by simp
next
  case (Cons x xs)
  then show ?case by (cases i) (auto simp: result_simps)
qed

lemma mapR_total: "(\<And>x. x \<in> set xs \<Longrightarrow> f x = Inr (g x)) \<Longrightarrow> mapR f xs = Inr (map g xs)"
  by (induction xs) auto

lemma mapR_set:
  "mapR f xs = Inr ys \<Longrightarrow> y \<in> set ys \<Longrightarrow> \<exists>x \<in> set xs. f x = Inr y"
  by (metis in_set_conv_nth mapR_length mapR_nth)

lemma foldR_append: "foldR f (xs @ ys) s = rbind (foldR f xs s) (foldR f ys)"
proof (induction xs arbitrary: s)
  case Nil
  then show ?case by simp
next
  case (Cons x xs)
  then have "foldR f (xs @ ys) = (\<lambda>u. rbind (foldR f xs u) (foldR f ys))" by auto
  then show ?case by (simp add: rbind_assoc)
qed

text \<open>An invariant kept by every successful step holds after the loop.\<close>

lemma foldR_invariant:
  assumes "foldR f xs s = Inr t" and "I s"
    and "\<And>x s t. x \<in> set xs \<Longrightarrow> I s \<Longrightarrow> f x s = Inr t \<Longrightarrow> I t"
  shows "I t"
  using assms
proof (induction xs arbitrary: s)
  case Nil
  then show ?case by simp
next
  case (Cons x xs)
  from Cons.prems(1) obtain u where u: "f x s = Inr u" "foldR f xs u = Inr t"
    by (auto simp: result_simps)
  from Cons.prems(3) [of x s u] u(1) Cons.prems(2) have "I u" by simp
  with u(2) show ?case using Cons.prems(3) by (intro Cons.IH) auto
qed

text \<open>A loop whose every step succeeds under an invariant succeeds.\<close>

lemma foldR_total:
  assumes "I s"
    and "\<And>x s. x \<in> set xs \<Longrightarrow> I s \<Longrightarrow> \<exists>t. f x s = Inr t \<and> I t"
  shows "\<exists>t. foldR f xs s = Inr t \<and> I t"
  using assms
proof (induction xs arbitrary: s)
  case Nil
  then show ?case by simp
next
  case (Cons x xs)
  from Cons.prems obtain u where u: "f x s = Inr u" "I u" by fastforce
  then have "\<exists>t. foldR f xs u = Inr t \<and> I t" using Cons.prems(2) by (intro Cons.IH) auto
  with u(1) show ?case by auto
qed

section \<open>Tables\<close>

text \<open>
  A table is the list of its rows in insertion (rowid) order; \<open>key\<close> reads the
  primary key.  \<open>tfind\<close> is a lookup by primary key, \<open>tmodify\<close> an
  \<open>UPDATE \<dots> WHERE\<close> and \<open>tdelete\<close> a \<open>DELETE \<dots> WHERE\<close>.
\<close>

definition tfind :: "('r \<Rightarrow> 'k) \<Rightarrow> 'k \<Rightarrow> 'r list \<Rightarrow> 'r option" where
  "tfind key k rows = find (\<lambda>r. key r = k) rows"

definition tmodify :: "('r \<Rightarrow> bool) \<Rightarrow> ('r \<Rightarrow> 'r) \<Rightarrow> 'r list \<Rightarrow> 'r list" where
  "tmodify p f rows = map (\<lambda>r. if p r then f r else r) rows"

definition tdelete :: "('r \<Rightarrow> bool) \<Rightarrow> 'r list \<Rightarrow> 'r list" where
  "tdelete p rows = filter (\<lambda>r. \<not> p r) rows"

lemma tfind_Nil [simp]: "tfind key k [] = None"
  by (simp add: tfind_def)

lemma tfind_Cons [simp]:
  "tfind key k (r # rows) = (if key r = k then Some r else tfind key k rows)"
  by (simp add: tfind_def)

lemma tmodify_Nil [simp]: "tmodify p f [] = []"
  by (simp add: tmodify_def)

lemma tmodify_Cons [simp]:
  "tmodify p f (r # rows) = (if p r then f r else r) # tmodify p f rows"
  by (simp add: tmodify_def)

lemma tdelete_Nil [simp]: "tdelete p [] = []"
  by (simp add: tdelete_def)

lemma tdelete_Cons [simp]:
  "tdelete p (r # rows) = (if p r then tdelete p rows else r # tdelete p rows)"
  by (simp add: tdelete_def)

lemma tmodify_append [simp]: "tmodify p f (xs @ ys) = tmodify p f xs @ tmodify p f ys"
  by (simp add: tmodify_def)

lemma set_tdelete [simp]: "set (tdelete p rows) = {r \<in> set rows. \<not> p r}"
  by (auto simp: tdelete_def)

lemma set_tmodify [simp]: "set (tmodify p f rows) = (\<lambda>r. if p r then f r else r) ` set rows"
  by (simp add: tmodify_def)

lemma tfind_Some_in: "tfind key k rows = Some r \<Longrightarrow> r \<in> set rows \<and> key r = k"
  by (induction rows) (auto split: if_splits)

lemma tfind_None_iff: "tfind key k rows = None \<longleftrightarrow> k \<notin> key ` set rows"
  by (induction rows) auto

lemma tfind_distinct:
  "distinct (map key rows) \<Longrightarrow> r \<in> set rows \<Longrightarrow> tfind key (key r) rows = Some r"
  by (induction rows) (auto simp: rev_image_eqI)

lemma map_key_tmodify [table_simps]:
  "(\<And>r. r \<in> set rows \<Longrightarrow> p r \<Longrightarrow> key (f r) = key r) \<Longrightarrow> map key (tmodify p f rows) = map key rows"
  by (induction rows) auto

lemma tfind_tmodify [table_simps]:
  "(\<And>r. p r \<Longrightarrow> key (f r) = key r) \<Longrightarrow>
   tfind key k (tmodify p f rows) = map_option (\<lambda>r. if p r then f r else r) (tfind key k rows)"
  by (induction rows) auto

lemma distinct_tdelete [table_simps]: "distinct (map key rows) \<Longrightarrow> distinct (map key (tdelete p rows))"
  by (induction rows) auto

lemma tmodify_id: "(\<And>r. r \<in> set rows \<Longrightarrow> \<not> p r) \<Longrightarrow> tmodify p f rows = rows"
  by (induction rows) auto

lemma distinct_map_eq: "distinct (map f xs) \<Longrightarrow> x \<in> set xs \<Longrightarrow> y \<in> set xs \<Longrightarrow> f x = f y \<longleftrightarrow> x = y"
  by (auto simp: distinct_map inj_on_eq_iff)

lemma map_filter_cong:
  "xs = ys \<Longrightarrow> (\<And>x. x \<in> set ys \<Longrightarrow> f x = g x) \<Longrightarrow> List.map_filter f xs = List.map_filter g ys"
  by (induction xs arbitrary: ys) (auto split: option.splits)

lemma tfind_map_keys:
  "(\<And>r. key (f r) = key r) \<Longrightarrow> tfind key k (map f rows) = map_option f (tfind key k rows)"
  by (induction rows) auto

lemma sum_list_filter_map_filter:
  "sum_list (map h (filter p (List.map_filter f xs))) =
   sum_list (map (\<lambda>x. case f x of None \<Rightarrow> 0 | Some y \<Rightarrow> if p y then h y else (0::'n::monoid_add)) xs)"
  by (induction xs) (auto split: option.splits)

text \<open>A sum in which only the row with one key counts.\<close>

lemma sum_list_key:
  "distinct (map key xs) \<Longrightarrow>
   sum_list (map (\<lambda>x. if key x = k then F x else (0::'n::monoid_add)) xs) =
   (case tfind key k xs of None \<Rightarrow> 0 | Some x \<Rightarrow> F x)"
proof (induction xs)
  case Nil
  then show ?case by simp
next
  case (Cons x xs)
  show ?case
  proof (cases "key x = k")
    case True
    with Cons.prems have "tfind key k xs = None" by (auto simp: tfind_None_iff)
    with True Cons show ?thesis by simp
  next
    case False
    with Cons show ?thesis by simp
  qed
qed

section \<open>Insertion-ordered maps\<close>

text \<open>
  JavaScript's \<open>Map\<close> iterates in the order keys were first inserted; writing an
  existing key keeps its place.
\<close>

fun mput :: "'k \<Rightarrow> 'v \<Rightarrow> ('k \<times> 'v) list \<Rightarrow> ('k \<times> 'v) list" where
  "mput k v [] = [(k, v)]"
| "mput k v ((k', v') # m) = (if k' = k then (k, v) # m else (k', v') # mput k v m)"

lemma map_of_mput [simp]: "map_of (mput k v m) = (map_of m)(k \<mapsto> v)"
  by (induction m) auto

lemma keys_mput:
  "map fst (mput k v m) = (if k \<in> fst ` set m then map fst m else map fst m @ [k])"
  by (induction m) (auto simp: rev_image_eqI)

lemma distinct_mput: "distinct (map fst m) \<Longrightarrow> distinct (map fst (mput k v m))"
  by (simp add: keys_mput)

lemma fst_set_mput [simp]: "fst ` set (mput k v m) = insert k (fst ` set m)"
  by (simp flip: dom_map_of_conv_image_fst)

end
