(* ===== verification/JsText.thy ===== *)
theory JsText
  imports Prelude
begin

text \<open>
  The text primitives of the language that the program's numeric wire format uses:
  the pattern \<open>/^(0|[1-9]\d*)$/\<close>, \<open>BigInt(text)\<close>, \<open>BigInt.prototype.toString\<close> and
  \<open>String.prototype.trim\<close>.  A \<open>char\<close> is a UTF-16 code unit below 256; the texts handled
  by these functions are ASCII.
\<close>

section \<open>Digits\<close>

definition is_digit :: "char \<Rightarrow> bool" where
  "is_digit c \<longleftrightarrow> 48 \<le> (of_char c :: nat) \<and> (of_char c :: nat) \<le> 57"

definition digit_val :: "char \<Rightarrow> nat" where
  "digit_val c = of_char c - 48"

definition digit_char :: "nat \<Rightarrow> char" where
  "digit_char n = char_of (48 + n)"

definition digits_val :: "nat \<Rightarrow> string \<Rightarrow> nat" where
  "digits_val a s = foldl (\<lambda>a c. 10 * a + digit_val c) a s"

fun show_nat :: "nat \<Rightarrow> string" where
  "show_nat n = (if n < 10 then [digit_char n] else show_nat (n div 10) @ [digit_char (n mod 10)])"

declare show_nat.simps [simp del]

text \<open>\<open>BigInt.prototype.toString\<close> in base ten.\<close>

definition bigint_toString :: "int \<Rightarrow> string" where
  "bigint_toString i = (if i < 0 then CHR ''-'' # show_nat (nat (- i)) else show_nat (nat i))"

text \<open>The pattern \<open>/^(0|[1-9]\d*)$/\<close>.\<close>

fun decimal_pattern :: "string \<Rightarrow> bool" where
  "decimal_pattern [] = False"
| "decimal_pattern (c # cs) =
     (if c = CHR ''0'' then cs = [] else is_digit c \<and> list_all is_digit cs)"

section \<open>Trimming and BigInt\<close>

definition is_space :: "char \<Rightarrow> bool" where
  "is_space c \<longleftrightarrow> (let n = (of_char c :: nat) in n = 32 \<or> n = 160 \<or> (9 \<le> n \<and> n \<le> 13))"

definition js_trim :: "string \<Rightarrow> string" where
  "js_trim s = rev (dropWhile is_space (rev (dropWhile is_space s)))"

definition hex_val :: "char \<Rightarrow> nat option" where
  "hex_val c = (let n = (of_char c :: nat) in
     if 48 \<le> n \<and> n \<le> 57 then Some (n - 48)
     else if 97 \<le> n \<and> n \<le> 102 then Some (n - 87)
     else if 65 \<le> n \<and> n \<le> 70 then Some (n - 55)
     else None)"

fun radix_val :: "nat \<Rightarrow> nat \<Rightarrow> string \<Rightarrow> nat option" where
  "radix_val b a [] = Some a"
| "radix_val b a (c # cs) = (case hex_val c of
     None \<Rightarrow> None
   | Some d \<Rightarrow> if d < b then radix_val b (b * a + d) cs else None)"

definition radix_text :: "nat \<Rightarrow> string \<Rightarrow> int option" where
  "radix_text b s = (if s = [] then None else map_option int (radix_val b 0 s))"

definition unsigned_text :: "string \<Rightarrow> int option" where
  "unsigned_text s =
     (if s \<noteq> [] \<and> list_all is_digit s then Some (int (digits_val 0 s)) else None)"

text \<open>
  \<open>BigInt(text)\<close>: surrounding white space is ignored, the empty text is zero, a
  decimal may carry a sign, and \<open>0x\<close>, \<open>0o\<close> and \<open>0b\<close> select a base.  Everything else
  is a \<open>SyntaxError\<close>, here \<open>None\<close>.
\<close>

definition js_BigInt :: "string \<Rightarrow> int option" where
  "js_BigInt s = (case js_trim s of
       [] \<Rightarrow> Some 0
     | c # cs \<Rightarrow>
        if c = CHR ''-'' then map_option uminus (unsigned_text cs)
        else if c = CHR ''+'' then unsigned_text cs
        else if c = CHR ''0'' then (case cs of
            [] \<Rightarrow> Some 0
          | x # ds \<Rightarrow>
             if x = CHR ''x'' \<or> x = CHR ''X'' then radix_text 16 ds
             else if x = CHR ''o'' \<or> x = CHR ''O'' then radix_text 8 ds
             else if x = CHR ''b'' \<or> x = CHR ''B'' then radix_text 2 ds
             else unsigned_text (c # cs))
        else unsigned_text (c # cs))"

section \<open>Printing and reading agree\<close>

lemma is_digit_literals [simp]:
  "is_digit CHR ''0''" "is_digit CHR ''1''" "is_digit CHR ''2''" "is_digit CHR ''3''"
  "is_digit CHR ''4''" "is_digit CHR ''5''" "is_digit CHR ''6''" "is_digit CHR ''7''"
  "is_digit CHR ''8''" "is_digit CHR ''9''"
  by (simp_all add: is_digit_def)

lemma of_char_digit_char [simp]: "n < 10 \<Longrightarrow> of_char (digit_char n) = 48 + n"
  by (simp add: digit_char_def)

lemma is_digit_digit_char [simp]: "n < 10 \<Longrightarrow> is_digit (digit_char n)"
  by (simp add: is_digit_def)

lemma digit_val_digit_char [simp]: "n < 10 \<Longrightarrow> digit_val (digit_char n) = n"
  by (simp add: digit_val_def)

lemma digit_char_0 [simp]: "digit_char 0 = CHR ''0''"
proof -
  have "of_char (CHR ''0'') = (48::nat)" by simp
  then show ?thesis unfolding digit_char_def by (metis add_0_right char_of_char)
qed

lemma digit_char_eq_0: "n < 10 \<Longrightarrow> digit_char n = CHR ''0'' \<longleftrightarrow> n = 0"
  using digit_val_digit_char [of n] digit_val_digit_char [of 0] by fastforce

lemma digits_val_append: "digits_val a (s @ t) = digits_val (digits_val a s) t"
  by (simp add: digits_val_def)

lemma digits_val_single [simp]: "digits_val a [c] = 10 * a + digit_val c"
  by (simp add: digits_val_def)

lemma digits_val_Nil [simp]: "digits_val a [] = a"
  by (simp add: digits_val_def)

lemma digits_val_Cons: "digits_val a (c # s) = digits_val (10 * a + digit_val c) s"
  by (simp add: digits_val_def)

lemma show_nat_nonempty [simp]: "show_nat n \<noteq> []"
  by (subst show_nat.simps) simp

lemma show_nat_digits: "list_all is_digit (show_nat n)"
proof (induction n rule: show_nat.induct)
  case (1 n)
  then show ?case by (subst show_nat.simps) (simp add: list_all_iff)
qed

lemma digits_val_show_nat [simp]: "digits_val 0 (show_nat n) = n"
proof (induction n rule: show_nat.induct)
  case (1 n)
  then show ?case by (subst show_nat.simps) (simp add: digits_val_append)
qed

lemma hd_show_nat: "hd (show_nat n) = CHR ''0'' \<longleftrightarrow> n = 0"
proof (induction n rule: show_nat.induct)
  case (1 n)
  show ?case
  proof (cases "n < 10")
    case True
    then show ?thesis by (subst show_nat.simps) (simp add: digit_char_eq_0)
  next
    case False
    with 1 have "hd (show_nat (n div 10)) = CHR ''0'' \<longleftrightarrow> n div 10 = 0" by simp
    with False show ?thesis by (subst show_nat.simps) (simp add: hd_append)
  qed
qed

lemma show_nat_0 [simp]: "show_nat 0 = ''0''"
  by (simp add: show_nat.simps)

lemma decimal_pattern_show_nat [simp]: "decimal_pattern (show_nat n)"
proof (cases "n = 0")
  case True
  then show ?thesis by simp
next
  case False
  then have "hd (show_nat n) \<noteq> CHR ''0''" by (simp add: hd_show_nat)
  moreover have "list_all is_digit (show_nat n)" by (rule show_nat_digits)
  ultimately show ?thesis by (cases "show_nat n") auto
qed

section \<open>Canonical decimals\<close>

text \<open>The number a canonical decimal text denotes.\<close>

definition dec_val :: "string \<Rightarrow> nat" where
  "dec_val s = digits_val 0 s"

lemma dec_val_show_nat [simp]: "dec_val (show_nat n) = n"
  by (simp add: dec_val_def)

lemma digit_char_digit_val: "is_digit c \<Longrightarrow> digit_char (digit_val c) = c"
  by (simp add: is_digit_def digit_char_def digit_val_def)

lemma digit_val_less: "is_digit c \<Longrightarrow> digit_val c < 10"
  by (auto simp: is_digit_def digit_val_def)

lemma digit_val_eq_0: "is_digit c \<Longrightarrow> digit_val c = 0 \<Longrightarrow> c = CHR ''0''"
  using digit_char_digit_val [of c] by simp

lemma digits_val_ge: "a \<le> digits_val a s"
proof (induction s arbitrary: a)
  case Nil
  then show ?case by simp
next
  case (Cons c s)
  have "a \<le> 10 * a + digit_val c" by simp
  also have "\<dots> \<le> digits_val (10 * a + digit_val c) s" by (rule Cons.IH)
  finally show ?case by (simp add: digits_val_Cons)
qed

lemma decimal_pattern_digits: "decimal_pattern s \<Longrightarrow> s \<noteq> [] \<and> list_all is_digit s"
  by (cases s) (auto simp: is_digit_def split: if_splits)

lemma decimal_pattern_snoc:
  assumes "decimal_pattern (t @ [c])" and "t \<noteq> []"
  shows "decimal_pattern t" and "is_digit c" and "0 < digits_val 0 t"
proof -
  from assms obtain d ds where t: "t = d # ds" by (cases t) auto
  with assms have d: "d \<noteq> CHR ''0''" "is_digit d" "list_all is_digit (ds @ [c])"
    by (auto split: if_splits)
  with t show "decimal_pattern t" and "is_digit c" by auto
  have "0 < digit_val d" using d(1,2) digit_val_eq_0 by blast
  also have "digit_val d \<le> digits_val (digit_val d) ds" by (rule digits_val_ge)
  finally show "0 < digits_val 0 t" by (simp add: t digits_val_Cons)
qed

text \<open>Reading a canonical decimal and printing it gives the text back.\<close>

lemma show_nat_dec_val: "decimal_pattern s \<Longrightarrow> show_nat (dec_val s) = s"
proof (induction s rule: rev_induct)
  case Nil
  then show ?case by simp
next
  case (snoc c t)
  show ?case
  proof (cases "t = []")
    case True
    with snoc.prems have "is_digit c" by (auto simp: is_digit_def split: if_splits)
    with True show ?thesis
      by (simp add: dec_val_def show_nat.simps digit_val_less digit_char_digit_val)
  next
    case False
    note parts = decimal_pattern_snoc [OF snoc.prems False]
    have "dec_val (t @ [c]) = 10 * dec_val t + digit_val c"
      by (simp add: dec_val_def digits_val_append)
    moreover have "0 < dec_val t" using parts(3) by (simp add: dec_val_def)
    moreover have "digit_val c < 10" using parts(2) by (rule digit_val_less)
    moreover have "show_nat (dec_val t) = t" using parts(1) by (rule snoc.IH)
    ultimately show ?thesis
      using parts(2) by (subst show_nat.simps) (simp add: digit_char_digit_val)
  qed
qed

lemma dec_val_inject: "decimal_pattern s \<Longrightarrow> decimal_pattern t \<Longrightarrow> dec_val s = dec_val t \<Longrightarrow> s = t"
  by (metis show_nat_dec_val)

lemma digit_not_space: "is_digit c \<Longrightarrow> \<not> is_space c"
  by (auto simp: is_digit_def is_space_def Let_def)

lemma dropWhile_id: "s \<noteq> [] \<Longrightarrow> \<not> p (hd s) \<Longrightarrow> dropWhile p s = s"
  by (cases s) auto

lemma js_trim_digits: "s \<noteq> [] \<Longrightarrow> list_all is_digit s \<Longrightarrow> js_trim s = s"
  by (simp add: js_trim_def dropWhile_id list_all_iff digit_not_space hd_rev)

lemma js_BigInt_decimal: "decimal_pattern s \<Longrightarrow> js_BigInt s = Some (int (dec_val s))"
proof -
  assume p: "decimal_pattern s"
  then have d: "s \<noteq> []" "list_all is_digit s" using decimal_pattern_digits by auto
  then obtain c cs where s: "s = c # cs" by (cases s) auto
  have "c \<noteq> CHR ''-''" "c \<noteq> CHR ''+''" using d s by (auto simp: is_digit_def)
  then show ?thesis
    using p d s js_trim_digits [OF d]
    by (auto simp: js_BigInt_def unsigned_text_def dec_val_def digits_val_def digit_val_def
             split: if_splits)
qed

lemma js_BigInt_show_nat [simp]: "js_BigInt (show_nat n) = Some (int n)"
  by (simp add: js_BigInt_decimal)

lemma bigint_toString_of_nat [simp]: "bigint_toString (int n) = show_nat n"
  by (simp add: bigint_toString_def)

lemma bigint_toString_nonneg: "0 \<le> i \<Longrightarrow> bigint_toString i = show_nat (nat i)"
  by (simp add: bigint_toString_def)

end
