(* ===== verification/AgentTypes.thy ===== *)
theory AgentTypes
  imports Complex_Main JsText
begin

text \<open>
  The data the node agent exchanges with the control plane and keeps in its local
  database (\<open>apps/node-agent/src/types.ts\<close> and the row types of \<open>store.ts\<close>), and
  the errors its code throws.  Byte counts, revisions and sequence numbers travel
  as decimal texts and are kept as such, as in the source.
\<close>

section \<open>JSON values\<close>

text \<open>
  A JSON object is the list of its members, keys distinct; a property that is absent
  reads as \<open>None\<close>, JavaScript's \<open>undefined\<close>.
\<close>

datatype json =
    JNull
  | JBool bool
  | JNum rat
  | JStr string
  | JArr "json list"
  | JObj "(string \<times> json) list"

type_synonym json_object = "(string \<times> json) list"

section \<open>Enumerations\<close>

datatype command_type =
    ENSURE_USER | ENABLE_USER | DISABLE_USER | REMOVE_USER
  | RECONCILE_USERS | REFRESH_QUOTA | ENSURE_INBOUND

datatype control_mode = Xui_primary | Shadow_direct | Direct_primary | Rollback_pending

datatype flow = Xtls_rprx_vision | No_flow

datatype command_status = Completed | Failed

definition mode_text :: "control_mode \<Rightarrow> string" where
  "mode_text m = (case m of
     Xui_primary \<Rightarrow> ''xui_primary'' | Shadow_direct \<Rightarrow> ''shadow_direct''
   | Direct_primary \<Rightarrow> ''direct_primary'' | Rollback_pending \<Rightarrow> ''rollback_pending'')"

text \<open>\<open>isNodeControlMode\<close>: the mode a text names, if it names one.\<close>

definition parse_mode :: "string \<Rightarrow> control_mode option" where
  "parse_mode s =
     (if s = ''xui_primary'' then Some Xui_primary
      else if s = ''shadow_direct'' then Some Shadow_direct
      else if s = ''direct_primary'' then Some Direct_primary
      else if s = ''rollback_pending'' then Some Rollback_pending
      else None)"

definition isNodeControlMode :: "json option \<Rightarrow> control_mode option" where
  "isNodeControlMode v = (case v of Some (JStr s) \<Rightarrow> parse_mode s | _ \<Rightarrow> None)"

lemma parse_mode_text [simp]: "parse_mode (mode_text m) = Some m"
  by (cases m) (simp_all add: parse_mode_def mode_text_def)

section \<open>Errors\<close>

datatype agent_error =
    InvalidDecimal string          \<comment> \<open>\<open>decimal\<close>: not a non-negative decimal integer\<close>
  | BigIntSyntax string            \<comment> \<open>\<open>BigInt\<close>: a \<open>SyntaxError\<close>\<close>
  | UniqueEmail string             \<comment> \<open>the table's \<open>UNIQUE\<close> constraint on \<open>email\<close>\<close>
  | DuplicateBatch string string   \<comment> \<open>the primary key of \<open>usage_batches_v2\<close>\<close>
  | ForeignState string string     \<comment> \<open>\<open>ForeignStateError\<close>: recorded and current node\<close>
  | NodeIdMismatch                 \<comment> \<open>a configuration of another node\<close>
  | WritesForbidden                \<comment> \<open>the control mode forbids changing Xray users\<close>
  | BadUserPayload                 \<comment> \<open>a command without a user object\<close>
  | MissingField string            \<comment> \<open>a command without a required text field\<close>
  | BadFlow                        \<comment> \<open>an unsupported \<open>flow\<close>\<close>
  | StaleReconcile                 \<comment> \<open>an outdated \<open>RECONCILE_USERS\<close> revision\<close>
  | StaleInbound                   \<comment> \<open>an outdated \<open>ENSURE_INBOUND\<close> revision\<close>
  | PanelNeedsGoAgent              \<comment> \<open>panel validation sent to this agent\<close>
  | NoInboundHelper                \<comment> \<open>no configuration helper on this host\<close>
  | BadInboundSpec string          \<comment> \<open>\<open>parseInboundSpec\<close> refused this field of the payload\<close>
  | BadHelperResult string         \<comment> \<open>\<open>parseHelperResult\<close> refused this field of the result\<close>
  | HelperFailed string string     \<comment> \<open>the helper reported a failure: stage and reason\<close>
  | NotPublicHost string           \<comment> \<open>the resolved address is not public unicast\<close>
  | DeployedPortMismatch int int   \<comment> \<open>the helper deployed another port\<close>
  | DeployedNameMismatch string    \<comment> \<open>the helper answered another server name\<close>
  | DeployedListenMismatch string string \<comment> \<open>an IPv6 endpoint over another listener\<close>
  | InboundNotLive agent_error     \<comment> \<open>the inbound did not come up in the window\<close>
  | TagNotLoaded                   \<comment> \<open>Xray runs without the inbound's tag\<close>
  | NoPublicHost                   \<comment> \<open>the control plane returned no address\<close>
  | External string                \<comment> \<open>a failure of Xray, the helper or the network\<close>

section \<open>Records\<close>

record DesiredUser =
  du_bindingId :: string
  du_revision :: string
  du_email :: string
  du_uuid :: string
  du_flow :: "flow option"
  du_enabled :: bool
  du_quotaRemainingBytes :: string
  du_offlineAllowanceBytes :: string

record AbsoluteCounter =
  ac_email :: string
  ac_uplinkBytes :: string
  ac_downlinkBytes :: string

record UsageSample =
  us_bindingId :: string
  us_counterGeneration :: string
  us_uplinkBytes :: string
  us_downlinkBytes :: string
  us_uplinkDeltaBytes :: string
  us_downlinkDeltaBytes :: string

record UsageBatch =
  ub_bootId :: string
  ub_sequence :: string
  ub_sampledAt :: string
  ub_samples :: "UsageSample list"

record AgentCommand =
  cmd_id :: string
  cmd_type :: command_type
  cmd_targetRevision :: string
  cmd_payload :: json_object
  cmd_createdAt :: string

record CommandResult =
  res_commandId :: string
  res_status :: command_status
  res_result :: "json_object option"
  res_error :: "agent_error option"

record AgentConfigSnapshot =
  snap_nodeId :: string
  snap_revision :: string
  snap_controlMode :: control_mode
  snap_users :: "DesiredUser list"

record InboundState =
  ib_hash :: string
  ib_report :: json
  ib_appliedRevision :: string
  ib_complete :: bool

record SampleResult =
  sr_batch :: "UsageBatch option"
  sr_disableEmails :: "string list"

text \<open>The rows of the local database.\<close>

record UserRow =
  ur_binding_id :: string
  ur_email :: string
  ur_uuid :: string
  ur_flow :: flow
  ur_enabled :: nat
  ur_revision :: string
  ur_quota_remaining :: string
  ur_offline_allowance :: string
  ur_offline_used :: string
  ur_generation :: string
  ur_counter_initialized :: nat
  ur_uplink :: string
  ur_downlink :: string
  ur_updated_at :: string

record BatchRow =
  br_boot_id :: string
  br_sequence :: string
  br_sampled_at :: string
  br_payload :: UsageBatch

record CommandRow =
  cr_command_id :: string
  cr_command_type :: command_type
  cr_target_revision :: string
  cr_payload :: AgentCommand
  cr_result :: "CommandResult option"
  cr_completed_at :: "string option"

end
