(* ===== verification/JsNumber.thy ===== *)
theory JsNumber
  imports Complex_Main JsText "HOL-Library.Log_Nat"
begin

text \<open>
  JavaScript's \<open>Number\<close> as far as the program uses it: binary64 rounding, \<open>Number(text)\<close>,
  \<open>Number.parseInt\<close>, \<open>Number.isInteger\<close> and \<open>Number.prototype.toString\<close>, and the string
  methods \<open>split\<close>, \<open>lastIndexOf\<close>, \<open>includes\<close>, \<open>startsWith\<close> and \<open>slice\<close>.  A finite number is
  the rational it denotes.
\<close>

section \<open>Rounding to binary64\<close>

definition round_half_even :: "rat \<Rightarrow> int" where
  "round_half_even q = (let f = floor q; r = q - of_int f in
     if r < 1/2 then f else if r > 1/2 then f + 1 else if even f then f else f + 1)"

text \<open>The exponent of the leading bit of a positive rational.\<close>

definition ilog2 :: "rat \<Rightarrow> int" where
  "ilog2 q = (case quotient_of q of (n, d) \<Rightarrow>
     let k = bitlen n - bitlen d
     in if 2 powi k \<le> q then k else k - 1)"

text \<open>Round to nearest, ties to even, with gradual underflow; overflow is treated below.\<close>

definition fl :: "rat \<Rightarrow> rat" where
  "fl q = (if q = 0 then 0 else
     let e = max (ilog2 \<bar>q\<bar> - 52) (- 1074);
         m = of_int (round_half_even (\<bar>q\<bar> / 2 powi e)) * 2 powi e
     in if q < 0 then - m else m)"

datatype js_number = NaN | Infinite bool | Num rat

definition to_number :: "rat \<Rightarrow> js_number" where
  "to_number q = (let r = fl q in if \<bar>r\<bar> \<ge> 2 ^ 1024 then Infinite (q < 0) else Num r)"

definition is_integer :: "rat \<Rightarrow> bool" where
  "is_integer q \<longleftrightarrow> q = of_int (floor q)"

text \<open>\<open>Number.isInteger\<close>.\<close>

fun isInteger :: "js_number \<Rightarrow> bool" where
  "isInteger (Num q) = is_integer q"
| "isInteger _ = False"

section \<open>Strings\<close>

text \<open>\<open>text.split(c)\<close>.\<close>

fun js_split :: "char \<Rightarrow> string \<Rightarrow> string list" where
  "js_split c [] = [[]]"
| "js_split c (x # xs) =
     (if x = c then [] # js_split c xs
      else case js_split c xs of [] \<Rightarrow> [[x]] | p # ps \<Rightarrow> (x # p) # ps)"

text \<open>What stands before the first \<open>"::"\<close> of a text and, if there is one, what follows it.\<close>

fun split_colons :: "string \<Rightarrow> string \<times> string option" where
  "split_colons (a # b # s) =
     (if a = CHR '':'' \<and> b = CHR '':'' then ([], Some s)
      else case split_colons (b # s) of (h, t) \<Rightarrow> (a # h, t))"
| "split_colons s = (s, None)"

text \<open>The position of the last occurrence of a character, if any.\<close>

fun lastIndexOf :: "char \<Rightarrow> string \<Rightarrow> nat option" where
  "lastIndexOf c [] = None"
| "lastIndexOf c (x # xs) = (case lastIndexOf c xs of
     Some i \<Rightarrow> Some (Suc i) | None \<Rightarrow> if x = c then Some 0 else None)"

text \<open>\<open>text.replace(/^\[|\]$/g, "")\<close>.\<close>

definition strip_brackets :: "string \<Rightarrow> string" where
  "strip_brackets s =
     (let t = (if s \<noteq> [] \<and> hd s = CHR ''['' then tl s else s)
      in if t \<noteq> [] \<and> last t = CHR '']'' then butlast t else t)"

definition is_upper :: "char \<Rightarrow> bool" where
  "is_upper c \<longleftrightarrow> 65 \<le> (of_char c :: nat) \<and> (of_char c :: nat) \<le> 90"

definition is_lower :: "char \<Rightarrow> bool" where
  "is_lower c \<longleftrightarrow> 97 \<le> (of_char c :: nat) \<and> (of_char c :: nat) \<le> 122"

definition is_alnum :: "char \<Rightarrow> bool" where
  "is_alnum c \<longleftrightarrow> is_digit c \<or> is_upper c \<or> is_lower c"

definition to_lower :: "char \<Rightarrow> char" where
  "to_lower c = (if is_upper c then char_of ((of_char c :: nat) + 32) else c)"

definition toLowerCase :: "string \<Rightarrow> string" where
  "toLowerCase s = map to_lower s"

section \<open>Number(text)\<close>

text \<open>A run of digits, its value and the rest.\<close>

definition span_digits :: "string \<Rightarrow> string \<times> string" where
  "span_digits s = (takeWhile is_digit s, dropWhile is_digit s)"

text \<open>The exponent part of a decimal literal: \<open>None\<close> when the text is not one.\<close>

definition exponent_part :: "string \<Rightarrow> int option" where
  "exponent_part s = (case s of
       [] \<Rightarrow> Some 0
     | c # cs \<Rightarrow>
         if c = CHR ''e'' \<or> c = CHR ''E'' then (case cs of
             [] \<Rightarrow> None
           | d # ds \<Rightarrow>
               if d = CHR ''-'' then map_option uminus (unsigned_text ds)
               else if d = CHR ''+'' then unsigned_text ds
               else unsigned_text cs)
         else None)"

definition decimal_literal :: "string \<Rightarrow> rat option" where
  "decimal_literal s = (case span_digits s of (whole, rest) \<Rightarrow>
     (case (case rest of
              c # cs \<Rightarrow> if c = CHR ''.'' then span_digits cs else ([], rest)
            | [] \<Rightarrow> ([], [])) of
        (fraction, expo) \<Rightarrow>
          if whole = [] \<and> fraction = [] then None
          else map_option (\<lambda>e. of_nat (digits_val 0 (whole @ fraction)) * 10 powi (e - int (length fraction)))
            (exponent_part expo)))"

definition js_Number :: "string \<Rightarrow> js_number" where
  "js_Number text = (case js_trim text of
       [] \<Rightarrow> Num 0
     | c # cs \<Rightarrow>
         (let unsigned = (\<lambda>s. if s = ''Infinity'' then Infinite False
                             else case decimal_literal s of None \<Rightarrow> NaN | Some q \<Rightarrow> to_number q)
          in if c = CHR ''-'' then (case unsigned cs of Num q \<Rightarrow> Num (- q) | Infinite b \<Rightarrow> Infinite True | NaN \<Rightarrow> NaN)
             else if c = CHR ''+'' then unsigned cs
             else case (c, cs) of
               (c, x # ds) \<Rightarrow>
                 if c = CHR ''0'' \<and> (x = CHR ''x'' \<or> x = CHR ''X'' \<or> x = CHR ''o'' \<or> x = CHR ''O''
                     \<or> x = CHR ''b'' \<or> x = CHR ''B'')
                 then (case js_BigInt (c # cs) of None \<Rightarrow> NaN | Some i \<Rightarrow> to_number (of_int i))
                 else unsigned (c # cs)
             | _ \<Rightarrow> unsigned (c # cs)))"

text \<open>\<open>Number.parseInt(text, 16)\<close> on a text without sign and without \<open>0x\<close>: the longest prefix
  of hexadecimal digits; without one, \<open>NaN\<close>.\<close>

definition parseInt_hex :: "string \<Rightarrow> js_number" where
  "parseInt_hex s = (let ds = takeWhile (\<lambda>c. hex_val c \<noteq> None) (js_trim s)
     in if ds = [] then NaN
        else case radix_val 16 0 ds of None \<Rightarrow> NaN | Some n \<Rightarrow> to_number (of_nat n))"

text \<open>The conversion of the bitwise operators.\<close>

definition to_int32 :: "js_number \<Rightarrow> int" where
  "to_int32 x = (case x of
     Num q \<Rightarrow> (let i = (if q < 0 then - floor (- q) else floor q) mod 2 ^ 32
       in if i < 2 ^ 31 then i else i - 2 ^ 32)
   | _ \<Rightarrow> 0)"

text \<open>\<open>x === n\<close>, \<open>x >= n\<close> and \<open>x <= n\<close>: every comparison with \<open>NaN\<close> is false.\<close>

fun num_eq :: "js_number \<Rightarrow> rat \<Rightarrow> bool" where
  "num_eq (Num q) n = (q = n)" | "num_eq _ n = False"

fun num_ge :: "js_number \<Rightarrow> rat \<Rightarrow> bool" where
  "num_ge (Num q) n = (q \<ge> n)" | "num_ge (Infinite neg) n = (\<not> neg)" | "num_ge NaN n = False"

fun num_le :: "js_number \<Rightarrow> rat \<Rightarrow> bool" where
  "num_le (Num q) n = (q \<le> n)" | "num_le (Infinite neg) n = neg" | "num_le NaN n = False"

section \<open>Facts\<close>

lemma js_split_nonempty [simp]: "js_split c s \<noteq> []"
  by (induction s) (auto split: list.splits)

lemma js_split_no_sep: "c \<notin> set s \<Longrightarrow> js_split c s = [s]"
  by (induction s) auto

lemma js_split_pieces: "p \<in> set (js_split c s) \<Longrightarrow> c \<notin> set p"
proof (induction s arbitrary: p)
  case Nil
  then show ?case by simp
next
  case (Cons x xs)
  then show ?case by (cases "js_split c xs") (auto split: if_splits)
qed

lemma is_integer_of_int [simp]: "is_integer (of_int i)"
  by (simp add: is_integer_def)

text \<open>Integers below \<open>2 ^ 53\<close> are represented exactly.\<close>

lemma round_half_even_int [simp]: "round_half_even (of_int i) = i"
  by (simp add: round_half_even_def)

lemma ilog2_nat_le: "0 < n \<Longrightarrow> n < 2 ^ 53 \<Longrightarrow> ilog2 (of_nat n) \<le> 52"
proof -
  assume n: "0 < n" "n < 2 ^ 53"
  have q: "quotient_of (rat_of_nat n) = (int n, 1)"
    using quotient_of_int [of "int n"] by simp
  have "bitlen (int n) \<le> 53" using n by (simp add: bitlen_le_iff_power)
  moreover have "bitlen 1 = 1" by (simp add: compute_bitlen)
  ultimately show ?thesis by (auto simp: ilog2_def q Let_def)
qed

lemma fl_nat: "n < 2 ^ 53 \<Longrightarrow> fl (of_nat n) = of_nat n"
proof (cases "n = 0")
  case True
  then show ?thesis by (simp add: fl_def)
next
  case False
  assume "n < 2 ^ 53"
  define e where "e = max (ilog2 (rat_of_nat n) - 52) (- 1074)"
  define i where "i = int n * 2 ^ nat (- e)"
  have e: "e \<le> 0" using ilog2_nat_le [of n] False \<open>n < 2 ^ 53\<close> by (simp add: e_def)
  then have i: "rat_of_nat n / 2 powi e = of_int i"
    by (simp add: power_int_def field_simps i_def)
  have "fl (of_nat n) = of_int (round_half_even (rat_of_nat n / 2 powi e)) * 2 powi e"
    using False by (simp add: fl_def Let_def flip: e_def)
  also have "\<dots> = of_int i * 2 powi e" by (simp add: i)
  also have "\<dots> = of_nat n" using e by (simp add: power_int_def field_simps i_def)
  finally show ?thesis .
qed

lemma to_number_nat: "n < 2 ^ 53 \<Longrightarrow> to_number (of_nat n) = Num (of_nat n)"
proof -
  assume n: "n < 2 ^ 53"
  then have "n < 2 ^ 1024" using power_increasing [of 53 1024 "2::nat"] by linarith
  then have "rat_of_nat n < 2 ^ 1024" by (metis of_nat_less_iff of_nat_numeral of_nat_power)
  with n show ?thesis by (simp add: to_number_def fl_nat)
qed

lemma span_digits_all: "list_all is_digit s \<Longrightarrow> span_digits s = (s, [])"
  by (auto simp: span_digits_def list_all_iff)

text \<open>\<open>Number\<close> reads a canonical decimal exactly.\<close>

lemma js_Number_decimal:
  assumes "decimal_pattern s" and "dec_val s < 2 ^ 53"
  shows "js_Number s = Num (of_nat (dec_val s))"
proof -
  have d: "s \<noteq> []" "list_all is_digit s" using assms(1) decimal_pattern_digits by auto
  then obtain c cs where s: "s = c # cs" by (cases s) auto
  have c: "c \<noteq> CHR ''-''" "c \<noteq> CHR ''+''" "s \<noteq> ''Infinity''" using d s by (auto simp: is_digit_def)
  have "decimal_literal s = Some (of_nat (dec_val s))"
    using d by (simp add: decimal_literal_def span_digits_all exponent_part_def dec_val_def)
  moreover have "cs = [] \<or> c \<noteq> CHR ''0''" using assms(1) s by (auto split: if_splits)
  ultimately show ?thesis
    using c to_number_nat [OF assms(2)] js_trim_digits [OF d] unfolding s
    by (auto simp: js_Number_def Let_def split: list.splits)
qed

section \<open>Numbers in the environment\<close>

text \<open>
  \<open>Number.parseInt(text, 10)\<close> and the helper \<open>readPositiveIntegerEnv\<close>, of which several modules
  have a copy: an absent, unreadable or non-positive setting means the default.
\<close>

definition parse_int :: "string \<Rightarrow> int option" where
  "parse_int text =
     (let s = dropWhile is_space text;
          sign = (if take 1 s = ''-'' then -1 else 1);
          digits = takeWhile is_digit (if take 1 s = ''-'' \<or> take 1 s = ''+'' then drop 1 s else s)
      in if digits = [] then None else Some (sign * int (dec_val digits)))"

definition readPositiveIntegerEnv :: "string option \<Rightarrow> int \<Rightarrow> int" where
  "readPositiveIntegerEnv value fallback = (case parse_int (case value of None \<Rightarrow> [] | Some s \<Rightarrow> s) of
       None \<Rightarrow> fallback | Some n \<Rightarrow> if n > 0 then n else fallback)"

lemma readPositive_pos: "0 < fallback \<Longrightarrow> 0 < readPositiveIntegerEnv value fallback"
  by (simp add: readPositiveIntegerEnv_def split: option.splits)

end
