(* ===== verification/NetAddress.thy ===== *)
theory NetAddress
  imports JsNumber "HOL-Library.Word"
begin

unbundle bit_operations_syntax

text \<open>
  The address policy that the agent (\<open>apps/node-agent/src/public-address.ts\<close>) and the
  control plane (\<open>apps/api/src/modules/agent/agent-inbound.ts\<close>) keep in two copies: which
  texts name a public unicast address.  \<open>isIP\<close> is \<open>node:net\<close>'s classification.
\<close>

section \<open>node:net\<close>

definition octet_text :: "string \<Rightarrow> bool" where
  "octet_text p \<longleftrightarrow> decimal_pattern p \<and> length p \<le> 3 \<and> dec_val p \<le> 255"

definition isIPv4 :: "string \<Rightarrow> bool" where
  "isIPv4 s \<longleftrightarrow> (let ps = js_split (CHR ''.'') s in length ps = 4 \<and> list_all octet_text ps)"

definition hextet :: "string \<Rightarrow> bool" where
  "hextet p \<longleftrightarrow> p \<noteq> [] \<and> length p \<le> 4 \<and> list_all (\<lambda>c. hex_val c \<noteq> None) p"

text \<open>How many 16-bit groups a sequence of pieces stands for; a dotted quad, which may only
  come last, stands for two.\<close>

fun v6_groups :: "string list \<Rightarrow> nat option" where
  "v6_groups [] = Some 0"
| "v6_groups [p] = (if hextet p then Some 1 else if isIPv4 p then Some 2 else None)"
| "v6_groups (p # ps) = (if hextet p then map_option Suc (v6_groups ps) else None)"

definition v6_part :: "string \<Rightarrow> nat option" where
  "v6_part s = (if s = [] then Some 0 else v6_groups (js_split (CHR '':'') s))"

definition v6_core :: "string \<Rightarrow> bool" where
  "v6_core s = (case split_colons s of
       (h, None) \<Rightarrow> v6_part h = Some 8
     | (h, Some t) \<Rightarrow>
         (h = [] \<or> list_all hextet (js_split (CHR '':'') h))
         \<and> (case v6_part t of None \<Rightarrow> False
            | Some n \<Rightarrow> (if h = [] then 0 else length (js_split (CHR '':'') h)) + n \<le> 7))"

definition zone_char :: "char \<Rightarrow> bool" where
  "zone_char c \<longleftrightarrow> is_alnum c \<or> c = CHR ''-'' \<or> c = CHR ''.'' \<or> c = CHR '':''"

definition isIPv6 :: "string \<Rightarrow> bool" where
  "isIPv6 s \<longleftrightarrow> v6_core (takeWhile (\<lambda>c. c \<noteq> CHR ''%'') s)
     \<and> (case dropWhile (\<lambda>c. c \<noteq> CHR ''%'') s of
          [] \<Rightarrow> True | _ # zone \<Rightarrow> zone \<noteq> [] \<and> list_all zone_char zone)"

definition isIP :: "string \<Rightarrow> nat" where
  "isIP s = (if isIPv4 s then 4 else if isIPv6 s then 6 else 0)"

section \<open>Parsing IPv6\<close>

definition push_word :: "string \<Rightarrow> js_number list" where
  "push_word piece = (let w = to_int32 (parseInt_hex piece)
     in [Num (of_int (w div 256)), Num (of_int (w mod 256))])"

definition expand_piece :: "string \<Rightarrow> js_number list" where
  "expand_piece piece =
     (if CHR ''.'' \<in> set piece then map js_Number (js_split (CHR ''.'') piece) else push_word piece)"

definition expand :: "string \<Rightarrow> js_number list" where
  "expand part = (if part = [] then [] else concat (map expand_piece (js_split (CHR '':'') part)))"

definition parseIPv6Bytes :: "string \<Rightarrow> js_number list option" where
  "parseIPv6Bytes val =
     (let host = strip_brackets (js_trim val) in
      if isIP host \<noteq> 6 then None
      else case split_colons host of (head, after) \<Rightarrow>
        let tail = map_option (\<lambda>s. fst (split_colons s)) after;
            front = expand head;
            back = (case tail of None \<Rightarrow> [] | Some t \<Rightarrow> expand t);
            missing = 16 - int (length front) - int (length back)
        in if missing < 0 \<or> (tail = None \<and> missing \<noteq> 0) then None
           else Some (front @ replicate (nat missing) (Num 0) @ back))"

section \<open>The policy\<close>

text \<open>Reading past the end gives \<open>undefined\<close>, which compares like \<open>NaN\<close>.\<close>

definition elem_at :: "js_number list \<Rightarrow> nat \<Rightarrow> js_number" where
  "elem_at xs i = (if i < length xs then xs ! i else NaN)"

definition isPublicIPv4 :: "js_number list \<Rightarrow> bool" where
  "isPublicIPv4 octets =
     (let a = elem_at octets 0; b = elem_at octets 1 in
      if num_eq a 0 \<or> num_eq a 10 \<or> num_eq a 127 \<or> num_ge a 224 then False
      else if num_eq a 172 \<and> num_ge b 16 \<and> num_le b 31 then False
      else if num_eq a 192 \<and> num_eq b 168 then False
      else if num_eq a 169 \<and> num_eq b 254 then False
      else if num_eq a 100 \<and> num_ge b 64 \<and> num_le b 127 then False
      else True)"

definition isPublicIPv6 :: "js_number list \<Rightarrow> bool" where
  "isPublicIPv6 bytes =
     (let zero = (\<lambda>byte. num_eq byte 0);
          low = (\<lambda>i. word_of_int (to_int32 (elem_at bytes i)) :: 32 word)
      in if list_all zero (take 10 bytes) \<and> num_eq (elem_at bytes 10) 255 \<and> num_eq (elem_at bytes 11) 255
         then isPublicIPv4 (drop 12 bytes)
         else if list_all zero bytes then False
         else if list_all zero (take 15 bytes) \<and> num_eq (elem_at bytes 15) 1 then False
         else if low 0 AND 0xfe = 0xfc then False
         else if num_eq (elem_at bytes 0) 254 \<and> low 1 AND 0xc0 = 0x80 then False
         else if num_eq (elem_at bytes 0) 255 then False
         else True)"

text \<open>The agent's copy.\<close>

definition agent_isPublicUnicastAddress :: "string \<Rightarrow> bool" where
  "agent_isPublicUnicastAddress host =
     (let trimmed = strip_brackets (js_trim host); family = isIP trimmed in
      if family = 4 then isPublicIPv4 (map js_Number (js_split (CHR ''.'') trimmed))
      else if family \<noteq> 6 then False
      else case parseIPv6Bytes host of None \<Rightarrow> False | Some bytes \<Rightarrow> isPublicIPv6 bytes)"

text \<open>The control plane's copy, which splits the text before it strips brackets.\<close>

definition api_isPublicUnicastAddress :: "string \<Rightarrow> bool" where
  "api_isPublicUnicastAddress host =
     (let family = isIP (strip_brackets (js_trim host)) in
      if family = 4 then isPublicIPv4 (map js_Number (js_split (CHR ''.'') (js_trim host)))
      else if family \<noteq> 6 then False
      else case parseIPv6Bytes host of None \<Rightarrow> False | Some bytes \<Rightarrow> isPublicIPv6 bytes)"

section \<open>Facts\<close>

lemma isIPv4_pieces:
  "isIPv4 v \<Longrightarrow> \<exists>a b c d. js_split (CHR ''.'') v = [a, b, c, d]
     \<and> octet_text a \<and> octet_text b \<and> octet_text c \<and> octet_text d"
  by (auto simp: isIPv4_def Let_def length_Suc_conv numeral_eq_Suc)

lemma octet_text_digits: "octet_text p \<Longrightarrow> p \<noteq> [] \<and> list_all is_digit p"
  using decimal_pattern_digits by (auto simp: octet_text_def)

lemma js_Number_octet: "octet_text p \<Longrightarrow> js_Number p = Num (of_nat (dec_val p))"
  by (rule js_Number_decimal) (auto simp: octet_text_def)

lemma js_split_chars: "set s \<subseteq> insert c (\<Union> (set ` set (js_split c s)))"
proof (induction s)
  case Nil
  then show ?case by simp
next
  case (Cons x xs)
  then show ?case by (cases "js_split c xs") auto
qed

lemma isIPv4_chars: "isIPv4 v \<Longrightarrow> x \<in> set v \<Longrightarrow> is_digit x \<or> x = CHR ''.''"
proof -
  assume v: "isIPv4 v" and x: "x \<in> set v"
  then have "\<forall>p \<in> set (js_split (CHR ''.'') v). list_all is_digit p"
    by (auto simp: isIPv4_def Let_def list_all_iff dest!: bspec octet_text_digits)
  with js_split_chars [of v "CHR ''.''"] x show ?thesis by (fastforce simp: list_all_iff)
qed

lemma isIPv4_nonempty: "isIPv4 v \<Longrightarrow> v \<noteq> []"
  by (auto simp: isIPv4_def)

text \<open>A text without white space at its ends is its own trim, one without brackets is its
  own stripped form.\<close>

lemma js_trim_id:
  "s \<noteq> [] \<Longrightarrow> \<not> is_space (hd s) \<Longrightarrow> \<not> is_space (last s) \<Longrightarrow> js_trim s = s"
  by (simp add: js_trim_def dropWhile_id hd_rev)

lemma strip_brackets_id:
  "s \<noteq> [] \<Longrightarrow> hd s \<noteq> CHR ''['' \<Longrightarrow> last s \<noteq> CHR '']'' \<Longrightarrow> strip_brackets s = s"
  by (simp add: strip_brackets_def)

lemma address_char: "is_digit x \<or> x = CHR ''.'' \<Longrightarrow>
    \<not> is_space x \<and> x \<noteq> CHR ''['' \<and> x \<noteq> CHR '']'' \<and> x \<noteq> CHR '':'' \<and> x \<noteq> CHR ''%''"
  by (auto simp: is_digit_def is_space_def)

lemma isIPv4_plain:
  assumes "isIPv4 v"
  shows "js_trim v = v" "strip_brackets v = v"
  using assms isIPv4_nonempty [OF assms] isIPv4_chars [OF assms, of "hd v"] isIPv4_chars [OF assms, of "last v"]
  by (auto intro!: js_trim_id strip_brackets_id dest!: address_char)

lemma js_split_Cons_other: "x \<noteq> c \<Longrightarrow> js_split c (x # s) = (x # hd (js_split c s)) # tl (js_split c s)"
  by (cases "js_split c s") auto

section \<open>Where the two copies differ\<close>

text \<open>A leading bracket makes the first octet \<open>NaN\<close>, which no range rejects.\<close>

lemma js_Number_bracket:
  assumes "list_all is_digit p"
  shows "js_Number (CHR ''['' # p) = NaN"
proof -
  have sp: "\<not> is_space (CHR ''['')" by (simp add: is_space_def)
  have "\<not> is_space (last (CHR ''['' # p))"
    using assms digit_not_space sp by (auto simp: list_all_iff)
  then have "js_trim (CHR ''['' # p) = CHR ''['' # p" using sp by (intro js_trim_id) auto
  moreover have "decimal_literal (CHR ''['' # p) = None"
    by (simp add: decimal_literal_def span_digits_def is_digit_def)
  ultimately show ?thesis by (auto simp: js_Number_def Let_def split: list.splits)
qed

lemma isPublicIPv4_NaN: "isPublicIPv4 (NaN # octets)"
  by (simp add: isPublicIPv4_def elem_at_def)

lemma isPublicIPv4_two: "isPublicIPv4 (a # b # r) = isPublicIPv4 [a, b]"
  by (simp add: isPublicIPv4_def elem_at_def)

lemma js_split_snoc_other: "x \<noteq> c \<Longrightarrow>
    js_split c (s @ [x]) = butlast (js_split c s) @ [last (js_split c s) @ [x]]"
proof (induction s)
  case Nil
  then show ?case by simp
next
  case (Cons y s)
  then show ?case by (cases "js_split c s") (auto split: list.splits)
qed

text \<open>What a text can be whose bracket-free form is a given IPv4 address.\<close>

lemma strip_brackets_shape:
  assumes "strip_brackets s = v"
  obtains pre post where "s = pre @ v @ post" and "pre \<in> {[], ''[''}" and "post \<in> {[], '']''}"
proof -
  define t where "t = (if s \<noteq> [] \<and> hd s = CHR ''['' then tl s else s)"
  have s: "s = (if s \<noteq> [] \<and> hd s = CHR ''['' then ''['' else []) @ t"
    unfolding t_def by (cases s) auto
  have v: "v = (if t \<noteq> [] \<and> last t = CHR '']'' then butlast t else t)"
    using assms unfolding strip_brackets_def t_def Let_def by simp
  have t: "t = v @ (if t \<noteq> [] \<and> last t = CHR '']'' then '']'' else [])"
  proof (cases "t \<noteq> [] \<and> last t = CHR '']''")
    case True
    then show ?thesis using v append_butlast_last_id [of t] by simp
  next
    case False
    then show ?thesis using v by auto
  qed
  show thesis
    by (rule that [of "if s \<noteq> [] \<and> hd s = CHR ''['' then ''['' else []"
          "if t \<noteq> [] \<and> last t = CHR '']'' then '']'' else []"])
      (use s t in \<open>auto split: if_splits\<close>)
qed

lemma api_agent_v4:
  assumes v: "isIPv4 v" and s: "s = pre @ v @ post" "pre \<in> {[], ''[''}" "post \<in> {[], '']''}"
  shows "isPublicIPv4 (map js_Number (js_split (CHR ''.'') s)) \<longleftrightarrow>
    pre = ''['' \<or> isPublicIPv4 (map js_Number (js_split (CHR ''.'') v))"
proof -
  from isIPv4_pieces [OF v] obtain a b c d where p: "js_split (CHR ''.'') v = [a, b, c, d]"
    and o: "octet_text a" by blast
  have vp: "\<exists>d'. js_split (CHR ''.'') (v @ post) = [a, b, c, d']"
    using s(3) p by (auto simp: js_split_snoc_other)
  then obtain d' where d': "js_split (CHR ''.'') (v @ post) = [a, b, c, d']" by blast
  show ?thesis
  proof (cases "pre = ''[''")
    case True
    then have "js_split (CHR ''.'') s = [CHR ''['' # a, b, c, d']"
      by (simp add: s(1) js_split_Cons_other d' del: js_split.simps)
    moreover have "js_Number (CHR ''['' # a) = NaN"
      using o octet_text_digits by (blast intro: js_Number_bracket)
    ultimately show ?thesis using True by (simp add: isPublicIPv4_NaN)
  next
    case False
    with s have "s = v @ post" by simp
    with False show ?thesis
      by (simp add: d' p isPublicIPv4_two [of _ _ "_ # _"])
  qed
qed

section \<open>Well-formed texts parse to sixteen bytes\<close>

definition byte :: "js_number \<Rightarrow> bool" where
  "byte x \<longleftrightarrow> (\<exists>n. n < 256 \<and> x = Num (of_nat n))"

lemma radix_val_bound:
  "radix_val 16 a s = Some n \<Longrightarrow> n < (a + 1) * 16 ^ length s"
proof (induction s arbitrary: a)
  case Nil
  then show ?case by simp
next
  case (Cons c s)
  then obtain d where d: "d < 16" "radix_val 16 (16 * a + d) s = Some n"
    by (auto split: option.splits if_splits)
  from Cons.IH [OF d(2)] have "n < (16 * a + d + 1) * 16 ^ length s" .
  also have "\<dots> \<le> ((a + 1) * 16) * 16 ^ length s" using d(1) by (intro mult_right_mono) auto
  finally show ?case by (simp add: algebra_simps)
qed

lemma hex_val_less: "hex_val c = Some d \<Longrightarrow> d < 16"
  by (auto simp: hex_val_def Let_def split: if_splits)

lemma radix_val_total: "list_all (\<lambda>c. hex_val c \<noteq> None) s \<Longrightarrow> \<exists>n. radix_val 16 a s = Some n"
  by (induction s arbitrary: a) (auto dest: hex_val_less)

lemma hex_not_space: "hex_val c \<noteq> None \<Longrightarrow> \<not> is_space c"
  by (auto simp: hex_val_def is_space_def Let_def split: if_splits)

lemma hextet_value:
  assumes "hextet p"
  obtains n where "n < 65536" and "parseInt_hex p = Num (of_nat n)"
proof -
  from assms have p: "p \<noteq> []" "length p \<le> 4" "list_all (\<lambda>c. hex_val c \<noteq> None) p"
    by (auto simp: hextet_def)
  have "js_trim p = p" using p(1,3) hex_not_space by (intro js_trim_id) (auto simp: list_all_iff)
  moreover have "takeWhile (\<lambda>c. hex_val c \<noteq> None) p = p" using p(3) by (simp add: list_all_iff)
  moreover obtain n where n: "radix_val 16 0 p = Some n" using radix_val_total [OF p(3)] by blast
  moreover have "n < 65536"
    using radix_val_bound [OF n] p(2) power_increasing [of "length p" 4 "16::nat"] by simp
  ultimately have "parseInt_hex p = to_number (of_nat n)"
    unfolding parseInt_hex_def Let_def using p(1) by (simp only: if_False option.case)
  with \<open>n < 65536\<close> show thesis using to_number_nat [of n] by (intro that [of n]) simp_all
qed

lemma hextet_bytes:
  assumes "hextet p"
  shows "length (expand_piece p) = 2 \<and> list_all byte (expand_piece p)"
proof -
  obtain n where n: "n < 65536" "parseInt_hex p = Num (of_nat n)" using hextet_value [OF assms] .
  have "hex_val (CHR ''.'') = None" by (simp add: hex_val_def)
  then have "CHR ''.'' \<notin> set p" using assms by (auto simp: hextet_def list_all_iff)
  moreover have "to_int32 (Num (of_nat n)) = int n" using n(1) by (simp add: to_int32_def Let_def)
  moreover have "int n div 256 = int (n div 256)" "int n mod 256 = int (n mod 256)"
    by (simp_all add: zdiv_int zmod_int)
  moreover have "byte (Num (of_nat (n div 256)))" "byte (Num (of_nat (n mod 256)))"
    using n(1) by (auto simp: byte_def)
  ultimately show ?thesis by (simp add: expand_piece_def push_word_def n(2))
qed

lemma v4_bytes:
  assumes "isIPv4 p"
  shows "length (expand_piece p) = 4 \<and> list_all byte (expand_piece p)"
proof -
  from isIPv4_pieces [OF assms] obtain a b c d where p: "js_split (CHR ''.'') p = [a, b, c, d]"
    and o: "octet_text a" "octet_text b" "octet_text c" "octet_text d" by blast
  have "CHR ''.'' \<in> set p" using p js_split_no_sep [of "CHR ''.''" p] by fastforce
  moreover have "byte (js_Number x)" if "octet_text x" for x
    using that by (auto simp: byte_def js_Number_octet octet_text_def)
  ultimately show ?thesis using o by (simp add: expand_piece_def p)
qed

lemma v6_groups_bytes:
  "v6_groups ps = Some n \<Longrightarrow> length (concat (map expand_piece ps)) = 2 * n
     \<and> list_all byte (concat (map expand_piece ps))"
proof (induction ps arbitrary: n rule: v6_groups.induct)
  case 1
  then show ?case by simp
next
  case (2 p)
  then show ?case using hextet_bytes [of p] v4_bytes [of p] by (auto split: if_splits)
next
  case (3 p q qs)
  then obtain m where "hextet p" "v6_groups (q # qs) = Some m" "n = Suc m"
    by (auto split: if_splits)
  with 3 hextet_bytes [of p] show ?case by auto
qed

lemma v6_groups_hextets: "list_all hextet ps \<Longrightarrow> v6_groups ps = Some (length ps)"
  by (induction ps rule: v6_groups.induct) auto

lemma v6_part_bytes:
  "v6_part s = Some n \<Longrightarrow> length (expand s) = 2 * n \<and> list_all byte (expand s)"
  using v6_groups_bytes [of "js_split (CHR '':'') s" n] by (auto simp: v6_part_def expand_def split: if_splits)

lemma v6_groups_nonempty: "v6_groups ps = Some n \<Longrightarrow> [] \<notin> set ps"
  by (induction ps arbitrary: n rule: v6_groups.induct)
    (auto simp: hextet_def dest: isIPv4_nonempty split: if_splits)

text \<open>A text whose pieces are nonempty has no \<open>"::"\<close>.\<close>

lemma split_colons_id: "(\<And>u v. s \<noteq> u @ ''::'' @ v) \<Longrightarrow> split_colons s = (s, None)"
proof (induction s rule: split_colons.induct)
  case (1 a b s)
  have "\<not> (a = CHR '':'' \<and> b = CHR '':'')" using 1(2) [of "[]" s] by auto
  moreover have "b # s \<noteq> u @ ''::'' @ v" for u v using 1(2) [of "a # u" v] by auto
  ultimately show ?case using 1(1) by auto
qed simp_all

lemma js_split_double: "[] \<in> set (tl (js_split (CHR '':'') (u @ ''::'' @ v)))"
proof (induction u)
  case Nil
  then show ?case by simp
next
  case (Cons x u)
  then show ?case
    by (cases "js_split (CHR '':'') (u @ ''::'' @ v)") (auto split: list.splits)
qed

lemma split_colons_none: "[] \<notin> set (js_split (CHR '':'') s) \<Longrightarrow> split_colons s = (s, None)"
  by (rule split_colons_id) (metis js_split_double list.sel(2) list.set_sel(2))

lemma v6_part_split: "v6_part s = Some n \<Longrightarrow> split_colons s = (s, None)"
  by (auto simp: v6_part_def split: if_splits dest: v6_groups_nonempty intro: split_colons_none)

lemma parseIPv6Bytes_core:
  assumes "isIPv6 host" "\<not> isIPv4 host" "CHR ''%'' \<notin> set host"
    and "strip_brackets (js_trim text) = host"
  shows "\<exists>bytes. parseIPv6Bytes text = Some bytes \<and> length bytes = 16 \<and> list_all byte bytes"
proof -
  have "takeWhile (\<lambda>c. c \<noteq> CHR ''%'') host = host" using assms(3) by (auto simp: takeWhile_eq_all_conv)
  then have core: "v6_core host" using assms(1) unfolding isIPv6_def by (simp only:)
  have zero: "byte (Num 0)" by (auto simp: byte_def intro: exI [of _ 0])
  have isIP: "isIP host = 6" using assms(1,2) by (simp add: isIP_def)
  obtain h t where ht: "split_colons host = (h, t)" by (cases "split_colons host")
  show ?thesis
  proof (cases t)
    case None
    then have "v6_part h = Some 8" using core ht by (simp add: v6_core_def)
    with v6_part_bytes [of h 8] None ht assms(4) isIP show ?thesis
      by (simp add: parseIPv6Bytes_def Let_def)
  next
    case (Some r)
    with core ht obtain n where n: "v6_part r = Some n"
      and l: "h = [] \<or> list_all hextet (js_split (CHR '':'') h)"
      and le: "(if h = [] then 0 else length (js_split (CHR '':'') h)) + n \<le> 7"
      by (auto simp: v6_core_def split: option.splits)
    define m where "m = (if h = [] then 0 else length (js_split (CHR '':'') h))"
    have "v6_part h = Some m" using l v6_groups_hextets by (auto simp: v6_part_def m_def)
    with v6_part_bytes [of h m] v6_part_bytes [OF n] v6_part_split [OF n] le ht Some assms(4) isIP zero
    show ?thesis
      by (auto simp: parseIPv6Bytes_def Let_def m_def [symmetric] list_all_iff)
  qed
qed

lemma address_copies_differ:
  "agent_isPublicUnicastAddress host \<noteq> api_isPublicUnicastAddress host \<longleftrightarrow>
   (\<exists>v. isIPv4 v \<and> \<not> agent_isPublicUnicastAddress v
      \<and> (js_trim host = ''['' @ v \<or> js_trim host = ''['' @ v @ '']''))"
proof (cases "isIPv4 (strip_brackets (js_trim host))")
  case False
  have "\<not> (\<exists>v. isIPv4 v \<and> (js_trim host = ''['' @ v \<or> js_trim host = ''['' @ v @ '']''))"
  proof
    assume "\<exists>v. isIPv4 v \<and> (js_trim host = ''['' @ v \<or> js_trim host = ''['' @ v @ '']'')"
    then obtain v where v: "isIPv4 v" "js_trim host = ''['' @ v \<or> js_trim host = ''['' @ v @ '']''" by blast
    have "v \<noteq> []" "last v \<noteq> CHR '']''"
      using isIPv4_nonempty [OF v(1)] isIPv4_chars [OF v(1), of "last v"] address_char [of "last v"] by auto
    with v(2) have "strip_brackets (js_trim host) = v" by (auto simp: strip_brackets_def)
    with v(1) False show False by simp
  qed
  moreover have "isIP (strip_brackets (js_trim host)) \<noteq> 4" using False by (simp add: isIP_def)
  ultimately show ?thesis
    by (auto simp: agent_isPublicUnicastAddress_def api_isPublicUnicastAddress_def Let_def)
next
  case True
  define v where "v = strip_brackets (js_trim host)"
  have v: "isIPv4 v" using True by (simp add: v_def)
  obtain pre post where s: "js_trim host = pre @ v @ post" "pre \<in> {[], ''[''}" "post \<in> {[], '']''}"
    using strip_brackets_shape [of "js_trim host" v] v_def by blast
  let ?pub = "isPublicIPv4 (map js_Number (js_split (CHR ''.'') v))"
  have four: "isIP v = 4" using v by (simp add: isIP_def)
  have agent: "agent_isPublicUnicastAddress host = ?pub" "agent_isPublicUnicastAddress v = ?pub"
    using four isIPv4_plain [OF v]
    by (simp_all add: agent_isPublicUnicastAddress_def Let_def flip: v_def)
  have api: "api_isPublicUnicastAddress host \<longleftrightarrow> pre = ''['' \<or> ?pub"
    using four api_agent_v4 [OF v s] by (simp add: api_isPublicUnicastAddress_def Let_def flip: v_def)
  have uniq: "u = v" if u: "isIPv4 u" "js_trim host = ''['' @ u \<or> js_trim host = ''['' @ u @ '']''" for u
  proof -
    have "u \<noteq> []" "last u \<noteq> CHR '']''"
      using isIPv4_nonempty [OF u(1)] isIPv4_chars [OF u(1), of "last u"] address_char [of "last u"] by auto
    with u(2) show ?thesis by (auto simp: v_def strip_brackets_def)
  qed
  have "hd v \<noteq> CHR ''[''" "v \<noteq> []"
    using isIPv4_nonempty [OF v] isIPv4_chars [OF v, of "hd v"] address_char [of "hd v"] by auto
  then have "pre = ''['' \<longleftrightarrow> js_trim host = ''['' @ v \<or> js_trim host = ''['' @ v @ '']''"
    using s by (cases v) auto
  with agent api uniq v show ?thesis by metis
qed

text \<open>The control plane accepts a bracketed private address that the agent refuses.\<close>

lemma bracketed_private_address:
  "api_isPublicUnicastAddress ''[10.0.0.1]'' \<and> \<not> agent_isPublicUnicastAddress ''[10.0.0.1]''"
proof -
  have v: "isIPv4 ''10.0.0.1''" by code_simp
  have "octet_text ''10''" "octet_text ''0''" "octet_text ''1''" by code_simp+
  then have "\<not> agent_isPublicUnicastAddress ''10.0.0.1''"
    using isIPv4_plain [OF v] v
    by (simp add: agent_isPublicUnicastAddress_def isIP_def isPublicIPv4_def elem_at_def js_Number_octet
        dec_val_def digits_val_def digit_val_def)
  moreover have trim: "js_trim ''[10.0.0.1]'' = ''['' @ ''10.0.0.1'' @ '']''"
    by (simp add: js_trim_def is_space_def)
  ultimately have diff: "agent_isPublicUnicastAddress ''[10.0.0.1]'' \<noteq> api_isPublicUnicastAddress ''[10.0.0.1]''"
    using address_copies_differ [of "''[10.0.0.1]''"] v by blast
  moreover have "strip_brackets (js_trim ''[10.0.0.1]'') = ''10.0.0.1''"
    by (simp add: trim [simplified] strip_brackets_def)
  ultimately show ?thesis
    using \<open>\<not> agent_isPublicUnicastAddress ''10.0.0.1''\<close> v isIPv4_plain [OF v]
    by (simp add: agent_isPublicUnicastAddress_def isIP_def Let_def)
qed

section \<open>Properties\<close>

text \<open>
  C18: every text that is an IPv6 address without a zone parses to exactly sixteen bytes, so
  that the policy's tests on byte positions never read past the end or see anything that
  is not a byte.
\<close>

theorem parseIPv6Bytes_total:
  assumes "strip_brackets (js_trim text) = host" and "isIP host = 6" and "CHR ''%'' \<notin> set host"
  shows "\<exists>bytes. parseIPv6Bytes text = Some bytes \<and> length bytes = 16
    \<and> (\<forall>x \<in> set bytes. \<exists>n < 256. x = Num (of_nat n))"
proof -
  have "isIPv6 host" "\<not> isIPv4 host" using assms(2) by (auto simp: isIP_def split: if_splits)
  from parseIPv6Bytes_core [OF this assms(3,1)] show ?thesis
    by (auto simp: list_all_iff byte_def)
qed

theorem parseIPv6Bytes_total_witness:
  "\<exists>bytes. parseIPv6Bytes ''[2001:db8::1]'' = Some bytes \<and> length bytes = 16
    \<and> (\<forall>x \<in> set bytes. \<exists>n < 256. x = Num (of_nat n))"
proof (rule parseIPv6Bytes_total)
  show "strip_brackets (js_trim ''[2001:db8::1]'') = ''2001:db8::1''" by code_simp
  show "isIP ''2001:db8::1'' = 6" by code_simp
  show "CHR ''%'' \<notin> set ''2001:db8::1''" by simp
qed

text \<open>
  An IPv4 address written as an IPv4-mapped IPv6 address is judged exactly as the IPv4
  address itself, by both copies.
\<close>

theorem mapped_ipv4_same_verdict:
  assumes "isIPv4 v"
  shows "agent_isPublicUnicastAddress (''::ffff:'' @ v) = agent_isPublicUnicastAddress v
    \<and> api_isPublicUnicastAddress (''::ffff:'' @ v) = api_isPublicUnicastAddress v"
proof -
  let ?t = "''::ffff:'' @ v"
  have chars: "x \<in> set v \<Longrightarrow> \<not> is_space x \<and> x \<noteq> CHR ''['' \<and> x \<noteq> CHR '']'' \<and> x \<noteq> CHR '':'' \<and> x \<noteq> CHR ''%''" for x
    using isIPv4_chars [OF assms] address_char by blast
  have ne: "v \<noteq> []" by (rule isIPv4_nonempty [OF assms])
  have sp: "\<not> is_space (CHR '':'')" by (simp add: is_space_def)
  have trim: "js_trim ?t = ?t" using ne chars [of "last v"] sp by (intro js_trim_id) auto
  have strip: "strip_brackets ?t = ?t" using ne chars [of "last v"] by (intro strip_brackets_id) auto
  have no4: "\<not> isIPv4 ?t" using isIPv4_chars [of ?t "CHR '':''"] by (auto simp: is_digit_def)
  from isIPv4_pieces [OF assms] obtain a b c d where p: "js_split (CHR ''.'') v = [a, b, c, d]"
    and oct: "octet_text a" "octet_text b" "octet_text c" "octet_text d" by blast
  have dot: "CHR ''.'' \<in> set v" using p js_split_no_sep [of "CHR ''.''" v] by fastforce
  have split: "split_colons ?t = ([], Some (''ffff:'' @ v))" by simp
  have pieces: "js_split (CHR '':'') (''ffff:'' @ v) = [''ffff'', v]"
    using chars js_split_no_sep [of "CHR '':''" v] by auto
  have ffff: "hextet ''ffff''" by (simp add: hextet_def hex_val_def)
  have "hex_val (CHR ''.'') = None" by (simp add: hex_val_def)
  then have no_hextet: "\<not> hextet v" using dot by (auto simp: hextet_def list_all_iff)
  have part: "v6_part (''ffff:'' @ v) = Some 3"
    unfolding v6_part_def pieces using ffff no_hextet assms by simp
  have zone: "takeWhile (\<lambda>c. c \<noteq> CHR ''%'') ?t = ?t" "dropWhile (\<lambda>c. c \<noteq> CHR ''%'') ?t = []"
    using chars by (auto simp: takeWhile_eq_all_conv dropWhile_eq_Nil_conv)
  have six: "isIP ?t = 6"
    unfolding isIP_def isIPv6_def zone v6_core_def split using no4 part by simp
  have word: "parseInt_hex ''ffff'' = Num 65535"
    using to_number_nat [of 65535] by (simp add: parseInt_hex_def js_trim_def is_space_def hex_val_def)
  have "push_word ''ffff'' = [Num 255, Num 255]" by (simp add: push_word_def word to_int32_def)
  then have exp: "expand (''ffff:'' @ v) = [Num 255, Num 255, js_Number a, js_Number b, js_Number c, js_Number d]"
    unfolding expand_def pieces using dot by (simp add: expand_piece_def p)
  have bytes: "parseIPv6Bytes ?t = Some (replicate 10 (Num 0) @ [Num 255, Num 255, js_Number a, js_Number b, js_Number c, js_Number d])"
    unfolding parseIPv6Bytes_def Let_def trim strip split
    using six v6_part_split [OF part] exp by (simp add: expand_def numeral_eq_Suc)
  have v6: "isPublicIPv6 (replicate 10 (Num 0) @ [Num 255, Num 255, js_Number a, js_Number b, js_Number c, js_Number d])
      = isPublicIPv4 [js_Number a, js_Number b, js_Number c, js_Number d]"
    by (simp add: isPublicIPv6_def Let_def elem_at_def nth_append list_all_iff)
  have four: "isIP v = 4" using assms by (simp add: isIP_def)
  note plain = isIPv4_plain [OF assms]
  have "agent_isPublicUnicastAddress ?t = agent_isPublicUnicastAddress v"
    by (simp add: agent_isPublicUnicastAddress_def Let_def trim strip six bytes v6 plain four p
        del: js_split.simps append_Cons append_Nil)
  moreover have "api_isPublicUnicastAddress ?t = api_isPublicUnicastAddress v"
    by (simp add: api_isPublicUnicastAddress_def Let_def trim strip six bytes v6 plain four p
        del: js_split.simps append_Cons append_Nil)
  ultimately show ?thesis by (rule conjI)
qed

theorem mapped_ipv4_same_verdict_witness:
  "agent_isPublicUnicastAddress ''::ffff:192.168.1.1'' = agent_isPublicUnicastAddress ''192.168.1.1''"
proof -
  have "isIPv4 ''192.168.1.1''" by code_simp
  from mapped_ipv4_same_verdict [OF this] show ?thesis by simp
qed


end
