(* ===== verification/InboundSpec.thy ===== *)
theory InboundSpec
  imports AgentTypes NetAddress
begin

text \<open>
  The inbound a node deploys: the control plane normalises an operator's payload and stores
  it on the command (\<open>apps/api/src/modules/agent/agent-inbound.ts\<close>), the agent validates it
  again before its helper sees it and validates the helper's answer
  (\<open>apps/node-agent/src/xray-inbound.ts\<close>), and the control plane compares the agent's report
  with what it ordered, field by field.  An error carries the name of the field.
\<close>

section \<open>Data\<close>

datatype api_error =
    BadRequest string
  | ConflictError string
  | NotFound string
  | Forbidden string
  | Unauthorized string
  | DbError string string
  | RangeError

text \<open>\<open>InboundSpec\<close> of the agent and \<open>NormalizedInboundSpec\<close> of the control plane.\<close>

record InboundSpec =
  is_inboundTag :: string
  is_listenPort :: int
  is_dest :: string
  is_serverNames :: "string list"
  is_flow :: flow
  is_fingerprint :: string
  is_spiderX :: string
  is_rotateKeys :: bool

definition flow_text :: "flow \<Rightarrow> string" where
  "flow_text f = (case f of Xtls_rprx_vision \<Rightarrow> ''xtls-rprx-vision'' | No_flow \<Rightarrow> [])"

definition text_flow :: "string \<Rightarrow> flow option" where
  "text_flow s = (if s = [] then Some No_flow
     else if s = ''xtls-rprx-vision'' then Some Xtls_rprx_vision else None)"

section \<open>Checks both sides make\<close>

definition label_ok :: "string \<Rightarrow> bool" where
  "label_ok l \<longleftrightarrow> l \<noteq> [] \<and> length l \<le> 63 \<and> is_alnum (hd l) \<and> is_alnum (last l)
     \<and> list_all (\<lambda>c. is_alnum c \<or> c = CHR ''-'') l"

text \<open>\<open>hostname\<close>: nonempty, at most 253 characters, labels of the pattern \<open>HOSTNAME\<close>.\<close>

definition hostname :: "string \<Rightarrow> bool" where
  "hostname val \<longleftrightarrow> val \<noteq> [] \<and> length val \<le> 253 \<and> list_all label_ok (js_split (CHR ''.'') val)"

definition port_ok :: "js_number \<Rightarrow> bool" where
  "port_ok x = (case x of Num q \<Rightarrow> is_integer q \<and> 1 \<le> q \<and> q \<le> 65535 | _ \<Rightarrow> False)"

definition json_number :: "json option \<Rightarrow> js_number" where
  "json_number v = (case v of Some (JNum q) \<Rightarrow> Num q | _ \<Rightarrow> NaN)"

definition number_int :: "js_number \<Rightarrow> int" where
  "number_int x = (case x of Num q \<Rightarrow> floor q | _ \<Rightarrow> 0)"

text \<open>\<open>spiderX\<close> starts with a slash, is short and has no blank, quote or backslash.\<close>

definition spider_ok :: "string \<Rightarrow> bool" where
  "spider_ok s \<longleftrightarrow> s \<noteq> [] \<and> hd s = CHR ''/'' \<and> length s \<le> 64
     \<and> list_all (\<lambda>c. \<not> is_space c \<and> c \<noteq> CHR 0x22 \<and> c \<noteq> CHR 0x27 \<and> c \<noteq> CHR 0x5C) s"

definition tag_ok :: "string \<Rightarrow> bool" where
  "tag_ok s \<longleftrightarrow> s \<noteq> [] \<and> length s \<le> 32
     \<and> list_all (\<lambda>c. is_alnum c \<or> c = CHR ''_'' \<or> c = CHR ''-'') s"

text \<open>\<open>/^[A-Za-z0-9_-]{43}$/\<close> and \<open>/^(?:[0-9a-f]{2}){1,8}$/\<close>.\<close>

definition public_key_ok :: "string \<Rightarrow> bool" where
  "public_key_ok s \<longleftrightarrow> length s = 43 \<and> list_all (\<lambda>c. is_alnum c \<or> c = CHR ''_'' \<or> c = CHR ''-'') s"

definition lower_hex :: "char \<Rightarrow> bool" where
  "lower_hex c \<longleftrightarrow> is_digit c \<or> (97 \<le> (of_char c :: nat) \<and> (of_char c :: nat) \<le> 102)"

definition short_id_ok :: "string \<Rightarrow> bool" where
  "short_id_ok s \<longleftrightarrow> even (length s) \<and> 2 \<le> length s \<and> length s \<le> 16 \<and> list_all lower_hex s"

text \<open>The part of a \<open>dest\<close> before and after its last colon, when the colon is not first.\<close>

definition split_dest :: "string \<Rightarrow> (string \<times> string) option" where
  "split_dest d = (case lastIndexOf (CHR '':'') d of
     None \<Rightarrow> None | Some i \<Rightarrow> if i = 0 then None else Some (take i d, drop (Suc i) d))"

definition name_of_json :: "json \<Rightarrow> string" where
  "name_of_json j = (case j of JStr s \<Rightarrow> js_trim s | _ \<Rightarrow> [])"

section \<open>The control plane's normalisation\<close>

definition api_text :: "json_object \<Rightarrow> string \<Rightarrow> string \<Rightarrow> (api_error, string) result" where
  "api_text payload key fallback = (case map_of payload key of
       None \<Rightarrow> Inr fallback
     | Some JNull \<Rightarrow> Inr fallback
     | Some (JStr s) \<Rightarrow> Inr (js_trim s)
     | Some _ \<Rightarrow> Inl (BadRequest key))"

definition api_port :: "json option \<Rightarrow> string \<Rightarrow> int \<Rightarrow> (api_error, int) result" where
  "api_port v label fallback =
     (if v = None \<or> v = Some JNull then Inr fallback
      else if port_ok (json_number v) then Inr (number_int (json_number v))
      else Inl (BadRequest label))"

definition supported_fingerprints :: "string list" where
  "supported_fingerprints = [''chrome'', ''firefox'', ''safari'', ''ios'', ''android'', ''edge'', ''360'',
     ''qq'', ''random'', ''randomized'']"

definition api_raw_names :: "json option \<Rightarrow> (api_error, json list) result" where
  "api_raw_names v = (case v of
       None \<Rightarrow> Inr [JStr ''www.microsoft.com'']
     | Some JNull \<Rightarrow> Inr [JStr ''www.microsoft.com'']
     | Some (JArr js) \<Rightarrow>
         if length js < 1 \<or> length js > 8 then Inl (BadRequest ''serverNames'') else Inr js
     | Some _ \<Rightarrow> Inl (BadRequest ''serverNames''))"

definition api_rotate :: "json option \<Rightarrow> (api_error, bool) result" where
  "api_rotate v = (case v of
       None \<Rightarrow> Inr False
     | Some (JBool b) \<Rightarrow> Inr b
     | Some _ \<Rightarrow> Inl (BadRequest ''rotateKeys''))"

definition normalizeInboundSpec :: "json_object \<Rightarrow> (api_error, InboundSpec) result" where
  "normalizeInboundSpec payload =
     rbind (api_text payload ''inboundTag'' ''vless-in'') (\<lambda>inboundTag.
     rbind (require (tag_ok inboundTag) (BadRequest ''inboundTag'')) (\<lambda>_.
     rbind (api_text payload ''dest'' ''www.microsoft.com:443'') (\<lambda>dest.
     rbind (require_some (split_dest dest) (BadRequest ''dest'')) (\<lambda>(destHost, destPort).
     rbind (require (hostname destHost) (BadRequest ''dest'')) (\<lambda>_.
     rbind (require (port_ok (js_Number destPort)) (BadRequest ''dest port'')) (\<lambda>_.
     rbind (require (\<not> (toLowerCase destHost = ''localhost''
              \<or> (isIP destHost \<noteq> 0 \<and> \<not> api_isPublicUnicastAddress destHost)))
            (BadRequest ''dest'')) (\<lambda>_.
     rbind (api_raw_names (map_of payload ''serverNames'')) (\<lambda>rawNames.
     rbind (mapR (\<lambda>name. rbind (require (hostname (name_of_json name)) (BadRequest ''serverNames''))
              (\<lambda>_. Inr (name_of_json name))) rawNames) (\<lambda>serverNames.
     rbind (api_text payload ''flow'' ''xtls-rprx-vision'') (\<lambda>flow.
     rbind (require_some (text_flow flow) (BadRequest ''flow'')) (\<lambda>flow.
     rbind (api_text payload ''fingerprint'' ''chrome'') (\<lambda>fingerprint.
     rbind (require (fingerprint \<in> set supported_fingerprints) (BadRequest ''fingerprint'')) (\<lambda>_.
     rbind (api_text payload ''spiderX'' ''/'') (\<lambda>spiderX.
     rbind (require (spider_ok spiderX) (BadRequest ''spiderX'')) (\<lambda>_.
     rbind (api_rotate (map_of payload ''rotateKeys'')) (\<lambda>rotateKeys.
     rbind (api_port (map_of payload ''listenPort'') ''listenPort'' 443) (\<lambda>listenPort.
     Inr \<lparr>is_inboundTag = inboundTag, is_listenPort = listenPort, is_dest = dest,
          is_serverNames = serverNames, is_flow = flow, is_fingerprint = fingerprint,
          is_spiderX = spiderX, is_rotateKeys = rotateKeys\<rparr>)))))))))))))))))"

text \<open>The JSON of a normalised specification, in the order the object literal has.\<close>

definition spec_json :: "InboundSpec \<Rightarrow> json_object" where
  "spec_json s = [(''inboundTag'', JStr (is_inboundTag s)), (''listenPort'', JNum (of_int (is_listenPort s))),
     (''dest'', JStr (is_dest s)), (''serverNames'', JArr (map JStr (is_serverNames s))),
     (''flow'', JStr (flow_text (is_flow s))), (''fingerprint'', JStr (is_fingerprint s)),
     (''spiderX'', JStr (is_spiderX s)), (''rotateKeys'', JBool (is_rotateKeys s))]"

text \<open>\<open>sha256hex\<close> stands for the digest of the JSON text, in hexadecimal.\<close>

definition inboundSpecKey :: "(json \<Rightarrow> string) \<Rightarrow> string \<Rightarrow> InboundSpec \<Rightarrow> string" where
  "inboundSpecKey sha256hex nodeId spec = nodeId @ '':ENSURE_INBOUND:''
     @ take 32 (sha256hex (JObj (spec_json (spec\<lparr>is_serverNames := sort (is_serverNames spec)\<rparr>))))"

section \<open>The agent's validation\<close>

definition agent_text :: "json_object \<Rightarrow> string \<Rightarrow> (agent_error, string) result" where
  "agent_text payload key = (case map_of payload key of
     Some (JStr s) \<Rightarrow> Inr (js_trim s) | _ \<Rightarrow> Inl (BadInboundSpec key))"

definition fingerprint_text :: "string \<Rightarrow> bool" where
  "fingerprint_text s \<longleftrightarrow> s \<noteq> [] \<and> length s \<le> 16 \<and> list_all (\<lambda>c. is_lower c \<or> is_digit c) s"

definition agent_raw_names :: "json option \<Rightarrow> (agent_error, json list) result" where
  "agent_raw_names v = (case v of
       Some (JArr js) \<Rightarrow>
         if length js < 1 \<or> length js > 8 then Inl (BadInboundSpec ''serverNames'') else Inr js
     | _ \<Rightarrow> Inl (BadInboundSpec ''serverNames''))"

definition parseInboundSpec :: "json_object \<Rightarrow> string \<Rightarrow> (agent_error, InboundSpec) result" where
  "parseInboundSpec payload expectedTag =
     rbind (agent_text payload ''inboundTag'') (\<lambda>inboundTag.
     rbind (require (inboundTag = expectedTag) (BadInboundSpec ''inboundTag'')) (\<lambda>_.
     rbind (agent_text payload ''dest'') (\<lambda>destination.
     rbind (require_some (split_dest destination) (BadInboundSpec ''dest'')) (\<lambda>(host, port).
     rbind (require (hostname host) (BadInboundSpec ''dest'')) (\<lambda>_.
     rbind (require (port_ok (js_Number port)) (BadInboundSpec ''dest port'')) (\<lambda>_.
     rbind (agent_raw_names (map_of payload ''serverNames'')) (\<lambda>rawNames.
     rbind (mapR (\<lambda>name. rbind (require (hostname (name_of_json name)) (BadInboundSpec ''serverNames''))
              (\<lambda>_. Inr (name_of_json name))) rawNames) (\<lambda>serverNames.
     rbind (agent_text payload ''flow'') (\<lambda>flow.
     rbind (require_some (text_flow flow) (BadInboundSpec ''flow'')) (\<lambda>flow.
     rbind (agent_text payload ''fingerprint'') (\<lambda>fingerprint.
     rbind (require (fingerprint_text fingerprint) (BadInboundSpec ''fingerprint'')) (\<lambda>_.
     rbind (agent_text payload ''spiderX'') (\<lambda>spiderX.
     rbind (require (spider_ok spiderX) (BadInboundSpec ''spiderX'')) (\<lambda>_.
     rbind (require (port_ok (json_number (map_of payload ''listenPort''))) (BadInboundSpec ''listenPort'')) (\<lambda>_.
     Inr \<lparr>is_inboundTag = inboundTag,
          is_listenPort = number_int (json_number (map_of payload ''listenPort'')),
          is_dest = destination, is_serverNames = serverNames, is_flow = flow,
          is_fingerprint = fingerprint, is_spiderX = spiderX,
          is_rotateKeys = (map_of payload ''rotateKeys'' = Some (JBool True))\<rparr>)))))))))))))))"

definition inboundSpecHash :: "(json \<Rightarrow> string) \<Rightarrow> InboundSpec \<Rightarrow> string" where
  "inboundSpecHash sha256hex spec = sha256hex (JObj
     [(''inboundTag'', JStr (is_inboundTag spec)), (''listenPort'', JNum (of_int (is_listenPort spec))),
      (''dest'', JStr (is_dest spec)), (''serverNames'', JArr (map JStr (sort (is_serverNames spec)))),
      (''flow'', JStr (flow_text (is_flow spec))), (''fingerprint'', JStr (is_fingerprint spec)),
      (''spiderX'', JStr (is_spiderX spec))])"

section \<open>The helper's answer\<close>

record HelperResult =
  hr_requestId :: string
  hr_ok :: bool
  hr_changed :: bool
  hr_restarted :: bool
  hr_realityPublicKey :: string
  hr_shortId :: string
  hr_serverName :: string
  hr_listen :: string
  hr_deployed :: bool
  hr_listenPort :: rat
  hr_xrayVersion :: string

definition str_or :: "json_object \<Rightarrow> string \<Rightarrow> string \<Rightarrow> string" where
  "str_or value key d = (case map_of value key of Some (JStr s) \<Rightarrow> s | _ \<Rightarrow> d)"

definition is_true :: "json_object \<Rightarrow> string \<Rightarrow> bool" where
  "is_true value key \<longleftrightarrow> map_of value key = Some (JBool True)"

datatype helper_mode = Ensure | Reset

text \<open>The result file as parsed JSON (\<open>None\<close>: not JSON); \<open>Inr None\<close> is an answer to another
  request.\<close>

definition parseHelperResult ::
  "json option \<Rightarrow> string \<Rightarrow> helper_mode \<Rightarrow> (agent_error, HelperResult option) result" where
  "parseHelperResult raw requestId mode = (case raw of
       Some (JObj value) \<Rightarrow>
         if map_of value ''requestId'' \<noteq> Some (JStr requestId) then Inr None
         else if map_of value ''ok'' \<noteq> Some (JBool True)
         then Inl (HelperFailed (str_or value ''stage'' ''unknown'') (str_or value ''error'' []))
         else
           let base = \<lparr>hr_requestId = requestId, hr_ok = True, hr_changed = is_true value ''changed'',
                 hr_restarted = is_true value ''restarted'', hr_realityPublicKey = [], hr_shortId = [],
                 hr_serverName = [], hr_listen = str_or value ''listen'' [],
                 hr_deployed = is_true value ''deployed'',
                 hr_listenPort = (case map_of value ''listenPort'' of Some (JNum q) \<Rightarrow> q | _ \<Rightarrow> 0),
                 hr_xrayVersion = str_or value ''xrayVersion'' []\<rparr>;
               publicKey = str_or value ''realityPublicKey'' [];
               shortId = str_or value ''shortId'' [];
               serverName = str_or value ''serverName'' []
           in if mode = Reset then Inr (Some base)
              else if \<not> public_key_ok publicKey then Inl (BadHelperResult ''realityPublicKey'')
              else if \<not> short_id_ok shortId then Inl (BadHelperResult ''shortId'')
              else if serverName = [] then Inl (BadHelperResult ''serverName'')
              else if \<not> isInteger (json_number (map_of value ''listenPort''))
              then Inl (BadHelperResult ''listenPort'')
              else if hr_listen base \<noteq> ''::'' \<and> hr_listen base \<noteq> ''0.0.0.0''
              then Inl (BadHelperResult ''listen'')
              else Inr (Some (base\<lparr>hr_realityPublicKey := publicKey, hr_shortId := shortId,
                     hr_serverName := serverName\<rparr>))
     | None \<Rightarrow> Inl (BadHelperResult ''json'')
     | Some _ \<Rightarrow> Inl (BadHelperResult ''object''))"

section \<open>The agent's report\<close>

record InboundReport =
  rep_requestId :: string
  rep_inboundTag :: string
  rep_serverHost :: string
  rep_serverPort :: int
  rep_realityPublicKey :: string
  rep_shortId :: string
  rep_serverName :: string
  rep_flow :: flow
  rep_fingerprint :: string
  rep_spiderX :: string
  rep_listen :: string
  rep_xrayVersion :: string
  rep_changed :: bool
  rep_liveVerifiedAt :: string

definition report_json :: "InboundReport \<Rightarrow> json_object" where
  "report_json r = [(''requestId'', JStr (rep_requestId r)), (''inboundTag'', JStr (rep_inboundTag r)),
     (''serverHost'', JStr (rep_serverHost r)), (''serverPort'', JNum (of_int (rep_serverPort r))),
     (''realityPublicKey'', JStr (rep_realityPublicKey r)), (''shortId'', JStr (rep_shortId r)),
     (''serverName'', JStr (rep_serverName r)), (''flow'', JStr (flow_text (rep_flow r))),
     (''fingerprint'', JStr (rep_fingerprint r)), (''spiderX'', JStr (rep_spiderX r)),
     (''listen'', JStr (rep_listen r)), (''xrayVersion'', JStr (rep_xrayVersion r)),
     (''changed'', JBool (rep_changed r)), (''liveVerifiedAt'', JStr (rep_liveVerifiedAt r))]"

record InboundReportFields =
  irf_serverHost :: string
  irf_serverPort :: int
  irf_realityPublicKey :: string
  irf_shortId :: string
  irf_serverName :: string
  irf_flow :: flow
  irf_fingerprint :: string
  irf_spiderX :: string

definition trimmed :: "json_object \<Rightarrow> string \<Rightarrow> string" where
  "trimmed report key = (case map_of report key of Some (JStr s) \<Rightarrow> js_trim s | _ \<Rightarrow> [])"

definition parseInboundReport :: "json \<Rightarrow> InboundSpec \<Rightarrow> (api_error, InboundReportFields) result" where
  "parseInboundReport result spec = (case result of
       JObj ms \<Rightarrow> (case map_of ms ''inbound'' of
           Some (JObj report) \<Rightarrow>
             let serverHost = trimmed report ''serverHost'';
                 realityPublicKey = trimmed report ''realityPublicKey'';
                 shortId = trimmed report ''shortId'';
                 serverName = trimmed report ''serverName''
             in if \<not> api_isPublicUnicastAddress serverHost then Inl (BadRequest ''serverHost'')
                else if map_of report ''serverPort'' \<noteq> Some (JNum (of_int (is_listenPort spec)))
                then Inl (BadRequest ''serverPort'')
                else if \<not> public_key_ok realityPublicKey then Inl (BadRequest ''realityPublicKey'')
                else if \<not> short_id_ok shortId then Inl (BadRequest ''shortId'')
                else if serverName \<notin> set (is_serverNames spec) then Inl (BadRequest ''serverName'')
                else if map_of report ''inboundTag'' \<noteq> Some (JStr (is_inboundTag spec))
                then Inl (BadRequest ''inboundTag'')
                else if map_of report ''flow'' \<noteq> Some (JStr (flow_text (is_flow spec)))
                then Inl (BadRequest ''flow'')
                else if map_of report ''fingerprint'' \<noteq> Some (JStr (is_fingerprint spec))
                then Inl (BadRequest ''fingerprint'')
                else if map_of report ''spiderX'' \<noteq> Some (JStr (is_spiderX spec))
                then Inl (BadRequest ''spiderX'')
                else Inr \<lparr>irf_serverHost = serverHost, irf_serverPort = is_listenPort spec,
                  irf_realityPublicKey = realityPublicKey, irf_shortId = shortId,
                  irf_serverName = serverName, irf_flow = is_flow spec,
                  irf_fingerprint = is_fingerprint spec, irf_spiderX = is_spiderX spec\<rparr>
         | _ \<Rightarrow> Inl (BadRequest ''inbound''))
     | _ \<Rightarrow> Inl (BadRequest ''result''))"

section \<open>What normalisation guarantees\<close>

definition dest_ok :: "string \<Rightarrow> bool" where
  "dest_ok d = (case split_dest d of None \<Rightarrow> False
     | Some (host, port) \<Rightarrow> hostname host \<and> port_ok (js_Number port)
         \<and> \<not> (toLowerCase host = ''localhost'' \<or> (isIP host \<noteq> 0 \<and> \<not> api_isPublicUnicastAddress host)))"

definition names_ok :: "string list \<Rightarrow> bool" where
  "names_ok ns \<longleftrightarrow> ns \<noteq> [] \<and> length ns \<le> 8 \<and> list_all (\<lambda>n. hostname n \<and> js_trim n = n) ns"

definition spec_wf :: "InboundSpec \<Rightarrow> bool" where
  "spec_wf s \<longleftrightarrow> tag_ok (is_inboundTag s) \<and> js_trim (is_inboundTag s) = is_inboundTag s
     \<and> dest_ok (is_dest s) \<and> js_trim (is_dest s) = is_dest s \<and> names_ok (is_serverNames s)
     \<and> is_fingerprint s \<in> set supported_fingerprints
     \<and> spider_ok (is_spiderX s) \<and> js_trim (is_spiderX s) = is_spiderX s
     \<and> 1 \<le> is_listenPort s \<and> is_listenPort s \<le> 65535"

lemma js_trim_idem [simp]: "js_trim (js_trim s) = js_trim s"
proof -
  define d where "d = dropWhile is_space s"
  define e where "e = rev (dropWhile is_space (rev d))"
  have t: "js_trim s = e" by (simp add: js_trim_def d_def e_def)
  show ?thesis
  proof (cases "e = []")
    case True
    then show ?thesis unfolding t by (simp add: js_trim_def)
  next
    case False
    have last: "\<not> is_space (last e)"
      using False hd_dropWhile [of is_space "rev d"] by (simp add: e_def last_rev)
    have "\<exists>w. d = e @ w"
      unfolding e_def by (metis rev_append rev_rev_ident takeWhile_dropWhile_id)
    then have "hd e = hd d" "d \<noteq> []" using False by auto
    then have "\<not> is_space (hd e)" using hd_dropWhile [of is_space s] by (simp add: d_def)
    with last False show ?thesis unfolding t by (simp add: js_trim_def dropWhile_id hd_rev)
  qed
qed

lemma api_text_trimmed:
  "api_text payload key d = Inr s \<Longrightarrow> js_trim d = d \<Longrightarrow> js_trim s = s"
  by (auto simp: api_text_def split: option.splits json.splits)

lemma text_flow_text [simp]: "text_flow (flow_text f) = Some f"
  by (cases f) (simp_all add: text_flow_def flow_text_def)

lemma port_ok_int [simp]: "port_ok (Num (of_int i)) \<longleftrightarrow> 1 \<le> i \<and> i \<le> 65535"
  by (simp add: port_ok_def)

lemma port_ok_number: "port_ok x \<Longrightarrow> 1 \<le> number_int x \<and> number_int x \<le> 65535"
  by (cases x) (auto simp: port_ok_def number_int_def is_integer_def le_floor_iff floor_le_iff)

lemma names_mapR:
  assumes "mapR (\<lambda>name. rbind (require (hostname (name_of_json name)) e) (\<lambda>_. Inr (name_of_json name))) js = Inr ns"
  shows "length ns = length js" and "list_all (\<lambda>n. hostname n \<and> js_trim n = n) ns"
proof -
  show "length ns = length js" using assms by (rule mapR_length)
  have "hostname n \<and> js_trim n = n" if "n \<in> set ns" for n
  proof -
    from mapR_set [OF assms that] obtain j where "hostname (name_of_json j)" "n = name_of_json j"
      by (auto simp: result_simps)
    moreover have "js_trim (name_of_json j) = name_of_json j"
      by (cases j) (simp_all add: name_of_json_def, simp_all add: js_trim_def)
    ultimately show ?thesis by simp
  qed
  then show "list_all (\<lambda>n. hostname n \<and> js_trim n = n) ns" by (simp add: list_all_iff)
qed

lemma names_mapR_id:
  "list_all (\<lambda>n. hostname n \<and> js_trim n = n) ns \<Longrightarrow>
   mapR (\<lambda>name. rbind (require (hostname (name_of_json name)) e) (\<lambda>_. Inr (name_of_json name))) (map JStr ns) = Inr ns"
  by (induction ns) (auto simp: name_of_json_def require_def)

lemma spec_json_get [simp]:
  "map_of (spec_json s) ''inboundTag'' = Some (JStr (is_inboundTag s))"
  "map_of (spec_json s) ''listenPort'' = Some (JNum (of_int (is_listenPort s)))"
  "map_of (spec_json s) ''dest'' = Some (JStr (is_dest s))"
  "map_of (spec_json s) ''serverNames'' = Some (JArr (map JStr (is_serverNames s)))"
  "map_of (spec_json s) ''flow'' = Some (JStr (flow_text (is_flow s)))"
  "map_of (spec_json s) ''fingerprint'' = Some (JStr (is_fingerprint s))"
  "map_of (spec_json s) ''spiderX'' = Some (JStr (is_spiderX s))"
  "map_of (spec_json s) ''rotateKeys'' = Some (JBool (is_rotateKeys s))"
  by (simp_all add: spec_json_def)

lemma js_trim_flow [simp]: "js_trim (flow_text f) = flow_text f"
  by (cases f) (simp_all add: flow_text_def js_trim_def is_space_def)

lemma fingerprint_supported:
  "f \<in> set supported_fingerprints \<Longrightarrow> js_trim f = f \<and> fingerprint_text f"
  by (auto simp: supported_fingerprints_def js_trim_def is_space_def fingerprint_text_def is_lower_def)

lemma normalize_wf:
  assumes "normalizeInboundSpec payload = Inr spec"
  shows "spec_wf spec"
proof -
  have trims: "js_trim ''vless-in'' = ''vless-in''" "js_trim ''www.microsoft.com:443'' = ''www.microsoft.com:443''"
    "js_trim ''/'' = ''/''"
    by (simp_all add: js_trim_def is_space_def)
  from assms obtain tag dest host port raw names fp sp lp
    where "api_text payload ''inboundTag'' ''vless-in'' = Inr tag" "tag_ok tag"
      and "api_text payload ''dest'' ''www.microsoft.com:443'' = Inr dest"
      and "split_dest dest = Some (host, port)" "hostname host" "port_ok (js_Number port)"
      and "\<not> (toLowerCase host = ''localhost'' \<or> (isIP host \<noteq> 0 \<and> \<not> api_isPublicUnicastAddress host))"
      and raw: "api_raw_names (map_of payload ''serverNames'') = Inr raw"
      and names: "mapR (\<lambda>name. rbind (require (hostname (name_of_json name)) (BadRequest ''serverNames''))
          (\<lambda>_. Inr (name_of_json name))) raw = Inr names"
      and "fp \<in> set supported_fingerprints"
      and "api_text payload ''spiderX'' ''/'' = Inr sp" "spider_ok sp"
      and lp: "api_port (map_of payload ''listenPort'') ''listenPort'' 443 = Inr lp"
      and "is_inboundTag spec = tag" "is_dest spec = dest" "is_serverNames spec = names"
        "is_fingerprint spec = fp" "is_spiderX spec = sp" "is_listenPort spec = lp"
    unfolding normalizeInboundSpec_def
    by (auto simp: result_simps)
  moreover from lp have "1 \<le> lp \<and> lp \<le> 65535"
    using port_ok_number by (auto simp: api_port_def split: if_splits)
  moreover have "names_ok names"
    using names_mapR [OF names] raw length_0_conv [of names]
    by (auto simp: names_ok_def api_raw_names_def split: option.splits json.splits if_splits)
  ultimately show ?thesis
    using trims api_text_trimmed by (auto simp: spec_wf_def dest_ok_def)
qed

text \<open>The agent accepts a well-formed specification as it was stored, and normalising it
  again changes nothing.\<close>

lemma parse_spec_json:
  assumes "spec_wf spec"
  shows "parseInboundSpec (spec_json spec) (is_inboundTag spec) = Inr spec"
proof -
  obtain host port where "split_dest (is_dest spec) = Some (host, port)" "hostname host" "port_ok (js_Number port)"
    using assms by (auto simp: spec_wf_def dest_ok_def split: option.splits)
  moreover have "agent_raw_names (Some (JArr (map JStr (is_serverNames spec)))) = Inr (map JStr (is_serverNames spec))"
    using assms by (simp add: agent_raw_names_def spec_wf_def names_ok_def)
  moreover have "list_all (\<lambda>n. hostname n \<and> js_trim n = n) (is_serverNames spec)"
    using assms by (simp add: spec_wf_def names_ok_def)
  ultimately show ?thesis
    using assms fingerprint_supported [of "is_fingerprint spec"]
    by (simp add: parseInboundSpec_def agent_text_def spec_wf_def names_mapR_id json_number_def
        number_int_def)
qed

lemma normalize_spec_json:
  assumes "spec_wf spec"
  shows "normalizeInboundSpec (spec_json spec) = Inr spec"
proof -
  obtain host port where "split_dest (is_dest spec) = Some (host, port)" "hostname host" "port_ok (js_Number port)"
    "\<not> (toLowerCase host = ''localhost'' \<or> (isIP host \<noteq> 0 \<and> \<not> api_isPublicUnicastAddress host))"
    using assms by (auto simp: spec_wf_def dest_ok_def split: option.splits)
  moreover have "api_raw_names (Some (JArr (map JStr (is_serverNames spec)))) = Inr (map JStr (is_serverNames spec))"
    using assms by (simp add: api_raw_names_def spec_wf_def names_ok_def)
  moreover have "list_all (\<lambda>n. hostname n \<and> js_trim n = n) (is_serverNames spec)"
    using assms by (simp add: spec_wf_def names_ok_def)
  ultimately show ?thesis
    using assms fingerprint_supported [of "is_fingerprint spec"]
    by (simp add: normalizeInboundSpec_def api_text_def spec_wf_def names_mapR_id json_number_def
        number_int_def api_port_def api_rotate_def)
qed

section \<open>What the control plane accepts of a report\<close>

lemma alnum_not_space: "is_alnum c \<Longrightarrow> \<not> is_space c"
  by (auto simp: is_alnum_def is_digit_def is_upper_def is_lower_def is_space_def Let_def)

lemma js_trim_no_space: "list_all (\<lambda>c. \<not> is_space c) s \<Longrightarrow> js_trim s = s"
proof (cases "s = []")
  case True
  then show ?thesis by (simp add: js_trim_def)
next
  case False
  moreover assume "list_all (\<lambda>c. \<not> is_space c) s"
  ultimately show ?thesis by (intro js_trim_id) (auto simp: list_all_iff)
qed

lemma key_char_not_space: "is_alnum c \<or> c = CHR ''_'' \<or> c = CHR ''-'' \<or> lower_hex c \<Longrightarrow> \<not> is_space c"
  by (auto dest: alnum_not_space simp: lower_hex_def is_digit_def is_space_def)

lemma public_key_trim: "public_key_ok k \<Longrightarrow> js_trim k = k"
  by (rule js_trim_no_space) (use key_char_not_space in \<open>auto simp: public_key_ok_def list_all_iff\<close>)

lemma short_id_trim: "short_id_ok k \<Longrightarrow> js_trim k = k"
  by (rule js_trim_no_space) (use key_char_not_space in \<open>auto simp: short_id_ok_def list_all_iff\<close>)

lemma agent_public_trim: "agent_isPublicUnicastAddress (js_trim h) = agent_isPublicUnicastAddress h"
  by (simp add: agent_isPublicUnicastAddress_def parseIPv6Bytes_def)

text \<open>Whatever the agent's copy of the address policy lets through, the control plane's copy
  lets through too.\<close>

lemma agent_public_api_public: "agent_isPublicUnicastAddress h \<Longrightarrow> api_isPublicUnicastAddress h"
proof (rule ccontr)
  assume h: "agent_isPublicUnicastAddress h" "\<not> api_isPublicUnicastAddress h"
  then obtain v where v: "isIPv4 v" "\<not> agent_isPublicUnicastAddress v"
    "js_trim h = ''['' @ v \<or> js_trim h = ''['' @ v @ '']''"
    using address_copies_differ [of h] by auto
  have "v \<noteq> []" "last v \<noteq> CHR '']''"
    using isIPv4_nonempty [OF v(1)] isIPv4_chars [OF v(1), of "last v"] address_char [of "last v"] by auto
  with v(3) have "strip_brackets (js_trim h) = v" by (auto simp: strip_brackets_def)
  with v h(1) isIPv4_plain [OF v(1)] show False
    by (simp add: agent_isPublicUnicastAddress_def isIP_def Let_def)
qed

definition report_matches :: "InboundReport \<Rightarrow> InboundSpec \<Rightarrow> bool" where
  "report_matches r s \<longleftrightarrow> rep_inboundTag r = is_inboundTag s \<and> rep_serverPort r = is_listenPort s
     \<and> rep_flow r = is_flow s \<and> rep_fingerprint r = is_fingerprint s \<and> rep_spiderX r = is_spiderX s
     \<and> rep_serverName r \<in> set (is_serverNames s) \<and> agent_isPublicUnicastAddress (rep_serverHost r)
     \<and> public_key_ok (rep_realityPublicKey r) \<and> short_id_ok (rep_shortId r)"

lemma report_json_get [simp]:
  "map_of (report_json r) ''inboundTag'' = Some (JStr (rep_inboundTag r))"
  "map_of (report_json r) ''serverHost'' = Some (JStr (rep_serverHost r))"
  "map_of (report_json r) ''serverPort'' = Some (JNum (of_int (rep_serverPort r)))"
  "map_of (report_json r) ''realityPublicKey'' = Some (JStr (rep_realityPublicKey r))"
  "map_of (report_json r) ''shortId'' = Some (JStr (rep_shortId r))"
  "map_of (report_json r) ''serverName'' = Some (JStr (rep_serverName r))"
  "map_of (report_json r) ''flow'' = Some (JStr (flow_text (rep_flow r)))"
  "map_of (report_json r) ''fingerprint'' = Some (JStr (rep_fingerprint r))"
  "map_of (report_json r) ''spiderX'' = Some (JStr (rep_spiderX r))"
  by (simp_all add: report_json_def)

lemma report_accepted:
  assumes "spec_wf s" and "report_matches r s" and "map_of ms ''inbound'' = Some (JObj (report_json r))"
  shows "parseInboundReport (JObj ms) s = Inr \<lparr>irf_serverHost = js_trim (rep_serverHost r),
    irf_serverPort = is_listenPort s, irf_realityPublicKey = rep_realityPublicKey r,
    irf_shortId = rep_shortId r, irf_serverName = rep_serverName r, irf_flow = is_flow s,
    irf_fingerprint = is_fingerprint s, irf_spiderX = is_spiderX s\<rparr>"
proof -
  have "api_isPublicUnicastAddress (js_trim (rep_serverHost r))"
    using assms(2) agent_public_api_public [of "js_trim (rep_serverHost r)"]
    by (simp add: report_matches_def agent_public_trim)
  moreover have "js_trim (rep_serverName r) = rep_serverName r"
    using assms(1,2) by (auto simp: report_matches_def spec_wf_def names_ok_def list_all_iff)
  ultimately show ?thesis
    using assms(2,3)
    by (simp add: parseInboundReport_def trimmed_def report_matches_def public_key_trim short_id_trim)
qed

section \<open>Properties\<close>

text \<open>
  C17: the agent accepts every inbound the control plane normalised, unchanged: parsing the
  stored JSON gives the specification back, and so does normalising it once more.
\<close>

theorem normalized_spec_roundtrip:
  assumes "normalizeInboundSpec payload = Inr spec"
  shows "parseInboundSpec (spec_json spec) (is_inboundTag spec) = Inr spec
    \<and> normalizeInboundSpec (spec_json spec) = Inr spec"
  using normalize_wf [OF assms] parse_spec_json normalize_spec_json by blast

definition default_spec :: InboundSpec where
  "default_spec = \<lparr>is_inboundTag = ''vless-in'', is_listenPort = 443, is_dest = ''www.microsoft.com:443'',
     is_serverNames = [''www.microsoft.com''], is_flow = Xtls_rprx_vision, is_fingerprint = ''chrome'',
     is_spiderX = ''/'', is_rotateKeys = False\<rparr>"

lemma default_hostname: "hostname ''www.microsoft.com''"
  by (simp add: hostname_def label_ok_def is_alnum_def is_lower_def)

lemma normalize_empty: "normalizeInboundSpec [] = Inr default_spec"
proof -
  have "js_Number ''443'' = Num 443"
    using js_Number_decimal [of "''443''"] by (simp add: dec_val_def digits_val_def digit_val_def)
  then have "port_ok (js_Number ''443'')" using port_ok_int [of 443] by simp
  moreover have "isIP ''www.microsoft.com'' = 0" by code_simp
  moreover have "tag_ok ''vless-in''" by (simp add: tag_ok_def is_alnum_def is_lower_def)
  moreover have "js_trim ''www.microsoft.com'' = ''www.microsoft.com''" by (simp add: js_trim_def is_space_def)
  moreover have "spider_ok ''/''" by (simp add: spider_ok_def is_space_def)
  ultimately show ?thesis
    using default_hostname
    by (simp add: normalizeInboundSpec_def api_text_def split_dest_def toLowerCase_def to_lower_def is_upper_def
        api_raw_names_def name_of_json_def text_flow_def supported_fingerprints_def api_rotate_def api_port_def
        default_spec_def require_def)
qed

theorem normalized_spec_roundtrip_witness:
  "parseInboundSpec (spec_json default_spec) (is_inboundTag default_spec) = Inr default_spec
    \<and> normalizeInboundSpec (spec_json default_spec) = Inr default_spec"
  by (rule normalized_spec_roundtrip [OF normalize_empty])

end
