(* ===== verification/AgentStore.thy ===== *)
theory AgentStore
  imports AgentTypes
begin

text \<open>
  The node agent's durable store (\<open>apps/node-agent/src/store.ts\<close>): desired users with
  their counters and quotas, pending usage batches, command results and the \<open>meta_v2\<close>
  key-value table.  A transaction that throws leaves the database as it was, so an
  operation returns either an error or the new state.  Batches, commands and results
  are stored as JSON texts and read back unchanged; the model stores the values.  The
  inbound state is the one meta key whose text the store parses again, so it is kept
  as the JSON value, apart from the other keys.
\<close>

section \<open>State\<close>

record agent_store =
  st_bootId :: string
  st_nodeId :: string
  st_defaultOfflineAllowanceBytes :: int
  st_meta :: "string \<rightharpoonup> string"
  st_inbound :: "json option"
  st_users :: "UserRow list"
  st_batches :: "BatchRow list"
  st_commands :: "CommandRow list"

section \<open>Numbers in text columns\<close>

definition bigInt :: "string \<Rightarrow> (agent_error, int) result" where
  "bigInt s = (case js_BigInt s of None \<Rightarrow> Inl (BigIntSyntax s) | Some i \<Rightarrow> Inr i)"

definition decimal :: "string \<Rightarrow> (agent_error, string) result" where
  "decimal s =
     (if \<not> decimal_pattern s then Inl (InvalidDecimal s)
      else rbind (bigInt s) (\<lambda>i. Inr (bigint_toString i)))"

section \<open>The meta table\<close>

definition getMeta :: "agent_store \<Rightarrow> string \<Rightarrow> string option" where
  "getMeta st k = st_meta st k"

definition setMeta :: "string \<Rightarrow> string \<Rightarrow> agent_store \<Rightarrow> agent_store" where
  "setMeta k v st = st\<lparr>st_meta := (st_meta st)(k \<mapsto> v)\<rparr>"

definition deleteMeta :: "string \<Rightarrow> agent_store \<Rightarrow> agent_store" where
  "deleteMeta k st = st\<lparr>st_meta := (st_meta st)(k := None)\<rparr>"

text \<open>\<open>value || fallback\<close> on an optional text: absent and empty are both falsy.\<close>

definition or_text :: "string option \<Rightarrow> string \<Rightarrow> string" where
  "or_text v d = (case v of None \<Rightarrow> d | Some s \<Rightarrow> if s = [] then d else s)"

definition sequenceKey :: "string \<Rightarrow> string" where
  "sequenceKey bootId = ''next_sequence:'' @ bootId"

definition baselineKey :: "string \<Rightarrow> string" where
  "baselineKey bootId = ''baseline_emitted:'' @ bootId"

section \<open>Opening the store\<close>

definition assertOwnIdentity :: "string \<Rightarrow> agent_store \<Rightarrow> (agent_error, agent_store) result" where
  "assertOwnIdentity nodeId st =
     (let recorded = or_text (getMeta st ''node_id'') [] in
      if recorded \<noteq> [] \<and> recorded \<noteq> nodeId then Inl (ForeignState recorded nodeId)
      else if recorded = [] then Inr (setMeta ''node_id'' nodeId st)
      else Inr st)"

definition initializeBoot :: "string \<Rightarrow> agent_store \<Rightarrow> agent_store" where
  "initializeBoot bootId st =
     (let st = setMeta ''boot_id'' bootId st
      in if or_text (getMeta st (sequenceKey bootId)) [] = []
         then setMeta (sequenceKey bootId) ''1'' st else st)"

text \<open>
  The tables found at the database path; a missing file opens as \<open>empty_tables\<close>
  (\<open>migrate\<close> creates the tables).
\<close>

record store_options =
  so_bootId :: string
  so_nodeId :: string
  so_defaultOfflineAllowanceBytes :: int

definition with_options :: "store_options \<Rightarrow> agent_store \<Rightarrow> agent_store" where
  "with_options opts disk = disk\<lparr>st_bootId := so_bootId opts, st_nodeId := so_nodeId opts,
     st_defaultOfflineAllowanceBytes := so_defaultOfflineAllowanceBytes opts\<rparr>"

definition empty_tables :: agent_store where
  "empty_tables = \<lparr>st_bootId = [], st_nodeId = [], st_defaultOfflineAllowanceBytes = 0,
     st_meta = Map.empty, st_inbound = None, st_users = [], st_batches = [], st_commands = []\<rparr>"

definition newAgentStore :: "store_options \<Rightarrow> agent_store \<Rightarrow> (agent_error, agent_store) result" where
  "newAgentStore opts disk =
     rbind (assertOwnIdentity (so_nodeId opts) (with_options opts disk))
       (\<lambda>st. Inr (initializeBoot (so_bootId opts) st))"

text \<open>
  \<open>openStore\<close>: a foreign database is archived, and replaced by an empty one, only when
  the operator asked for an identity reset.
\<close>

definition openStore :: "bool \<Rightarrow> store_options \<Rightarrow> agent_store \<Rightarrow> (agent_error, agent_store) result" where
  "openStore resetIdentity opts disk = (case newAgentStore opts disk of
       Inr st \<Rightarrow> Inr st
     | Inl (ForeignState a b) \<Rightarrow>
         if resetIdentity then newAgentStore opts empty_tables else Inl (ForeignState a b)
     | Inl e \<Rightarrow> Inl e)"

section \<open>Users\<close>

definition getUserByBindingId :: "agent_store \<Rightarrow> string \<Rightarrow> UserRow option" where
  "getUserByBindingId st b = tfind ur_binding_id b (st_users st)"

definition getUserByEmail :: "agent_store \<Rightarrow> string \<Rightarrow> UserRow option" where
  "getUserByEmail st e = tfind ur_email e (st_users st)"

definition toDesiredUser :: "UserRow \<Rightarrow> DesiredUser" where
  "toDesiredUser row = \<lparr>du_bindingId = ur_binding_id row, du_revision = ur_revision row,
     du_email = ur_email row, du_uuid = ur_uuid row, du_flow = Some (ur_flow row),
     du_enabled = (ur_enabled row = 1), du_quotaRemainingBytes = ur_quota_remaining row,
     du_offlineAllowanceBytes = ur_offline_allowance row\<rparr>"

definition listDesiredUsers :: "agent_store \<Rightarrow> DesiredUser list" where
  "listDesiredUsers st = map toDesiredUser (sort_key ur_email (st_users st))"

text \<open>
  \<open>INSERT \<dots> ON CONFLICT(binding_id) DO UPDATE\<close> with the table's unique \<open>email\<close>: an
  email another binding holds fails either branch.
\<close>

definition user_flow :: "DesiredUser \<Rightarrow> flow" where
  "user_flow user = (case du_flow user of None \<Rightarrow> No_flow | Some f \<Rightarrow> f)"

definition upsertRow ::
  "string \<Rightarrow> DesiredUser \<Rightarrow> string \<Rightarrow> string \<Rightarrow> string \<Rightarrow> UserRow list \<Rightarrow> (agent_error, UserRow list) result" where
  "upsertRow now user revision quota allowance rows =
     (if \<exists>r \<in> set rows. ur_email r = du_email user \<and> ur_binding_id r \<noteq> du_bindingId user
      then Inl (UniqueEmail (du_email user))
      else if \<exists>r \<in> set rows. ur_binding_id r = du_bindingId user
      then Inr (tmodify (\<lambda>r. ur_binding_id r = du_bindingId user)
        (\<lambda>r. r\<lparr>ur_email := du_email user, ur_uuid := du_uuid user, ur_flow := user_flow user,
           ur_enabled := (if du_enabled user then 1 else 0), ur_revision := revision,
           ur_quota_remaining := quota, ur_offline_allowance := allowance,
           ur_updated_at := now\<rparr>) rows)
      else Inr (rows @ [\<lparr>ur_binding_id = du_bindingId user, ur_email = du_email user,
           ur_uuid = du_uuid user, ur_flow = user_flow user,
           ur_enabled = (if du_enabled user then 1 else 0), ur_revision = revision,
           ur_quota_remaining = quota, ur_offline_allowance = allowance,
           ur_offline_used = ''0'', ur_generation = ''0'', ur_counter_initialized = 0,
           ur_uplink = ''0'', ur_downlink = ''0'', ur_updated_at = now\<rparr>]))"

definition upsertDesiredUser ::
  "string \<Rightarrow> DesiredUser \<Rightarrow> agent_store \<Rightarrow> (agent_error, agent_store) result" where
  "upsertDesiredUser now user st =
     rbind (decimal (du_revision user)) (\<lambda>revision.
     rbind (case getUserByBindingId st (du_bindingId user) of
              None \<Rightarrow> Inr False
            | Some current \<Rightarrow> rbind (bigInt (ur_revision current)) (\<lambda>a.
                rbind (bigInt revision) (\<lambda>b. Inr (a \<ge> b)))) (\<lambda>stale.
     if stale then Inr st
     else
       rbind (decimal (du_quotaRemainingBytes user)) (\<lambda>quota.
       rbind (decimal (if du_offlineAllowanceBytes user = []
                       then bigint_toString (st_defaultOfflineAllowanceBytes st)
                       else du_offlineAllowanceBytes user)) (\<lambda>allowance.
       rbind (upsertRow now user revision quota allowance (st_users st)) (\<lambda>rows.
       Inr (st\<lparr>st_users := rows\<rparr>))))))"

definition setUserFlow :: "string \<Rightarrow> flow option \<Rightarrow> agent_store \<Rightarrow> agent_store" where
  "setUserFlow b f st = st\<lparr>st_users := tmodify (\<lambda>r. ur_binding_id r = b)
     (\<lambda>r. r\<lparr>ur_flow := (case f of None \<Rightarrow> No_flow | Some f \<Rightarrow> f)\<rparr>) (st_users st)\<rparr>"

definition deleteUser :: "string \<Rightarrow> agent_store \<Rightarrow> agent_store" where
  "deleteUser b st = st\<lparr>st_users := tdelete (\<lambda>r. ur_binding_id r = b) (st_users st)\<rparr>"

text \<open>
  The guard \<open>!current || BigInt(current.revision) > BigInt(decimal(revision))\<close> of the two
  revisioned updates: \<open>Inr None\<close> returns without writing, \<open>Inr (Some r)\<close> writes with
  the canonical revision \<open>r\<close>.
\<close>

definition revision_guard ::
  "agent_store \<Rightarrow> string \<Rightarrow> string \<Rightarrow> (agent_error, string option) result" where
  "revision_guard st b revision = (case getUserByBindingId st b of
       None \<Rightarrow> Inr None
     | Some current \<Rightarrow>
         rbind (bigInt (ur_revision current)) (\<lambda>a.
         rbind (decimal revision) (\<lambda>target.
         rbind (bigInt target) (\<lambda>b. Inr (if a > b then None else Some target)))))"

definition updateQuota ::
  "string \<Rightarrow> string \<Rightarrow> string \<Rightarrow> string \<Rightarrow> agent_store \<Rightarrow> (agent_error, agent_store) result" where
  "updateQuota now b quota revision st =
     rbind (revision_guard st b revision) (\<lambda>go. case go of
       None \<Rightarrow> Inr st
     | Some target \<Rightarrow> rbind (decimal quota) (\<lambda>q.
         Inr (st\<lparr>st_users := tmodify (\<lambda>r. ur_binding_id r = b)
           (\<lambda>r. r\<lparr>ur_quota_remaining := q, ur_revision := target, ur_offline_used := ''0'',
              ur_updated_at := now\<rparr>) (st_users st)\<rparr>)))"

definition setUserEnabled ::
  "string \<Rightarrow> string \<Rightarrow> bool \<Rightarrow> string \<Rightarrow> agent_store \<Rightarrow> (agent_error, agent_store) result" where
  "setUserEnabled now b enabled revision st =
     rbind (revision_guard st b revision) (\<lambda>go. case go of
       None \<Rightarrow> Inr st
     | Some target \<Rightarrow>
         Inr (st\<lparr>st_users := tmodify (\<lambda>r. ur_binding_id r = b)
           (\<lambda>r. r\<lparr>ur_enabled := (if enabled then 1 else 0), ur_revision := target,
              ur_updated_at := now\<rparr>) (st_users st)\<rparr>))"

section \<open>Configuration\<close>

definition getConfigRevision :: "agent_store \<Rightarrow> string" where
  "getConfigRevision st = or_text (getMeta st ''config_revision'') ''0''"

definition advanceConfigRevision :: "string \<Rightarrow> agent_store \<Rightarrow> (agent_error, agent_store) result" where
  "advanceConfigRevision revision st =
     rbind (decimal revision) (\<lambda>next.
     rbind (bigInt next) (\<lambda>a.
     rbind (bigInt (getConfigRevision st)) (\<lambda>b.
     Inr (if a > b then setMeta ''config_revision'' next st else st))))"

definition getConfigSnapshot :: "agent_store \<Rightarrow> AgentConfigSnapshot" where
  "getConfigSnapshot st = \<lparr>snap_nodeId = st_nodeId st, snap_revision = getConfigRevision st,
     snap_controlMode = (case Option.bind (getMeta st ''control_mode'') parse_mode of
        None \<Rightarrow> Shadow_direct | Some m \<Rightarrow> m),
     snap_users = listDesiredUsers st\<rparr>"

definition replaceDesiredUsers ::
  "string \<Rightarrow> DesiredUser list \<Rightarrow> string \<Rightarrow> agent_store \<Rightarrow> (agent_error, agent_store) result" where
  "replaceDesiredUsers now users revision st =
     rbind (foldR (upsertDesiredUser now) users st) (\<lambda>st.
     let keep = set (map du_bindingId users);
         st = st\<lparr>st_users := tdelete (\<lambda>r. ur_binding_id r \<notin> keep) (st_users st)\<rparr>
     in rbind (decimal revision) (\<lambda>target. Inr (setMeta ''config_revision'' target st)))"

definition applyConfigSnapshot ::
  "string \<Rightarrow> AgentConfigSnapshot \<Rightarrow> agent_store \<Rightarrow> (agent_error, bool \<times> agent_store) result" where
  "applyConfigSnapshot now snapshot st =
     (if snap_nodeId snapshot \<noteq> st_nodeId st then Inl NodeIdMismatch
      else
        rbind (decimal (snap_revision snapshot)) (\<lambda>revision.
        rbind (bigInt revision) (\<lambda>a.
        rbind (bigInt (getConfigRevision st)) (\<lambda>b.
        if a < b then Inr (False, st)
        else
          rbind (replaceDesiredUsers now (snap_users snapshot) revision st) (\<lambda>st.
          Inr (True, setMeta ''config_revision'' revision
            (setMeta ''control_mode'' (mode_text (snap_controlMode snapshot)) st)))))))"

section \<open>Inbound state\<close>

text \<open>\<open>value && typeof value === 'object'\<close>.\<close>

fun is_object :: "json \<Rightarrow> bool" where
  "is_object (JObj _) = True"
| "is_object (JArr _) = True"
| "is_object _ = False"

definition getInboundState :: "agent_store \<Rightarrow> InboundState option" where
  "getInboundState st = (case st_inbound st of
       Some (JObj ms) \<Rightarrow> (case (map_of ms ''hash'', map_of ms ''report'') of
           (Some (JStr h), Some r) \<Rightarrow>
             if \<not> is_object r then None
             else Some \<lparr>ib_hash = h, ib_report = r,
               ib_appliedRevision =
                 (case map_of ms ''appliedRevision'' of Some (JStr v) \<Rightarrow> v | _ \<Rightarrow> ''0''),
               ib_complete = (map_of ms ''complete'' = Some (JBool True))\<rparr>
         | _ \<Rightarrow> None)
     | _ \<Rightarrow> None)"

definition setInboundState :: "InboundState \<Rightarrow> agent_store \<Rightarrow> agent_store" where
  "setInboundState s st = st\<lparr>st_inbound := Some (JObj
     [(''hash'', JStr (ib_hash s)), (''report'', ib_report s),
      (''appliedRevision'', JStr (ib_appliedRevision s)), (''complete'', JBool (ib_complete s))])\<rparr>"

definition clearInboundState :: "agent_store \<Rightarrow> agent_store" where
  "clearInboundState st = st\<lparr>st_inbound := None\<rparr>"

definition isInboundAwaiting :: "agent_store \<Rightarrow> bool" where
  "isInboundAwaiting st \<longleftrightarrow> getMeta st ''inbound_awaiting'' = Some ''1''"

definition setInboundAwaiting :: "bool \<Rightarrow> agent_store \<Rightarrow> agent_store" where
  "setInboundAwaiting awaiting st =
     (if awaiting then setMeta ''inbound_awaiting'' ''1'' st else deleteMeta ''inbound_awaiting'' st)"

section \<open>Users disabled by usage\<close>

fun someR :: "('a \<Rightarrow> ('e, bool) result) \<Rightarrow> 'a list \<Rightarrow> ('e, bool) result" where
  "someR p [] = Inr False"
| "someR p (x # xs) = rbind (p x) (\<lambda>b. if b then Inr True else someR p xs)"

definition hasOfflineDisabledUsers :: "agent_store \<Rightarrow> (agent_error, bool) result" where
  "hasOfflineDisabledUsers st = someR (\<lambda>r.
       rbind (bigInt (ur_offline_used r)) (\<lambda>u.
       rbind (bigInt (ur_offline_allowance r)) (\<lambda>a. Inr (u \<ge> a))))
     (filter (\<lambda>r. ur_enabled r = 0 \<and> ur_offline_used r \<noteq> ''0'') (st_users st))"

definition usage_disabled :: "UserRow \<Rightarrow> (agent_error, bool) result" where
  "usage_disabled r =
     rbind (bigInt (ur_quota_remaining r)) (\<lambda>q.
     if q = 0 then Inr True
     else rbind (bigInt (ur_offline_used r)) (\<lambda>u.
       if u > 0 then rbind (bigInt (ur_offline_allowance r)) (\<lambda>a. Inr (u \<ge> a))
       else Inr False))"

definition hasUsageDisabledUsers :: "agent_store \<Rightarrow> (agent_error, bool) result" where
  "hasUsageDisabledUsers st =
     someR usage_disabled (filter (\<lambda>r. ur_enabled r = 0) (st_users st))"

definition restoreUser :: "string \<Rightarrow> DesiredUser \<Rightarrow> agent_store \<Rightarrow> (agent_error, agent_store) result" where
  "restoreUser now user st = (case getUserByBindingId st (du_bindingId user) of
       None \<Rightarrow> Inr st
     | Some row \<Rightarrow>
         rbind (bigInt (ur_quota_remaining row)) (\<lambda>localQuota.
         rbind (decimal (du_quotaRemainingBytes user)) (\<lambda>d.
         rbind (bigInt d) (\<lambda>backendQuota.
         let confirmedQuota = (if localQuota < backendQuota then localQuota else backendQuota);
             enabled = (du_enabled user \<and> confirmedQuota > 0)
         in Inr (st\<lparr>st_users := tmodify (\<lambda>r. ur_binding_id r = du_bindingId user)
              (\<lambda>r. r\<lparr>ur_enabled := (if enabled then 1 else 0),
                 ur_quota_remaining := bigint_toString confirmedQuota,
                 ur_offline_used := ''0'', ur_updated_at := now\<rparr>) (st_users st)\<rparr>)))))"

definition restoreBackendConfirmedUsers ::
  "string \<Rightarrow> DesiredUser list \<Rightarrow> agent_store \<Rightarrow> (agent_error, agent_store) result" where
  "restoreBackendConfirmedUsers now users st = foldR (restoreUser now) users st"

end
