(* ===== verification/AgentSampling.thy ===== *)
theory AgentSampling
  imports AgentStore
begin

text \<open>
  The agent's metering: one sample of absolute counters becomes a durable usage batch
  with per-generation deltas, quotas shrink, and users over quota or over their
  offline allowance are disabled (\<open>recordSample\<close>); the pending batch queue and its
  acknowledgement; the command ledger (\<open>store.ts\<close>, lines 408 to 536).
\<close>

section \<open>Sampling\<close>

text \<open>The loop body for a counter whose user is enabled.\<close>

definition sampleRow ::
  "bool \<Rightarrow> string \<Rightarrow> AbsoluteCounter \<Rightarrow> UserRow \<Rightarrow> (agent_error, UserRow \<times> UsageSample \<times> bool) result" where
  "sampleRow backendOnline sampledAt counter row =
     rbind (rbind (decimal (ac_uplinkBytes counter)) bigInt) (\<lambda>currentUp.
     rbind (rbind (decimal (ac_downlinkBytes counter)) bigInt) (\<lambda>currentDown.
     rbind (bigInt (ur_uplink row)) (\<lambda>previousUp.
     rbind (bigInt (ur_downlink row)) (\<lambda>previousDown.
     let initialized = (ur_counter_initialized row = 1);
         rolledBack = (initialized \<and> (currentUp < previousUp \<or> currentDown < previousDown))
     in
     rbind (bigInt (ur_generation row)) (\<lambda>oldGeneration.
     let generation = oldGeneration + (if rolledBack then 1 else 0);
         deltaUp = (if \<not> initialized then 0 else if rolledBack then currentUp
                    else currentUp - previousUp);
         deltaDown = (if \<not> initialized then 0 else if rolledBack then currentDown
                      else currentDown - previousDown);
         delta = deltaUp + deltaDown
     in
     rbind (bigInt (ur_quota_remaining row)) (\<lambda>quota.
     let nextQuota = (if quota > delta then quota - delta else 0) in
     rbind (if backendOnline then Inr 0
            else rbind (bigInt (ur_offline_used row)) (\<lambda>u. Inr (u + delta))) (\<lambda>nextOffline.
     rbind (bigInt (ur_offline_allowance row)) (\<lambda>allowance.
     let shouldDisable = (nextQuota = 0 \<or> (\<not> backendOnline \<and> nextOffline \<ge> allowance)) in
     Inr (row\<lparr>ur_generation := bigint_toString generation, ur_counter_initialized := 1,
            ur_uplink := bigint_toString currentUp, ur_downlink := bigint_toString currentDown,
            ur_quota_remaining := bigint_toString nextQuota,
            ur_offline_used := bigint_toString nextOffline,
            ur_enabled := (if shouldDisable then 0 else 1), ur_updated_at := sampledAt\<rparr>,
          \<lparr>us_bindingId = ur_binding_id row,
            us_counterGeneration = bigint_toString generation,
            us_uplinkBytes = bigint_toString currentUp,
            us_downlinkBytes = bigint_toString currentDown,
            us_uplinkDeltaBytes = bigint_toString deltaUp,
            us_downlinkDeltaBytes = bigint_toString deltaDown\<rparr>,
          shouldDisable)))))))))"

text \<open>One iteration of the loop over the counters: table, samples and emails so far.\<close>

type_synonym sampling = "UserRow list \<times> UsageSample list \<times> string list"

definition sampleStep ::
  "bool \<Rightarrow> string \<Rightarrow> AbsoluteCounter \<Rightarrow> sampling \<Rightarrow> (agent_error, sampling) result" where
  "sampleStep backendOnline sampledAt counter acc = (case acc of (rows, samples, disableEmails) \<Rightarrow>
     (case tfind ur_email (ac_email counter) rows of
        None \<Rightarrow> Inr acc
      | Some row \<Rightarrow>
          if ur_enabled row \<noteq> 1 then Inr acc
          else rbind (sampleRow backendOnline sampledAt counter row) (\<lambda>(row', sample, disable).
            Inr (tmodify (\<lambda>r. ur_binding_id r = ur_binding_id row) (\<lambda>_. row') rows,
                 samples @ [sample],
                 if disable then disableEmails @ [ur_email row] else disableEmails))))"

definition insertBatch :: "UsageBatch \<Rightarrow> agent_store \<Rightarrow> (agent_error, agent_store) result" where
  "insertBatch batch st =
     (if \<exists>b \<in> set (st_batches st). br_boot_id b = ub_bootId batch \<and> br_sequence b = ub_sequence batch
      then Inl (DuplicateBatch (ub_bootId batch) (ub_sequence batch))
      else Inr (st\<lparr>st_batches := st_batches st @ [\<lparr>br_boot_id = ub_bootId batch,
             br_sequence = ub_sequence batch, br_sampled_at = ub_sampledAt batch,
             br_payload = batch\<rparr>]\<rparr>))"

definition recordSample ::
  "AbsoluteCounter list \<Rightarrow> string \<Rightarrow> bool \<Rightarrow> agent_store \<Rightarrow> (agent_error, SampleResult \<times> agent_store) result" where
  "recordSample counters sampledAt backendOnline st =
     rbind (foldR (sampleStep backendOnline sampledAt) counters (st_users st, [], []))
       (\<lambda>(rows, samples, disableEmails).
     let st = st\<lparr>st_users := rows\<rparr>;
         st = (if counters \<noteq> [] then setMeta (baselineKey (st_bootId st)) ''1'' st else st)
     in if samples = [] then Inr (\<lparr>sr_batch = None, sr_disableEmails = disableEmails\<rparr>, st)
        else
          rbind (bigInt (or_text (getMeta st (sequenceKey (st_bootId st))) ''1'')) (\<lambda>sequence.
          let batch = \<lparr>ub_bootId = st_bootId st, ub_sequence = bigint_toString sequence,
                       ub_sampledAt = sampledAt, ub_samples = samples\<rparr>
          in rbind (insertBatch batch st) (\<lambda>st.
             Inr (\<lparr>sr_batch = Some batch, sr_disableEmails = disableEmails\<rparr>,
                  setMeta (sequenceKey (st_bootId st)) (bigint_toString (sequence + 1)) st))))"

section \<open>The pending batch queue\<close>

definition listPendingBatches :: "nat \<Rightarrow> agent_store \<Rightarrow> UsageBatch list" where
  "listPendingBatches limit st = map br_payload (take limit (st_batches st))"

definition ackThrough ::
  "string \<Rightarrow> string \<Rightarrow> agent_store \<Rightarrow> (agent_error, nat \<times> agent_store) result" where
  "ackThrough bootId ack_text st =
     rbind (rbind (decimal ack_text) bigInt) (\<lambda>ack.
     rbind (foldR (\<lambda>row (count, batches).
              rbind (bigInt (br_sequence row)) (\<lambda>sequence.
              if sequence \<le> ack
              then let gone = (\<lambda>b. br_boot_id b = bootId \<and> br_sequence b = br_sequence row)
                   in Inr (count + length (filter gone batches), tdelete gone batches)
              else Inr (count, batches)))
            (filter (\<lambda>b. br_boot_id b = bootId) (st_batches st)) (0, st_batches st))
       (\<lambda>(count, batches). Inr (count, st\<lparr>st_batches := batches\<rparr>)))"

definition pendingBatchCount :: "agent_store \<Rightarrow> nat" where
  "pendingBatchCount st = length (st_batches st)"

definition pendingBatchWatermarks :: "agent_store \<Rightarrow> (agent_error, (string \<times> string) list) result" where
  "pendingBatchWatermarks st =
     rbind (foldR (\<lambda>row watermarks.
              rbind (bigInt (br_sequence row)) (\<lambda>sequence.
              Inr (case map_of watermarks (br_boot_id row) of
                  None \<Rightarrow> mput (br_boot_id row) sequence watermarks
                | Some current \<Rightarrow>
                    if sequence > current then mput (br_boot_id row) sequence watermarks
                    else watermarks)))
            (st_batches st) [])
       (\<lambda>watermarks. Inr (map (\<lambda>(boot, n). (boot, bigint_toString n)) watermarks))"

definition oldestPendingSampledAt :: "agent_store \<Rightarrow> string option" where
  "oldestPendingSampledAt st = (case map br_sampled_at (st_batches st) of
     [] \<Rightarrow> None | t # ts \<Rightarrow> Some (foldl min t ts))"

section \<open>The command ledger\<close>

definition beginCommand ::
  "AgentCommand \<Rightarrow> agent_store \<Rightarrow> (agent_error, CommandResult option \<times> agent_store) result" where
  "beginCommand command st =
     (case tfind cr_command_id (cmd_id command) (st_commands st) of
        Some row \<Rightarrow> (case cr_result row of
            Some result \<Rightarrow>
              if res_status result = Completed then Inr (Some result, st)
              else rbind (decimal (cmd_targetRevision command)) (\<lambda>revision.
                Inr (None, st\<lparr>st_commands := tmodify (\<lambda>r. cr_command_id r = cmd_id command)
                  (\<lambda>r. r\<lparr>cr_command_type := cmd_type command, cr_target_revision := revision,
                     cr_payload := command, cr_result := None, cr_completed_at := None\<rparr>)
                  (st_commands st)\<rparr>))
          | None \<Rightarrow> rbind (decimal (cmd_targetRevision command)) (\<lambda>_. Inr (None, st)))
      | None \<Rightarrow> rbind (decimal (cmd_targetRevision command)) (\<lambda>revision.
          Inr (None, st\<lparr>st_commands := st_commands st @ [\<lparr>cr_command_id = cmd_id command,
            cr_command_type = cmd_type command, cr_target_revision = revision,
            cr_payload = command, cr_result = None, cr_completed_at = None\<rparr>]\<rparr>)))"

definition completeCommand :: "string \<Rightarrow> CommandResult \<Rightarrow> agent_store \<Rightarrow> agent_store" where
  "completeCommand now result st =
     st\<lparr>st_commands := tmodify (\<lambda>r. cr_command_id r = res_commandId result)
       (\<lambda>r. r\<lparr>cr_result := Some result, cr_completed_at := Some now\<rparr>) (st_commands st)\<rparr>"

section \<open>Well-formed stores\<close>

text \<open>
  Every numeric column holds a canonical decimal, flags are 0 or 1, keys are unique,
  and no pending batch of the running boot carries a sequence number that is still
  to be given out.
\<close>

definition row_wf :: "UserRow \<Rightarrow> bool" where
  "row_wf r \<longleftrightarrow> list_all decimal_pattern
       [ur_revision r, ur_quota_remaining r, ur_offline_allowance r, ur_offline_used r,
        ur_generation r, ur_uplink r, ur_downlink r]
     \<and> ur_enabled r \<le> 1 \<and> ur_counter_initialized r \<le> 1"

definition users_wf :: "UserRow list \<Rightarrow> bool" where
  "users_wf rows \<longleftrightarrow> list_all row_wf rows \<and> distinct (map ur_binding_id rows)
     \<and> distinct (map ur_email rows)"

definition next_sequence :: "agent_store \<Rightarrow> string" where
  "next_sequence st = or_text (getMeta st (sequenceKey (st_bootId st))) ''1''"

definition batches_wf :: "agent_store \<Rightarrow> bool" where
  "batches_wf st \<longleftrightarrow> decimal_pattern (next_sequence st)
     \<and> distinct (map (\<lambda>b. (br_boot_id b, br_sequence b)) (st_batches st))
     \<and> list_all (\<lambda>b. decimal_pattern (br_sequence b)
         \<and> (br_boot_id b = st_bootId st \<longrightarrow> dec_val (br_sequence b) < dec_val (next_sequence st)))
       (st_batches st)"

definition store_wf :: "agent_store \<Rightarrow> bool" where
  "store_wf st \<longleftrightarrow> users_wf (st_users st) \<and> batches_wf st
     \<and> decimal_pattern (getConfigRevision st) \<and> 0 \<le> st_defaultOfflineAllowanceBytes st"

section \<open>The meter: what sampling computes, over numbers\<close>

text \<open>
  The specification of sampling over natural numbers: a user's counters, quota and
  offline usage.  A counter that fell below the tracked value starts a new generation
  and its whole value is new usage; a first observation is only a baseline.
\<close>

record meter =
  m_initialized :: bool
  m_generation :: nat
  m_up :: nat
  m_down :: nat
  m_quota :: nat
  m_offline :: nat
  m_allowance :: nat
  m_enabled :: bool

definition meter_rolled :: "nat \<Rightarrow> nat \<Rightarrow> meter \<Rightarrow> bool" where
  "meter_rolled up down m \<longleftrightarrow> m_initialized m \<and> (up < m_up m \<or> down < m_down m)"

definition meter_delta_up :: "nat \<Rightarrow> nat \<Rightarrow> meter \<Rightarrow> nat" where
  "meter_delta_up up down m = (if \<not> m_initialized m then 0
     else if meter_rolled up down m then up else up - m_up m)"

definition meter_delta_down :: "nat \<Rightarrow> nat \<Rightarrow> meter \<Rightarrow> nat" where
  "meter_delta_down up down m = (if \<not> m_initialized m then 0
     else if meter_rolled up down m then down else down - m_down m)"

definition meter_delta :: "nat \<Rightarrow> nat \<Rightarrow> meter \<Rightarrow> nat" where
  "meter_delta up down m = meter_delta_up up down m + meter_delta_down up down m"

definition meter_step :: "bool \<Rightarrow> nat \<Rightarrow> nat \<Rightarrow> meter \<Rightarrow> meter" where
  "meter_step online up down m =
     (let q = m_quota m - meter_delta up down m;
          off = (if online then 0 else m_offline m + meter_delta up down m)
      in m\<lparr>m_initialized := True,
           m_generation := m_generation m + (if meter_rolled up down m then 1 else 0),
           m_up := up, m_down := down, m_quota := q, m_offline := off,
           m_enabled := (q \<noteq> 0 \<and> (online \<or> off < m_allowance m))\<rparr>)"

definition abs_row :: "UserRow \<Rightarrow> meter" where
  "abs_row r = \<lparr>m_initialized = (ur_counter_initialized r = 1),
     m_generation = dec_val (ur_generation r), m_up = dec_val (ur_uplink r),
     m_down = dec_val (ur_downlink r), m_quota = dec_val (ur_quota_remaining r),
     m_offline = dec_val (ur_offline_used r), m_allowance = dec_val (ur_offline_allowance r),
     m_enabled = (ur_enabled r = 1)\<rparr>"

definition counter_wf :: "AbsoluteCounter \<Rightarrow> bool" where
  "counter_wf c \<longleftrightarrow> decimal_pattern (ac_uplinkBytes c) \<and> decimal_pattern (ac_downlinkBytes c)"

lemma bigInt_decimal [simp]: "decimal_pattern s \<Longrightarrow> bigInt s = Inr (int (dec_val s))"
  by (simp add: bigInt_def js_BigInt_decimal)

lemma decimal_id [simp]: "decimal_pattern s \<Longrightarrow> decimal s = Inr s"
  by (simp add: decimal_def show_nat_dec_val)

lemma decimal_eq_Inr: "decimal s = Inr t \<longleftrightarrow> decimal_pattern s \<and> t = s"
  using decimal_id [of s] by (auto simp: decimal_def)

lemma decimal_pattern_0 [simp]: "decimal_pattern ''0''"
  by simp

lemma decimal_pattern_bigint_toString [simp]: "0 \<le> i \<Longrightarrow> decimal_pattern (bigint_toString i)"
  by (simp add: bigint_toString_nonneg)

lemma dec_val_bigint_toString [simp]: "0 \<le> i \<Longrightarrow> dec_val (bigint_toString i) = nat i"
  by (simp add: bigint_toString_nonneg)

lemma dec_val_0 [simp]: "dec_val ''0'' = 0"
  using dec_val_show_nat [of 0] by simp

text \<open>The row and the sample that a meter reading is written as.\<close>

definition put_meter :: "meter \<Rightarrow> string \<Rightarrow> UserRow \<Rightarrow> UserRow" where
  "put_meter m t r = r\<lparr>ur_generation := show_nat (m_generation m), ur_counter_initialized := 1,
     ur_uplink := show_nat (m_up m), ur_downlink := show_nat (m_down m),
     ur_quota_remaining := show_nat (m_quota m), ur_offline_used := show_nat (m_offline m),
     ur_enabled := (if m_enabled m then 1 else 0), ur_updated_at := t\<rparr>"

definition meter_sample :: "nat \<Rightarrow> nat \<Rightarrow> meter \<Rightarrow> string \<Rightarrow> UsageSample" where
  "meter_sample up down m b = \<lparr>us_bindingId = b,
     us_counterGeneration = show_nat (m_generation m + (if meter_rolled up down m then 1 else 0)),
     us_uplinkBytes = show_nat up, us_downlinkBytes = show_nat down,
     us_uplinkDeltaBytes = show_nat (meter_delta_up up down m),
     us_downlinkDeltaBytes = show_nat (meter_delta_down up down m)\<rparr>"

lemmas meter_defs = meter_step_def meter_rolled_def meter_delta_def meter_delta_up_def
  meter_delta_down_def Let_def

lemma put_meter_keys [simp]:
  "ur_binding_id (put_meter m t r) = ur_binding_id r" "ur_email (put_meter m t r) = ur_email r"
  "ur_revision (put_meter m t r) = ur_revision r"
  "ur_offline_allowance (put_meter m t r) = ur_offline_allowance r"
  by (simp_all add: put_meter_def)

lemma row_wf_put_meter [simp]: "row_wf r \<Longrightarrow> row_wf (put_meter m t r)"
  by (simp add: row_wf_def put_meter_def)

lemma abs_put_meter_step [simp]:
  "abs_row (put_meter (meter_step online up down (abs_row r)) t r) = meter_step online up down (abs_row r)"
  by (simp add: abs_row_def put_meter_def meter_defs)

text \<open>
  One user's sample: the texts the code writes are the meter's numbers, and the
  reported deltas are the meter's.
\<close>

lemma sampleRow_refines:
  fixes online :: bool and t :: string
  assumes wf: "row_wf r" and c: "counter_wf c"
  defines "up \<equiv> dec_val (ac_uplinkBytes c)" and "down \<equiv> dec_val (ac_downlinkBytes c)"
  defines "m \<equiv> meter_step online up down (abs_row r)"
  shows "sampleRow online t c r =
    Inr (put_meter m t r, meter_sample up down (abs_row r) (ur_binding_id r), \<not> m_enabled m)"
proof -
  note defs = sampleRow_def row_wf_def counter_wf_def abs_row_def put_meter_def meter_sample_def
    meter_defs m_def up_def down_def
  show ?thesis
  proof (cases "ur_counter_initialized r = 1")
    case False
    with wf c show ?thesis by (auto simp: defs bigint_toString_nonneg not_less)
  next
    case True
    show ?thesis
    proof (cases "meter_rolled up down (abs_row r)")
      case True
      with \<open>ur_counter_initialized r = 1\<close> wf c show ?thesis
        by (auto simp: defs bigint_toString_nonneg nat_add_distrib nat_diff_distrib' not_less)
    next
      case False
      with \<open>ur_counter_initialized r = 1\<close> wf c show ?thesis
        by (auto simp: defs bigint_toString_nonneg nat_add_distrib nat_diff_distrib' not_less)
    qed
  qed
qed

section \<open>A whole sample\<close>

text \<open>
  The reference definition of a sample: each enabled user with a counter gets its meter
  reading, every other row stays; the batch holds one entry per such counter in the
  order the counters came in.
\<close>

definition reading :: "bool \<Rightarrow> AbsoluteCounter \<Rightarrow> UserRow \<Rightarrow> meter" where
  "reading online c r =
     meter_step online (dec_val (ac_uplinkBytes c)) (dec_val (ac_downlinkBytes c)) (abs_row r)"

definition sampled_row :: "bool \<Rightarrow> string \<Rightarrow> AbsoluteCounter list \<Rightarrow> UserRow \<Rightarrow> UserRow" where
  "sampled_row online t counters r =
     (if ur_enabled r \<noteq> 1 then r
      else case tfind ac_email (ur_email r) counters of
          None \<Rightarrow> r
        | Some c \<Rightarrow> put_meter (reading online c r) t r)"

definition metered_row :: "UserRow list \<Rightarrow> AbsoluteCounter \<Rightarrow> UserRow option" where
  "metered_row rows c = (case tfind ur_email (ac_email c) rows of
       None \<Rightarrow> None
     | Some r \<Rightarrow> if ur_enabled r = 1 then Some r else None)"

definition counter_sample :: "UserRow list \<Rightarrow> AbsoluteCounter \<Rightarrow> UsageSample option" where
  "counter_sample rows c = map_option (\<lambda>r. meter_sample (dec_val (ac_uplinkBytes c))
     (dec_val (ac_downlinkBytes c)) (abs_row r) (ur_binding_id r)) (metered_row rows c)"

definition counter_disables :: "bool \<Rightarrow> UserRow list \<Rightarrow> AbsoluteCounter \<Rightarrow> string option" where
  "counter_disables online rows c = (case metered_row rows c of
       None \<Rightarrow> None
     | Some r \<Rightarrow> if m_enabled (reading online c r) then None else Some (ur_email r))"

lemma users_wf_row: "users_wf rows \<Longrightarrow> r \<in> set rows \<Longrightarrow> row_wf r"
  by (simp add: users_wf_def list_all_iff)

lemma sampleStep_eq:
  assumes wf: "users_wf rows" and c: "counter_wf c"
  shows "sampleStep online t c (rows, ss, ds) =
     Inr (map (sampled_row online t [c]) rows,
          ss @ List.map_filter (counter_sample rows) [c],
          ds @ List.map_filter (counter_disables online rows) [c])"
proof (cases "metered_row rows c")
  case None
  then have "sampled_row online t [c] r = r" if "r \<in> set rows" for r
    using that wf tfind_distinct [of ur_email rows r]
    by (auto simp: sampled_row_def metered_row_def users_wf_def split: option.splits if_splits)
  with None show ?thesis
    by (auto simp: sampleStep_def metered_row_def counter_sample_def counter_disables_def
        List.map_filter_def map_idI split: option.splits if_splits)
next
  case (Some r)
  then have r: "tfind ur_email (ac_email c) rows = Some r" "ur_enabled r = 1"
    by (auto simp: metered_row_def split: option.splits if_splits)
  then have mem: "r \<in> set rows" "ur_email r = ac_email c" by (auto dest: tfind_Some_in)
  have rows: "tmodify (\<lambda>x. ur_binding_id x = ur_binding_id r) (\<lambda>_. put_meter (reading online c r) t r) rows
      = map (sampled_row online t [c]) rows"
    unfolding tmodify_def
  proof (rule map_cong [OF refl])
    fix x assume "x \<in> set rows"
    then have "ur_binding_id x = ur_binding_id r \<longleftrightarrow> x = r" "ur_email x = ac_email c \<longleftrightarrow> x = r"
      using wf mem distinct_map_eq [of ur_binding_id rows x r] distinct_map_eq [of ur_email rows x r]
      by (auto simp: users_wf_def)
    then show "(if ur_binding_id x = ur_binding_id r then put_meter (reading online c r) t r else x)
        = sampled_row online t [c] x"
      using r(2) mem(2) by (cases "x = r") (simp_all add: sampled_row_def)
  qed
  have step: "sampleRow online t c r = Inr (put_meter (reading online c r) t r,
      meter_sample (dec_val (ac_uplinkBytes c)) (dec_val (ac_downlinkBytes c)) (abs_row r) (ur_binding_id r),
      \<not> m_enabled (reading online c r))"
    unfolding reading_def by (rule sampleRow_refines [OF users_wf_row [OF wf mem(1)] c])
  show ?thesis
    unfolding sampleStep_def
    by (simp add: r step rows Some counter_sample_def counter_disables_def)
qed

lemma sampled_row_keys [simp]:
  "ur_binding_id (sampled_row online t cs r) = ur_binding_id r"
  "ur_email (sampled_row online t cs r) = ur_email r"
  "ur_revision (sampled_row online t cs r) = ur_revision r"
  "ur_offline_allowance (sampled_row online t cs r) = ur_offline_allowance r"
  by (auto simp: sampled_row_def split: option.splits)

lemma row_wf_sampled [simp]: "row_wf r \<Longrightarrow> row_wf (sampled_row online t cs r)"
  by (auto simp: sampled_row_def split: option.splits)

lemma users_wf_sampled [simp]: "users_wf rows \<Longrightarrow> users_wf (map (sampled_row online t cs) rows)"
  by (auto simp: users_wf_def list_all_iff comp_def)

lemma metered_row_sampled:
  "ac_email c \<noteq> ac_email d \<Longrightarrow> metered_row (map (sampled_row online t [d]) rows) c = metered_row rows c"
  by (auto simp: metered_row_def tfind_map_keys sampled_row_def split: option.splits dest!: tfind_Some_in)

lemma sampled_row_Cons:
  assumes "ac_email c \<notin> ac_email ` set cs"
  shows "sampled_row online t (c # cs) r = sampled_row online t cs (sampled_row online t [c] r)"
proof (cases "ur_email r = ac_email c")
  case True
  with assms have "sampled_row online t cs x = x" if "ur_email x = ur_email r" for x
    using that by (simp add: sampled_row_def tfind_None_iff [THEN iffD2])
  with True show ?thesis by (simp add: sampled_row_def)
next
  case False
  then have "sampled_row online t [c] r = r" by (simp add: sampled_row_def)
  with False show ?thesis
    by (simp add: sampled_row_def [of online t "c # cs"] sampled_row_def [of online t cs])
qed

text \<open>The loop of \<open>recordSample\<close> computes the reference sample.\<close>

lemma sample_loop_eq:
  assumes "users_wf rows" and "list_all counter_wf cs" and "distinct (map ac_email cs)"
  shows "foldR (sampleStep online t) cs (rows, ss, ds) =
     Inr (map (sampled_row online t cs) rows,
          ss @ List.map_filter (counter_sample rows) cs,
          ds @ List.map_filter (counter_disables online rows) cs)"
  using assms
proof (induction cs arbitrary: rows ss ds)
  case Nil
  then show ?case by (simp add: sampled_row_def map_idI)
next
  case (Cons c cs)
  let ?rows = "map (sampled_row online t [c]) rows"
  from Cons.prems have c: "counter_wf c" "ac_email c \<notin> ac_email ` set cs" by auto
  have other: "metered_row ?rows d = metered_row rows d" if "d \<in> set cs" for d
    using that c(2) by (intro metered_row_sampled) (metis imageI)
  have samples: "List.map_filter (counter_sample ?rows) cs = List.map_filter (counter_sample rows) cs"
    by (rule map_filter_cong) (simp_all add: counter_sample_def other)
  have disables: "List.map_filter (counter_disables online ?rows) cs
      = List.map_filter (counter_disables online rows) cs"
    by (rule map_filter_cong) (simp_all add: counter_disables_def other)
  have rows: "map (sampled_row online t cs) ?rows = map (sampled_row online t (c # cs)) rows"
    using sampled_row_Cons [OF c(2)] by simp
  have "foldR (sampleStep online t) (c # cs) (rows, ss, ds) =
      foldR (sampleStep online t) cs (?rows, ss @ List.map_filter (counter_sample rows) [c],
        ds @ List.map_filter (counter_disables online rows) [c])"
    by (simp add: sampleStep_eq [OF Cons.prems(1) c(1)])
  also have "\<dots> = Inr (map (sampled_row online t cs) ?rows,
      (ss @ List.map_filter (counter_sample rows) [c]) @ List.map_filter (counter_sample ?rows) cs,
      (ds @ List.map_filter (counter_disables online rows) [c])
        @ List.map_filter (counter_disables online ?rows) cs)"
    using Cons.prems by (intro Cons.IH users_wf_sampled) auto
  finally show ?case
    unfolding rows samples disables by (simp split: option.split)
qed

end
