(* ===== verification/AgentStoreLaws.thy ===== *)
theory AgentStoreLaws
  imports AgentSampling
begin

text \<open>
  The laws of the agent store: every operation keeps the store well formed, sampling
  is total on a well-formed store, the batch queue hands out each sequence number once,
  acknowledgement removes exactly the acknowledged batches, and user rows never move
  back to an older revision.
\<close>

section \<open>Operations as steps\<close>

text \<open>
  Every mutation the agent performs on an open store.  Sampling reads one counter per
  email, as the adapter produces them.
\<close>

definition counters_wf :: "AbsoluteCounter list \<Rightarrow> bool" where
  "counters_wf cs \<longleftrightarrow> list_all counter_wf cs \<and> distinct (map ac_email cs)"

inductive store_step :: "agent_store \<Rightarrow> agent_store \<Rightarrow> bool" where
  upsert: "upsertDesiredUser now user st = Inr st' \<Longrightarrow> store_step st st'"
| flow: "store_step st (setUserFlow b f st)"
| delete: "store_step st (deleteUser b st)"
| quota: "updateQuota now b q v st = Inr st' \<Longrightarrow> store_step st st'"
| enable: "setUserEnabled now b e v st = Inr st' \<Longrightarrow> store_step st st'"
| advance: "advanceConfigRevision v st = Inr st' \<Longrightarrow> store_step st st'"
| snapshot: "applyConfigSnapshot now snap st = Inr (applied, st') \<Longrightarrow> store_step st st'"
| restore: "restoreBackendConfirmedUsers now users st = Inr st' \<Longrightarrow> store_step st st'"
| sample: "counters_wf cs \<Longrightarrow> recordSample cs t online st = Inr (res, st') \<Longrightarrow> store_step st st'"
| ack: "ackThrough boot n st = Inr (count, st') \<Longrightarrow> store_step st st'"
| inbound: "store_step st (setInboundState i st)"
| no_inbound: "store_step st (clearInboundState st)"
| awaiting: "store_step st (setInboundAwaiting w st)"
| begin_command: "beginCommand cmd st = Inr (prev, st') \<Longrightarrow> store_step st st'"
| complete_command: "store_step st (completeCommand now res st)"

inductive store_reachable :: "store_options \<Rightarrow> agent_store \<Rightarrow> bool" for opts where
  opened: "newAgentStore opts empty_tables = Inr st \<Longrightarrow> store_reachable opts st"
| stepped: "store_reachable opts st \<Longrightarrow> store_step st st' \<Longrightarrow> store_reachable opts st'"

section \<open>Well-formedness of each operation\<close>

lemma setMeta_sel [simp]:
  "st_bootId (setMeta k v st) = st_bootId st" "st_nodeId (setMeta k v st) = st_nodeId st"
  "st_users (setMeta k v st) = st_users st" "st_batches (setMeta k v st) = st_batches st"
  "st_commands (setMeta k v st) = st_commands st" "st_inbound (setMeta k v st) = st_inbound st"
  "st_defaultOfflineAllowanceBytes (setMeta k v st) = st_defaultOfflineAllowanceBytes st"
  "st_meta (setMeta k v st) = (st_meta st)(k \<mapsto> v)"
  by (simp_all add: setMeta_def)

lemma or_text_Some [simp]: "v \<noteq> [] \<Longrightarrow> or_text (Some v) d = v"
  by (simp add: or_text_def)

lemma or_text_None [simp]: "or_text None d = d"
  by (simp add: or_text_def)

lemma decimal_nonempty: "decimal_pattern s \<Longrightarrow> s \<noteq> []"
  by auto

lemmas store_view = store_wf_def batches_wf_def next_sequence_def getConfigRevision_def getMeta_def

lemma store_wf_setMeta_other:
  "k \<noteq> sequenceKey (st_bootId st) \<Longrightarrow> k \<noteq> ''config_revision'' \<Longrightarrow> store_wf (setMeta k v st) = store_wf st"
  by (simp add: store_view)

lemma sequenceKey_config [simp]:
  "sequenceKey b \<noteq> ''config_revision''" "''config_revision'' \<noteq> sequenceKey b"
  by (simp_all add: sequenceKey_def)

lemma store_wf_setMeta_revision:
  "store_wf st \<Longrightarrow> decimal_pattern v \<Longrightarrow> store_wf (setMeta ''config_revision'' v st)"
  by (simp add: store_view decimal_nonempty)

lemma store_wf_users: "store_wf st \<Longrightarrow> users_wf rows \<Longrightarrow> store_wf (st\<lparr>st_users := rows\<rparr>)"
  by (simp add: store_view)

lemma users_wf_tmodify:
  assumes "users_wf rows"
    and "\<And>r. r \<in> set rows \<Longrightarrow> p r \<Longrightarrow> row_wf (f r)"
    and "\<And>r. ur_binding_id (f r) = ur_binding_id r" and "\<And>r. ur_email (f r) = ur_email r"
  shows "users_wf (tmodify p f rows)"
  using assms by (auto simp: users_wf_def list_all_iff map_key_tmodify)

lemma users_wf_tdelete: "users_wf rows \<Longrightarrow> users_wf (tdelete p rows)"
  by (auto simp: users_wf_def list_all_iff distinct_tdelete)

lemma upsertRow_wf:
  assumes wf: "users_wf rows" and up: "upsertRow now user v q a rows = Inr rows'"
    and dec: "decimal_pattern v" "decimal_pattern q" "decimal_pattern a"
  shows "users_wf rows'"
proof (cases "\<exists>r \<in> set rows. ur_binding_id r = du_bindingId user")
  case False
  with up obtain n where "rows' = rows @ [n]" and "row_wf n"
    and "ur_binding_id n = du_bindingId user" and "ur_email n = du_email user"
    and "\<forall>r \<in> set rows. ur_email r \<noteq> du_email user"
    using dec by (fastforce simp: upsertRow_def row_wf_def split: if_splits)
  with wf False show ?thesis by (auto simp: users_wf_def image_iff)
next
  case True
  let ?p = "\<lambda>r. ur_binding_id r = du_bindingId user"
  from True up obtain f where rows': "rows' = tmodify ?p f rows"
    and f: "\<And>r. ur_binding_id (f r) = ur_binding_id r" "\<And>r. ur_email (f r) = du_email user"
      "\<And>r. row_wf r \<Longrightarrow> row_wf (f r)"
    and free: "\<And>r. r \<in> set rows \<Longrightarrow> ur_email r = du_email user \<Longrightarrow> ?p r"
    using dec by (fastforce simp: upsertRow_def row_wf_def split: if_splits)
  have "distinct (map ur_email rows')"
    unfolding rows' using wf f(2) free
  proof (induction rows)
    case Nil
    then show ?case by simp
  next
    case (Cons r rows)
    then show ?case
      by (fastforce simp: users_wf_def tmodify_def image_iff)
  qed
  then show ?thesis
    using wf f unfolding rows' by (auto simp: users_wf_def list_all_iff map_key_tmodify)
qed

lemma upsertDesiredUser_Inr:
  assumes "upsertDesiredUser now user st = Inr st'"
  obtains "st' = st"
  | rows q a where "decimal_pattern (du_revision user)" and "decimal_pattern q" and "decimal_pattern a"
      and "upsertRow now user (du_revision user) q a (st_users st) = Inr rows"
      and "st' = st\<lparr>st_users := rows\<rparr>"
      and "\<And>r. getUserByBindingId st (du_bindingId user) = Some r \<Longrightarrow> decimal_pattern (ur_revision r)
             \<Longrightarrow> dec_val (ur_revision r) < dec_val (du_revision user)"
proof -
  let ?allowance = "if du_offlineAllowanceBytes user = []
      then bigint_toString (st_defaultOfflineAllowanceBytes st) else du_offlineAllowanceBytes user"
  from assms obtain stale where v: "decimal_pattern (du_revision user)"
    and stale: "(case getUserByBindingId st (du_bindingId user) of
              None \<Rightarrow> Inr False
            | Some current \<Rightarrow> rbind (bigInt (ur_revision current)) (\<lambda>a.
                rbind (bigInt (du_revision user)) (\<lambda>b. Inr (a \<ge> b)))) = Inr stale"
    and wr: "(if stale then Inr st
      else rbind (decimal (du_quotaRemainingBytes user)) (\<lambda>quota.
        rbind (decimal ?allowance) (\<lambda>allowance.
        rbind (upsertRow now user (du_revision user) quota allowance (st_users st)) (\<lambda>rows.
        Inr (st\<lparr>st_users := rows\<rparr>))))) = Inr st'"
    by (simp only: upsertDesiredUser_def result_simps decimal_eq_Inr) blast
  from wr have rest: "stale \<and> st' = st \<or> \<not> stale \<and> (\<exists>q a rows. decimal_pattern q \<and> decimal_pattern a
        \<and> upsertRow now user (du_revision user) q a (st_users st) = Inr rows
        \<and> st' = st\<lparr>st_users := rows\<rparr>)"
    by (cases stale) (simp_all only: result_simps decimal_eq_Inr if_True if_False, blast+)
  have "dec_val (ur_revision r) < dec_val (du_revision user)"
    if "\<not> stale" "getUserByBindingId st (du_bindingId user) = Some r" "decimal_pattern (ur_revision r)" for r
    using that stale v by auto
  with rest v that show thesis by blast
qed

lemma store_wfD: "store_wf st \<Longrightarrow> users_wf (st_users st)"
  by (simp add: store_wf_def)

lemma upsertDesiredUser_wf:
  "store_wf st \<Longrightarrow> upsertDesiredUser now user st = Inr st' \<Longrightarrow> store_wf st'"
  by (elim upsertDesiredUser_Inr) (auto intro: store_wf_users upsertRow_wf store_wfD)

text \<open>A column update that keeps rows well formed and leaves the keys alone.\<close>

lemma store_wf_tmodify:
  assumes "store_wf st" and "\<And>r. row_wf r \<Longrightarrow> row_wf (f r)"
    and "\<And>r. ur_binding_id (f r) = ur_binding_id r" and "\<And>r. ur_email (f r) = ur_email r"
  shows "store_wf (st\<lparr>st_users := tmodify p f (st_users st)\<rparr>)"
  using assms by (intro store_wf_users users_wf_tmodify) (auto dest: store_wfD users_wf_row)

lemma replaceDesiredUsers_wf:
  assumes "store_wf st" and "replaceDesiredUsers now users v st = Inr st'"
  shows "store_wf st'"
proof -
  from assms(2) obtain u where u: "foldR (upsertDesiredUser now) users st = Inr u"
    and st': "st' = setMeta ''config_revision'' v
      (u\<lparr>st_users := tdelete (\<lambda>r. ur_binding_id r \<notin> du_bindingId ` set users) (st_users u)\<rparr>)"
    and v: "decimal_pattern v"
    by (auto simp: replaceDesiredUsers_def result_simps decimal_eq_Inr Let_def)
  from u assms(1) have "store_wf u"
    by (rule foldR_invariant [where I = store_wf]) (auto intro: upsertDesiredUser_wf)
  with v show ?thesis
    unfolding st'
    by (intro store_wf_setMeta_revision store_wf_users) (auto simp: store_wf_def intro: users_wf_tdelete)
qed

lemma applyConfigSnapshot_wf:
  "store_wf st \<Longrightarrow> applyConfigSnapshot now snap st = Inr (b, st') \<Longrightarrow> store_wf st'"
  by (auto simp: applyConfigSnapshot_def result_simps decimal_eq_Inr store_wf_setMeta_other sequenceKey_def
      split: if_splits intro!: store_wf_setMeta_revision dest: replaceDesiredUsers_wf)

lemma advanceConfigRevision_wf:
  "store_wf st \<Longrightarrow> advanceConfigRevision v st = Inr st' \<Longrightarrow> store_wf st'"
  by (auto simp: advanceConfigRevision_def result_simps decimal_eq_Inr split: if_splits
      intro: store_wf_setMeta_revision)

lemma revision_guard_Some:
  "revision_guard st b v = Inr (Some w) \<Longrightarrow> w = v \<and> decimal_pattern v"
  by (auto simp: revision_guard_def result_simps decimal_eq_Inr split: option.splits if_splits)

lemma updateQuota_Inr:
  assumes "updateQuota now b q v st = Inr st'"
  obtains "st' = st"
  | "decimal_pattern q" and "decimal_pattern v" and "revision_guard st b v = Inr (Some v)"
    and "st' = st\<lparr>st_users := tmodify (\<lambda>r. ur_binding_id r = b)
       (\<lambda>r. r\<lparr>ur_quota_remaining := q, ur_revision := v, ur_offline_used := ''0'',
          ur_updated_at := now\<rparr>) (st_users st)\<rparr>"
proof -
  from assms obtain go where go: "revision_guard st b v = Inr go"
    by (auto simp: updateQuota_def result_simps)
  show thesis
  proof (cases go)
    case None
    with go assms that(1) show ?thesis by (simp add: updateQuota_def)
  next
    case (Some w)
    with go have "w = v" "decimal_pattern v" by (auto dest: revision_guard_Some)
    with go Some assms that(2) show ?thesis
      by (simp add: updateQuota_def result_simps decimal_eq_Inr)
  qed
qed

lemma setUserEnabled_Inr:
  assumes "setUserEnabled now b e v st = Inr st'"
  obtains "st' = st"
  | "decimal_pattern v" and "revision_guard st b v = Inr (Some v)"
    and "st' = st\<lparr>st_users := tmodify (\<lambda>r. ur_binding_id r = b)
       (\<lambda>r. r\<lparr>ur_enabled := (if e then 1 else 0), ur_revision := v, ur_updated_at := now\<rparr>)
       (st_users st)\<rparr>"
proof -
  from assms obtain go where go: "revision_guard st b v = Inr go"
    by (auto simp: setUserEnabled_def result_simps)
  show thesis
  proof (cases go)
    case None
    with go assms that(1) show ?thesis by (simp add: setUserEnabled_def)
  next
    case (Some w)
    with go have "w = v" "decimal_pattern v" by (auto dest: revision_guard_Some)
    with go Some assms that(2) show ?thesis by (simp add: setUserEnabled_def)
  qed
qed

lemma updateQuota_wf: "store_wf st \<Longrightarrow> updateQuota now b q v st = Inr st' \<Longrightarrow> store_wf st'"
  by (elim updateQuota_Inr) (simp, hypsubst, rule store_wf_tmodify, simp_all add: row_wf_def)

lemma setUserEnabled_wf: "store_wf st \<Longrightarrow> setUserEnabled now b e v st = Inr st' \<Longrightarrow> store_wf st'"
  by (elim setUserEnabled_Inr) (simp, hypsubst, rule store_wf_tmodify, simp_all add: row_wf_def)

lemma restoreUser_Some:
  assumes "store_wf st" and "getUserByBindingId st (du_bindingId user) = Some row"
    and "restoreUser now user st = Inr st'"
  obtains q where "decimal_pattern (du_quotaRemainingBytes user)"
    and "q = min (dec_val (ur_quota_remaining row)) (dec_val (du_quotaRemainingBytes user))"
    and "st' = st\<lparr>st_users := tmodify (\<lambda>r. ur_binding_id r = du_bindingId user)
      (\<lambda>r. r\<lparr>ur_enabled := (if du_enabled user \<and> q > 0 then 1 else 0),
         ur_quota_remaining := show_nat q, ur_offline_used := ''0'', ur_updated_at := now\<rparr>)
      (st_users st)\<rparr>"
proof -
  from assms(1,2) have "row_wf row"
    by (auto simp: getUserByBindingId_def dest!: tfind_Some_in dest: store_wfD users_wf_row)
  then have q: "decimal_pattern (ur_quota_remaining row)" by (simp add: row_wf_def)
  have "decimal_pattern (du_quotaRemainingBytes user)"
    using assms(2,3) by (simp add: restoreUser_def result_simps decimal_eq_Inr Let_def) blast
  moreover have "min m n = (if m < n then m else n)" for m n :: nat by simp
  ultimately show thesis
    using assms(2,3) q
    by (intro that [OF _ refl])
      (auto simp: restoreUser_def Let_def bigint_toString_nonneg simp del: min_less_iff_conj)
qed

lemma restoreUser_wf:
  assumes "store_wf st" and "restoreUser now user st = Inr st'"
  shows "store_wf st'"
proof (cases "getUserByBindingId st (du_bindingId user)")
  case None
  with assms show ?thesis by (simp add: restoreUser_def)
next
  case (Some row)
  from assms(1) Some assms(2) show ?thesis
    by (rule restoreUser_Some) (auto simp: row_wf_def intro!: store_wf_tmodify assms(1))
qed

lemma setUserFlow_wf: "store_wf st \<Longrightarrow> store_wf (setUserFlow b f st)"
  unfolding setUserFlow_def by (intro store_wf_tmodify) (auto simp: row_wf_def)

lemma deleteUser_wf: "store_wf st \<Longrightarrow> store_wf (deleteUser b st)"
  unfolding deleteUser_def by (intro store_wf_users users_wf_tdelete) (auto dest: store_wfD)

section \<open>Sampling on a well-formed store\<close>

definition sampled_store :: "bool \<Rightarrow> string \<Rightarrow> AbsoluteCounter list \<Rightarrow> agent_store \<Rightarrow> agent_store" where
  "sampled_store online t cs st =
     (let st = st\<lparr>st_users := map (sampled_row online t cs) (st_users st)\<rparr>
      in if cs \<noteq> [] then setMeta (baselineKey (st_bootId st)) ''1'' st else st)"

definition sample_batch :: "string \<Rightarrow> AbsoluteCounter list \<Rightarrow> agent_store \<Rightarrow> UsageBatch" where
  "sample_batch t cs st = \<lparr>ub_bootId = st_bootId st, ub_sequence = next_sequence st,
     ub_sampledAt = t, ub_samples = List.map_filter (counter_sample (st_users st)) cs\<rparr>"

definition push_batch :: "UsageBatch \<Rightarrow> agent_store \<Rightarrow> agent_store" where
  "push_batch batch st = setMeta (sequenceKey (st_bootId st)) (show_nat (Suc (dec_val (next_sequence st))))
     (st\<lparr>st_batches := st_batches st @ [\<lparr>br_boot_id = ub_bootId batch,
        br_sequence = ub_sequence batch, br_sampled_at = ub_sampledAt batch, br_payload = batch\<rparr>]\<rparr>)"

lemma baselineKey_other [simp]:
  "baselineKey b \<noteq> sequenceKey c" "sequenceKey c \<noteq> baselineKey b"
  "baselineKey b \<noteq> ''config_revision''" "''config_revision'' \<noteq> baselineKey b"
  by (simp_all add: sequenceKey_def baselineKey_def)

lemma sampled_store_sel [simp]:
  "st_bootId (sampled_store online t cs st) = st_bootId st"
  "st_batches (sampled_store online t cs st) = st_batches st"
  "st_users (sampled_store online t cs st) = map (sampled_row online t cs) (st_users st)"
  "getMeta (sampled_store online t cs st) (sequenceKey b) = getMeta st (sequenceKey b)"
  "next_sequence (sampled_store online t cs st) = next_sequence st"
  by (simp_all add: sampled_store_def Let_def getMeta_def next_sequence_def)

lemma sampled_store_wf: "store_wf st \<Longrightarrow> store_wf (sampled_store online t cs st)"
  by (auto simp: sampled_store_def Let_def store_wf_setMeta_other intro!: store_wf_users dest: store_wfD)

text \<open>Sampling is total on a well-formed store and computes the reference sample.\<close>

lemma recordSample_eq:
  assumes wf: "store_wf st" and cs: "counters_wf cs"
  shows "recordSample cs t online st = Inr
    (if ub_samples (sample_batch t cs st) = []
     then (\<lparr>sr_batch = None,
             sr_disableEmails = List.map_filter (counter_disables online (st_users st)) cs\<rparr>,
           sampled_store online t cs st)
     else (\<lparr>sr_batch = Some (sample_batch t cs st),
             sr_disableEmails = List.map_filter (counter_disables online (st_users st)) cs\<rparr>,
           push_batch (sample_batch t cs st) (sampled_store online t cs st)))"
proof -
  have "\<not> (\<exists>b \<in> set (st_batches st). br_boot_id b = st_bootId st \<and> br_sequence b = next_sequence st)"
    using wf by (auto simp: store_wf_def batches_wf_def list_all_iff)
  moreover have "decimal_pattern (next_sequence st)"
    using wf by (simp add: store_wf_def batches_wf_def)
  ultimately show ?thesis
    using sample_loop_eq [OF store_wfD [OF wf], of cs online t "[]" "[]"] cs
    by (auto simp: recordSample_def counters_wf_def sample_batch_def sampled_store_def push_batch_def
        Let_def insertBatch_def getMeta_def next_sequence_def bigint_toString_nonneg
        show_nat_dec_val nat_add_distrib setMeta_def)
qed

lemma recordSample_total:
  "store_wf st \<Longrightarrow> counters_wf cs \<Longrightarrow> \<exists>res st'. recordSample cs t online st = Inr (res, st')"
  by (simp add: recordSample_eq)

lemma push_batch_wf:
  assumes wf: "store_wf st" and b: "ub_bootId batch = st_bootId st" "ub_sequence batch = next_sequence st"
  shows "store_wf (push_batch batch st)"
proof -
  have d: "decimal_pattern (next_sequence st)" using wf by (simp add: store_wf_def batches_wf_def)
  have n: "next_sequence (push_batch batch st) = show_nat (Suc (dec_val (next_sequence st)))"
    by (simp add: push_batch_def next_sequence_def getMeta_def)
  have "batches_wf (push_batch batch st)"
    unfolding batches_wf_def n using wf b d
    by (auto simp: push_batch_def store_wf_def batches_wf_def list_all_iff)
  moreover have "getConfigRevision (push_batch batch st) = getConfigRevision st"
    by (simp add: push_batch_def getConfigRevision_def getMeta_def)
  ultimately show ?thesis using wf by (simp add: store_wf_def push_batch_def)
qed

lemma recordSample_wf:
  assumes "store_wf st" and "counters_wf cs" and "recordSample cs t online st = Inr (res, st')"
  shows "store_wf st'"
  using assms(3) unfolding recordSample_eq [OF assms(1,2)]
  by (auto simp: sample_batch_def split: if_splits
      intro!: push_batch_wf sampled_store_wf assms(1))

section \<open>Acknowledgement\<close>

definition acked :: "string \<Rightarrow> nat \<Rightarrow> BatchRow \<Rightarrow> bool" where
  "acked boot n b \<longleftrightarrow> br_boot_id b = boot \<and> dec_val (br_sequence b) \<le> n"

lemma length_filter_split:
  "length (filter p xs) + length (filter q (filter (\<lambda>x. \<not> p x) xs)) = length (filter (\<lambda>x. p x \<or> q x) xs)"
  by (induction xs) auto

lemma ack_loop_eq:
  assumes "list_all (\<lambda>b. decimal_pattern (br_sequence b)) rows"
  shows "foldR (\<lambda>row (count, batches).
      rbind (bigInt (br_sequence row)) (\<lambda>sequence.
      if sequence \<le> int n
      then let gone = (\<lambda>b. br_boot_id b = boot \<and> br_sequence b = br_sequence row)
           in Inr (count + length (filter gone batches), tdelete gone batches)
      else Inr (count, batches))) rows (c, bs)
    = Inr (c + length (filter (\<lambda>b. br_boot_id b = boot \<and>
              (\<exists>r \<in> set rows. br_sequence b = br_sequence r \<and> dec_val (br_sequence r) \<le> n)) bs),
           tdelete (\<lambda>b. br_boot_id b = boot \<and>
              (\<exists>r \<in> set rows. br_sequence b = br_sequence r \<and> dec_val (br_sequence r) \<le> n)) bs)"
  using assms
proof (induction rows arbitrary: c bs)
  case Nil
  then show ?case by (simp add: tdelete_def)
next
  case (Cons row rows)
  then have d: "decimal_pattern (br_sequence row)" by simp
  show ?case
  proof (cases "dec_val (br_sequence row) \<le> n")
    case False
    with Cons d show ?thesis by (auto simp: tdelete_def intro!: arg_cong [where f = length] filter_cong)
  next
    case True
    let ?gone = "\<lambda>b. br_boot_id b = boot \<and> br_sequence b = br_sequence row"
    let ?rest = "\<lambda>b. br_boot_id b = boot \<and>
        (\<exists>r \<in> set rows. br_sequence b = br_sequence r \<and> dec_val (br_sequence r) \<le> n)"
    have all: "(\<lambda>b. br_boot_id b = boot \<and> (\<exists>r \<in> set (row # rows). br_sequence b = br_sequence r
        \<and> dec_val (br_sequence r) \<le> n)) = (\<lambda>b. ?gone b \<or> ?rest b)"
      using True by auto
    have "tdelete ?rest (tdelete ?gone bs) = tdelete (\<lambda>b. ?gone b \<or> ?rest b) bs"
      by (auto simp: tdelete_def intro!: filter_cong)
    then show ?thesis
      unfolding all using Cons d True length_filter_split [of ?gone bs ?rest]
      by (simp add: Let_def tdelete_def)
  qed
qed

lemma ackThrough_eq:
  assumes wf: "store_wf st" and ack: "decimal_pattern ack"
  shows "ackThrough boot ack st = Inr (length (filter (acked boot (dec_val ack)) (st_batches st)),
    st\<lparr>st_batches := tdelete (acked boot (dec_val ack)) (st_batches st)\<rparr>)"
proof -
  let ?rows = "filter (\<lambda>b. br_boot_id b = boot) (st_batches st)"
  let ?gone = "\<lambda>b. br_boot_id b = boot \<and> (\<exists>r \<in> set ?rows. br_sequence b = br_sequence r
      \<and> dec_val (br_sequence r) \<le> dec_val ack)"
  have d: "list_all (\<lambda>b. decimal_pattern (br_sequence b)) ?rows"
    using wf by (auto simp: store_wf_def batches_wf_def list_all_iff)
  have "?gone b = acked boot (dec_val ack) b" if "b \<in> set (st_batches st)" for b
    using that by (auto simp: acked_def)
  then have "filter ?gone (st_batches st) = filter (acked boot (dec_val ack)) (st_batches st)"
    and "tdelete ?gone (st_batches st) = tdelete (acked boot (dec_val ack)) (st_batches st)"
    unfolding tdelete_def by (auto intro!: filter_cong)
  then show ?thesis
    using ack ack_loop_eq [OF d, of "dec_val ack" boot 0 "st_batches st"]
    by (simp add: ackThrough_def)
qed

lemma ackThrough_Inr:
  "ackThrough boot ack st = Inr r \<Longrightarrow> decimal_pattern ack"
  by (auto simp: ackThrough_def result_simps decimal_eq_Inr)

lemma distinct_map_filter: "distinct (map f xs) \<Longrightarrow> distinct (map f (filter p xs))"
  by (induction xs) auto

lemma store_wf_batches:
  "store_wf st \<Longrightarrow> store_wf (st\<lparr>st_batches := tdelete p (st_batches st)\<rparr>)"
  by (auto simp: store_view list_all_iff tdelete_def distinct_map_filter)

lemma ackThrough_wf:
  assumes "store_wf st" and "ackThrough boot ack st = Inr (n, st')"
  shows "store_wf st'"
  using assms(2) ackThrough_eq [OF assms(1) ackThrough_Inr [OF assms(2)], of boot] assms(1)
  by (auto intro: store_wf_batches)

lemma restoreBackendConfirmedUsers_wf:
  "store_wf st \<Longrightarrow> restoreBackendConfirmedUsers now users st = Inr st' \<Longrightarrow> store_wf st'"
  unfolding restoreBackendConfirmedUsers_def
  by (rule foldR_invariant [where I = store_wf]) (auto intro: restoreUser_wf)

lemma store_wf_inbound [simp]: "store_wf (st\<lparr>st_inbound := i\<rparr>) = store_wf st"
  by (simp add: store_view)

lemma store_wf_commands [simp]: "store_wf (st\<lparr>st_commands := c\<rparr>) = store_wf st"
  by (simp add: store_view)

lemma beginCommand_commands:
  "beginCommand cmd st = Inr (prev, st') \<Longrightarrow> \<exists>c. st' = st\<lparr>st_commands := c\<rparr>"
  by (cases st) (auto simp: beginCommand_def result_simps split: option.splits if_splits)

lemma beginCommand_wf: "store_wf st \<Longrightarrow> beginCommand cmd st = Inr (prev, st') \<Longrightarrow> store_wf st'"
  by (auto dest!: beginCommand_commands)

lemma setInboundAwaiting_wf [simp]: "store_wf (setInboundAwaiting w st) = store_wf st"
  by (auto simp: setInboundAwaiting_def store_wf_setMeta_other sequenceKey_def)
    (auto simp: deleteMeta_def store_view sequenceKey_def)

lemma store_step_wf: "store_step st st' \<Longrightarrow> store_wf st \<Longrightarrow> store_wf st'"
  by (induction rule: store_step.induct)
    (auto intro: upsertDesiredUser_wf setUserFlow_wf deleteUser_wf updateQuota_wf setUserEnabled_wf
      advanceConfigRevision_wf applyConfigSnapshot_wf restoreBackendConfirmedUsers_wf
      recordSample_wf ackThrough_wf beginCommand_wf
      simp: setInboundState_def clearInboundState_def completeCommand_def)

lemma initializeBoot_wf:
  "users_wf (st_users st) \<Longrightarrow> st_batches st = [] \<Longrightarrow> st_meta st (sequenceKey (st_bootId st)) = None \<Longrightarrow>
   decimal_pattern (getConfigRevision st) \<Longrightarrow> 0 \<le> st_defaultOfflineAllowanceBytes st \<Longrightarrow>
   store_wf (initializeBoot (st_bootId st) st)"
  by (auto simp: initializeBoot_def Let_def store_view sequenceKey_def is_digit_def)

lemma newAgentStore_empty_wf:
  assumes "newAgentStore opts empty_tables = Inr st" and "0 \<le> so_defaultOfflineAllowanceBytes opts"
  shows "store_wf st"
proof -
  let ?st = "setMeta ''node_id'' (so_nodeId opts) (with_options opts empty_tables)"
  from assms(1) have "st = initializeBoot (st_bootId ?st) ?st"
    by (auto simp: newAgentStore_def assertOwnIdentity_def Let_def with_options_def empty_tables_def
        getMeta_def or_text_def split: if_splits)
  moreover have "store_wf (initializeBoot (st_bootId ?st) ?st)"
    by (rule initializeBoot_wf)
      (use assms(2) in \<open>simp_all add: with_options_def empty_tables_def users_wf_def
        sequenceKey_def getConfigRevision_def getMeta_def\<close>)
  ultimately show ?thesis by simp
qed

lemma store_reachable_wf_lemma:
  "store_reachable opts st \<Longrightarrow> 0 \<le> so_defaultOfflineAllowanceBytes opts \<Longrightarrow> store_wf st"
  by (induction rule: store_reachable.induct) (auto intro: newAgentStore_empty_wf store_step_wf)

section \<open>What no step changes\<close>

text \<open>The options of an open store are fixed, and sequence numbers only grow.\<close>

definition seq_mono :: "agent_store \<Rightarrow> agent_store \<Rightarrow> bool" where
  "seq_mono st st' \<longleftrightarrow> st_bootId st' = st_bootId st \<and> st_nodeId st' = st_nodeId st
     \<and> dec_val (next_sequence st) \<le> dec_val (next_sequence st')"

lemma seq_mono_refl [simp]: "seq_mono st st"
  by (simp add: seq_mono_def)

lemma seq_mono_trans [trans]: "seq_mono a b \<Longrightarrow> seq_mono b c \<Longrightarrow> seq_mono a c"
  by (auto simp: seq_mono_def)

lemma seq_mono_fields [simp]:
  "seq_mono st (st\<lparr>st_users := u\<rparr>)" "seq_mono st (st\<lparr>st_batches := b\<rparr>)"
  "seq_mono st (st\<lparr>st_commands := c\<rparr>)" "seq_mono st (st\<lparr>st_inbound := i\<rparr>)"
  by (simp_all add: seq_mono_def next_sequence_def getMeta_def)

lemma seq_mono_setMeta: "k \<noteq> sequenceKey (st_bootId st) \<Longrightarrow> seq_mono st (setMeta k v st)"
  by (simp add: seq_mono_def next_sequence_def getMeta_def)

lemma seq_mono_setMeta_after:
  "seq_mono st u \<Longrightarrow> k \<noteq> sequenceKey (st_bootId u) \<Longrightarrow> seq_mono st (setMeta k v u)"
  by (rule seq_mono_trans [OF _ seq_mono_setMeta])

lemma seq_mono_upsert: "upsertDesiredUser now user st = Inr st' \<Longrightarrow> seq_mono st st'"
  by (elim upsertDesiredUser_Inr) auto

lemma seq_mono_foldR:
  assumes "foldR f xs st = Inr st'" and "\<And>x s t. f x s = Inr t \<Longrightarrow> seq_mono s t"
  shows "seq_mono st st'"
  by (rule foldR_invariant [where I = "seq_mono st", OF assms(1)])
    (auto intro: seq_mono_trans assms(2))

lemma seq_mono_replace: 
  assumes "replaceDesiredUsers now users v st = Inr st'"
  shows "seq_mono st st'"
proof -
  from assms obtain u where u: "foldR (upsertDesiredUser now) users st = Inr u"
    and st': "st' = setMeta ''config_revision'' v
      (u\<lparr>st_users := tdelete (\<lambda>r. ur_binding_id r \<notin> du_bindingId ` set users) (st_users u)\<rparr>)"
    by (auto simp: replaceDesiredUsers_def result_simps decimal_eq_Inr Let_def)
  have "seq_mono st u" using u seq_mono_upsert by (rule seq_mono_foldR)
  also have "seq_mono u (u\<lparr>st_users := tdelete (\<lambda>r. ur_binding_id r \<notin> du_bindingId ` set users) (st_users u)\<rparr>)"
    by simp
  also have "seq_mono \<dots> st'" unfolding st' by (rule seq_mono_setMeta) simp
  finally show ?thesis .
qed

lemma seq_mono_restore: "restoreUser now user st = Inr st' \<Longrightarrow> seq_mono st st'"
  by (auto simp: restoreUser_def result_simps Let_def split: option.splits)

lemma seq_mono_sample:
  assumes "store_wf st" and "counters_wf cs" and "recordSample cs t online st = Inr (res, st')"
  shows "seq_mono st st'"
  using assms(3) unfolding recordSample_eq [OF assms(1,2)]
  by (auto simp: seq_mono_def push_batch_def next_sequence_def getMeta_def sampled_store_def Let_def
      split: if_splits)

lemma store_step_seq_mono: "store_step st st' \<Longrightarrow> store_wf st \<Longrightarrow> seq_mono st st'"
proof (induction rule: store_step.induct)
  case (snapshot now snap st applied st')
  then show ?case
    by (auto simp: applyConfigSnapshot_def result_simps sequenceKey_def split: if_splits
        intro!: seq_mono_setMeta_after dest!: seq_mono_replace)
next
  case (restore now users st st')
  then have "foldR (restoreUser now) users st = Inr st'"
    by (simp add: restoreBackendConfirmedUsers_def)
  then show ?case by (rule seq_mono_foldR) (rule seq_mono_restore)
next
  case (ack boot n st count st')
  then show ?case using ackThrough_eq [OF ack(2) ackThrough_Inr [OF ack(1)], of boot] by auto
next
  case (awaiting st w)
  then show ?case
    by (auto simp: setInboundAwaiting_def sequenceKey_def intro!: seq_mono_setMeta)
      (simp add: seq_mono_def deleteMeta_def next_sequence_def getMeta_def sequenceKey_def)
qed (auto simp: setUserFlow_def deleteUser_def advanceConfigRevision_def result_simps
    setInboundState_def clearInboundState_def completeCommand_def
    elim!: updateQuota_Inr setUserEnabled_Inr intro: seq_mono_upsert seq_mono_sample intro!: seq_mono_setMeta
    dest!: beginCommand_commands)

lemma store_steps:
  assumes "store_step\<^sup>*\<^sup>* st st'" and "store_wf st"
  shows "store_wf st' \<and> seq_mono st st'"
  using assms
  by (induction rule: rtranclp_induct) (auto intro: store_step_wf store_step_seq_mono seq_mono_trans)

section \<open>Revisions never go back\<close>

text \<open>
  \<open>grown\<close>: every binding is still there, at the same or a later revision.  Operations that
  delete rows keep the weaker \<open>revisions_kept\<close>: a binding present before and after
  has not lost revisions.
\<close>

definition grown :: "UserRow list \<Rightarrow> UserRow list \<Rightarrow> bool" where
  "grown rows rows' \<longleftrightarrow> (\<forall>r \<in> set rows. \<exists>r' \<in> set rows'. ur_binding_id r' = ur_binding_id r
     \<and> dec_val (ur_revision r) \<le> dec_val (ur_revision r'))"

definition revisions_kept :: "UserRow list \<Rightarrow> UserRow list \<Rightarrow> bool" where
  "revisions_kept rows rows' \<longleftrightarrow> (\<forall>r \<in> set rows. \<forall>r' \<in> set rows'. ur_binding_id r = ur_binding_id r' \<longrightarrow>
     dec_val (ur_revision r) \<le> dec_val (ur_revision r'))"

lemma grown_refl [simp]: "grown rows rows"
  by (auto simp: grown_def)

lemma grown_trans: "grown a b \<Longrightarrow> grown b c \<Longrightarrow> grown a c"
  unfolding grown_def by (metis order_trans)

lemma grown_append [simp]: "grown rows (rows @ rows2)"
  by (auto simp: grown_def)

lemma grown_tmodify:
  assumes "\<And>r. ur_binding_id (f r) = ur_binding_id r"
    and "\<And>r. r \<in> set rows \<Longrightarrow> p r \<Longrightarrow> dec_val (ur_revision r) \<le> dec_val (ur_revision (f r))"
  shows "grown rows (tmodify p f rows)"
  unfolding grown_def
proof
  fix r assume "r \<in> set rows"
  with assms show "\<exists>r' \<in> set (tmodify p f rows). ur_binding_id r' = ur_binding_id r
      \<and> dec_val (ur_revision r) \<le> dec_val (ur_revision r')"
    by (intro bexI [of _ "if p r then f r else r"]) (auto simp: tmodify_def)
qed

lemma grown_map:
  "(\<And>r. ur_binding_id (f r) = ur_binding_id r) \<Longrightarrow> (\<And>r. ur_revision (f r) = ur_revision r) \<Longrightarrow>
   grown rows (map f rows)"
  by (auto simp: grown_def)

lemma grown_kept:
  assumes "grown rows rows'" and "users_wf rows'" and "set rows'' \<subseteq> set rows'"
  shows "revisions_kept rows rows''"
  using assms distinct_map_eq [of ur_binding_id rows']
  unfolding grown_def revisions_kept_def users_wf_def by (metis subsetD)

lemma revisions_kept_refl: "store_wf st \<Longrightarrow> revisions_kept (st_users st) (st_users st)"
  by (rule grown_kept [OF grown_refl store_wfD order_refl])

lemma unique_binding:
  assumes "users_wf (st_users st)" and "r \<in> set (st_users st)"
  shows "getUserByBindingId st (ur_binding_id r) = Some r"
  using assms tfind_distinct [of ur_binding_id "st_users st" r]
  by (simp add: getUserByBindingId_def users_wf_def)

lemma revision_guard_le:
  assumes "users_wf (st_users st)" and "revision_guard st (ur_binding_id r) v = Inr (Some v)"
    and "r \<in> set (st_users st)"
  shows "dec_val (ur_revision r) \<le> dec_val v"
  using assms(2) unique_binding [OF assms(1,3)] users_wf_row [OF assms(1,3)]
    revision_guard_Some [OF assms(2)]
  by (auto simp: revision_guard_def row_wf_def split: if_splits)

lemma updateQuota_grown:
  "store_wf st \<Longrightarrow> updateQuota now b q v st = Inr st' \<Longrightarrow> grown (st_users st) (st_users st')"
  by (elim updateQuota_Inr) (auto intro!: grown_tmodify revision_guard_le dest: store_wfD)

lemma setUserEnabled_grown:
  "store_wf st \<Longrightarrow> setUserEnabled now b e v st = Inr st' \<Longrightarrow> grown (st_users st) (st_users st')"
  by (elim setUserEnabled_Inr) (auto intro!: grown_tmodify revision_guard_le dest: store_wfD)

lemma upsert_grown:
  assumes wf: "store_wf st" and up: "upsertDesiredUser now user st = Inr st'"
  shows "grown (st_users st) (st_users st')"
  using up
proof (cases rule: upsertDesiredUser_Inr)
  case (2 rows q a)
  have "dec_val (ur_revision r) \<le> dec_val (du_revision user)"
    if "r \<in> set (st_users st)" "ur_binding_id r = du_bindingId user" for r
    using that unique_binding [OF store_wfD [OF wf] that(1)]
      users_wf_row [OF store_wfD [OF wf] that(1)] 2(6)
    by (force simp: row_wf_def)
  with 2(4,5) show ?thesis
    by (auto simp: upsertRow_def intro!: grown_tmodify split: if_splits)
qed simp

lemma upserts_grown:
  assumes "foldR (upsertDesiredUser now) users st = Inr u" and "store_wf st"
  shows "store_wf u \<and> grown (st_users st) (st_users u)"
  by (rule foldR_invariant [where I = "\<lambda>u. store_wf u \<and> grown (st_users st) (st_users u)", OF assms(1)])
    (auto intro: upsertDesiredUser_wf upsert_grown grown_trans assms(2))

lemma replace_kept:
  assumes "replaceDesiredUsers now users v st = Inr st'" and "store_wf st"
  shows "revisions_kept (st_users st) (st_users st')"
proof -
  from assms(1) obtain u where u: "foldR (upsertDesiredUser now) users st = Inr u"
    and st': "st_users st' = tdelete (\<lambda>r. ur_binding_id r \<notin> du_bindingId ` set users) (st_users u)"
    by (auto simp: replaceDesiredUsers_def result_simps Let_def)
  from upserts_grown [OF u assms(2)] show ?thesis
    unfolding st' by (intro grown_kept [where rows' = "st_users u"]) (auto dest: store_wfD)
qed

lemma restore_grown:
  assumes "restoreUser now user st = Inr st'"
  shows "grown (st_users st) (st_users st')"
  using assms
  by (auto simp: restoreUser_def result_simps Let_def intro!: grown_tmodify split: option.splits)

lemma restores_grown:
  assumes "foldR (restoreUser now) users st = Inr st'"
  shows "grown (st_users st) (st_users st')"
  by (rule foldR_invariant [where I = "\<lambda>u. grown (st_users st) (st_users u)", OF assms])
    (auto intro: restore_grown grown_trans)

lemma store_step_kept:
  assumes step: "store_step st st'" and wf: "store_wf st"
  shows "revisions_kept (st_users st) (st_users st')"
proof -
  have wf': "users_wf (st_users st')" using store_step_wf [OF step wf] by (rule store_wfD)
  have grown: ?thesis if "grown (st_users st) (st_users st')"
    using that wf' by (rule grown_kept) simp
  from step wf show ?thesis
  proof cases
    case (snapshot now snap applied)
    then show ?thesis
      using revisions_kept_refl [OF wf]
      by (auto simp: applyConfigSnapshot_def result_simps split: if_splits
          dest!: replace_kept [OF _ wf])
  next
    case (delete b)
    then show ?thesis by (auto simp: deleteUser_def intro: grown_kept [OF grown_refl store_wfD [OF wf]])
  next
    case (sample cs t online res)
    then show ?thesis
      using recordSample_eq [OF wf sample(1), of t online]
      by (intro grown) (auto simp: push_batch_def intro!: grown_map split: if_splits)
  next
    case (restore now users)
    then show ?thesis by (auto simp: restoreBackendConfirmedUsers_def intro: grown restores_grown)
  next
    case (quota now b q v)
    then show ?thesis by (intro grown updateQuota_grown [OF wf])
  next
    case (enable now b e v)
    then show ?thesis by (intro grown setUserEnabled_grown [OF wf])
  next
    case (upsert now user)
    then show ?thesis by (intro grown upsert_grown [OF wf])
  next
    case (flow b f)
    then show ?thesis by (intro grown) (auto simp: setUserFlow_def intro!: grown_tmodify)
  next
    case (ack boot n count)
    then show ?thesis
      by (auto simp: ackThrough_def result_simps revisions_kept_refl [OF wf])
  qed (auto simp: revisions_kept_refl [OF wf] advanceConfigRevision_def result_simps setInboundState_def
      clearInboundState_def setInboundAwaiting_def deleteMeta_def completeCommand_def
      dest!: beginCommand_commands)
qed

section \<open>Snapshots\<close>

lemma upsert_bindings:
  assumes "upsertDesiredUser now user st = Inr st'"
  shows "ur_binding_id ` set (st_users st') = insert (du_bindingId user) (ur_binding_id ` set (st_users st))"
  using assms
proof (cases rule: upsertDesiredUser_Inr)
  case 1
  have "getUserByBindingId st (du_bindingId user) \<noteq> None"
  proof
    assume "getUserByBindingId st (du_bindingId user) = None"
    moreover from assms have "decimal_pattern (du_revision user)"
      by (auto simp: upsertDesiredUser_def result_simps decimal_eq_Inr)
    ultimately obtain q a rows where "upsertRow now user (du_revision user) q a (st_users st) = Inr rows"
      and "st' = st\<lparr>st_users := rows\<rparr>"
      using assms by (auto simp: upsertDesiredUser_def result_simps)
    with 1 \<open>getUserByBindingId st (du_bindingId user) = None\<close> show False
      by (cases st)
        (auto simp: upsertRow_def getUserByBindingId_def tfind_None_iff image_iff split: if_splits)
  qed
  then have "du_bindingId user \<in> ur_binding_id ` set (st_users st)"
    using tfind_None_iff [of ur_binding_id "du_bindingId user" "st_users st"]
    by (simp add: getUserByBindingId_def)
  with 1 show ?thesis by (simp add: insert_absorb)
next
  case (2 rows q a)
  show ?thesis
  proof (cases "\<exists>r \<in> set (st_users st). ur_binding_id r = du_bindingId user")
    case True
    with 2(4,5) have "map ur_binding_id (st_users st') = map ur_binding_id (st_users st)"
      by (auto simp: upsertRow_def map_key_tmodify split: if_splits)
    with True show ?thesis by (metis image_eqI insert_absorb list.set_map)
  next
    case False
    with 2(4,5) show ?thesis by (auto simp: upsertRow_def split: if_splits)
  qed
qed

lemma upserts_bindings:
  "foldR (upsertDesiredUser now) users st = Inr u \<Longrightarrow>
   ur_binding_id ` set (st_users u) = du_bindingId ` set users \<union> ur_binding_id ` set (st_users st)"
proof (induction users arbitrary: st)
  case Nil
  then show ?case by simp
next
  case (Cons user users)
  from Cons.prems obtain s where s: "upsertDesiredUser now user st = Inr s"
    "foldR (upsertDesiredUser now) users s = Inr u"
    by (auto simp: result_simps)
  with upsert_bindings [OF s(1)] Cons.IH [OF s(2)] show ?case by auto
qed

lemma replace_bindings:
  assumes "replaceDesiredUsers now users v st = Inr st'"
  shows "ur_binding_id ` set (st_users st') = du_bindingId ` set users" and "getConfigRevision st' = v"
proof -
  from assms obtain u where u: "foldR (upsertDesiredUser now) users st = Inr u"
    and v: "decimal_pattern v" and st': "st' = setMeta ''config_revision'' v
      (u\<lparr>st_users := tdelete (\<lambda>r. ur_binding_id r \<notin> du_bindingId ` set users) (st_users u)\<rparr>)"
    by (auto simp: replaceDesiredUsers_def result_simps decimal_eq_Inr Let_def)
  have "ur_binding_id ` set (st_users st') = ur_binding_id ` set (st_users u) \<inter> du_bindingId ` set users"
    by (auto simp: st')
  then show "ur_binding_id ` set (st_users st') = du_bindingId ` set users"
    using upserts_bindings [OF u] by auto
  show "getConfigRevision st' = v"
    using decimal_nonempty [OF v] by (simp add: st' getConfigRevision_def getMeta_def)
qed

section \<open>The command ledger\<close>

text \<open>Only the two ledger operations touch the ledger, and neither forgets a command.\<close>

definition has_command :: "string \<Rightarrow> agent_store \<Rightarrow> bool" where
  "has_command i st \<longleftrightarrow> i \<in> set (map cr_command_id (st_commands st))"

lemma foldR_commands:
  assumes "foldR f xs st = Inr st'" and "\<And>x s t. f x s = Inr t \<Longrightarrow> st_commands t = st_commands s"
  shows "st_commands st' = st_commands st"
  by (rule foldR_invariant [where I = "\<lambda>s. st_commands s = st_commands st", OF assms(1)])
    (auto dest: assms(2))

lemma upsert_commands: "upsertDesiredUser now user st = Inr st' \<Longrightarrow> st_commands st' = st_commands st"
  by (elim upsertDesiredUser_Inr) auto

lemma restore_commands: "restoreUser now user st = Inr st' \<Longrightarrow> st_commands st' = st_commands st"
  by (auto simp: restoreUser_def result_simps Let_def split: option.splits)

lemma replace_commands: "replaceDesiredUsers now users v st = Inr st' \<Longrightarrow> st_commands st' = st_commands st"
  by (auto simp: replaceDesiredUsers_def result_simps Let_def dest!: foldR_commands [OF _ upsert_commands])

lemma snapshot_commands:
  "applyConfigSnapshot now snap st = Inr (applied, st') \<Longrightarrow> st_commands st' = st_commands st"
  by (auto simp: applyConfigSnapshot_def result_simps split: if_splits dest!: replace_commands)

lemma sample_commands: "recordSample cs t online st = Inr (res, st') \<Longrightarrow> st_commands st' = st_commands st"
  by (auto simp: recordSample_def insertBatch_def result_simps Let_def split: if_splits)

lemma ack_commands: "ackThrough boot n st = Inr (count, st') \<Longrightarrow> st_commands st' = st_commands st"
  by (auto simp: ackThrough_def result_simps)

lemma begin_has_command: "beginCommand cmd st = Inr (prev, st') \<Longrightarrow> has_command i st \<Longrightarrow> has_command i st'"
  by (auto simp: beginCommand_def has_command_def result_simps map_key_tmodify simp del: set_map
      split: option.splits if_splits)

lemma complete_has_command [simp]: "has_command i (completeCommand now res st) = has_command i st"
  by (simp add: has_command_def completeCommand_def map_key_tmodify del: set_map)

lemma store_step_has_command: "store_step st st' \<Longrightarrow> has_command i st \<Longrightarrow> has_command i st'"
proof (induction rule: store_step.induct)
  case (restore now users st st')
  then have "st_commands st' = st_commands st"
    by (auto simp: restoreBackendConfirmedUsers_def dest!: foldR_commands [OF _ restore_commands])
  with restore show ?case by (simp add: has_command_def)
next
  case (begin_command cmd st prev st')
  then show ?case by (rule begin_has_command)
next
  case (complete_command st now res)
  then show ?case by simp
next
  case (quota now b q v st st')
  then show ?case by (elim updateQuota_Inr) (simp_all add: has_command_def)
next
  case (enable now b e v st st')
  then show ?case by (elim setUserEnabled_Inr) (simp_all add: has_command_def)
next
  case (upsert now user st st')
  then show ?case by (simp add: has_command_def upsert_commands)
next
  case (snapshot now snap st applied st')
  then show ?case by (simp add: has_command_def snapshot_commands)
next
  case (sample cs t online st res st')
  then show ?case by (simp add: has_command_def sample_commands)
next
  case (ack boot n st count st')
  then show ?case by (simp add: has_command_def ack_commands)
qed (auto simp: has_command_def setUserFlow_def deleteUser_def advanceConfigRevision_def result_simps
    setInboundState_def clearInboundState_def setInboundAwaiting_def deleteMeta_def split: if_splits)

lemma begin_adds_command: "beginCommand cmd st = Inr (prev, st') \<Longrightarrow> has_command (cmd_id cmd) st'"
proof -
  assume b: "beginCommand cmd st = Inr (prev, st')"
  show ?thesis
  proof (cases "tfind cr_command_id (cmd_id cmd) (st_commands st)")
    case None
    with b show ?thesis by (auto simp: beginCommand_def has_command_def result_simps)
  next
    case (Some row)
    then have "has_command (cmd_id cmd) st"
      using tfind_Some_in [OF Some] by (metis has_command_def image_eqI list.set_map)
    with b show ?thesis by (rule begin_has_command)
  qed
qed

text \<open>What the ledger answers once a result is recorded.\<close>

lemma begin_after_complete:
  assumes "has_command (cmd_id cmd) st" and "res_commandId res = cmd_id cmd" and "res_status res = Completed"
  shows "beginCommand cmd (completeCommand now res st) = Inr (Some res, completeCommand now res st)"
proof -
  obtain row where "tfind cr_command_id (cmd_id cmd) (st_commands st) = Some row" "cr_command_id row = cmd_id cmd"
    using assms(1) tfind_None_iff [of cr_command_id "cmd_id cmd" "st_commands st"] tfind_Some_in
    by (fastforce simp: has_command_def)
  then have "tfind cr_command_id (cmd_id cmd) (st_commands (completeCommand now res st))
      = Some (row\<lparr>cr_result := Some res, cr_completed_at := Some now\<rparr>)"
    by (simp add: completeCommand_def tfind_tmodify assms(2))
  with assms(3) show ?thesis by (simp add: beginCommand_def)
qed

end
