(* ===== verification/AgentStoreSpec.thy ===== *)
theory AgentStoreSpec
  imports AgentStoreLaws
begin

text \<open>
  What the agent's store promises to the rest of the agent: the properties of sampling,
  of the batch queue, of revisions, of configuration snapshots and of the command ledger,
  each with a concrete instance.
\<close>

section \<open>Vocabulary of the statements\<close>

text \<open>The usage a batch reports for a binding, and over a list of batches.\<close>

definition billed :: "string \<Rightarrow> UsageBatch \<Rightarrow> nat" where
  "billed b batch = sum_list (map (\<lambda>s. dec_val (us_uplinkDeltaBytes s) + dec_val (us_downlinkDeltaBytes s))
     (filter (\<lambda>s. us_bindingId s = b) (ub_samples batch)))"

text \<open>A sequence of samples and the batches it produced.\<close>

fun sample_run ::
  "(AbsoluteCounter list \<times> string \<times> bool) list \<Rightarrow> agent_store \<Rightarrow> (agent_error, UsageBatch list \<times> agent_store) result" where
  "sample_run [] st = Inr ([], st)"
| "sample_run ((cs, t, online) # ins) st =
     rbind (recordSample cs t online st) (\<lambda>(res, st).
     rbind (sample_run ins st) (\<lambda>(batches, st).
     Inr ((case sr_batch res of None \<Rightarrow> [] | Some b \<Rightarrow> [b]) @ batches, st)))"

section \<open>A concrete store\<close>

definition ex_opts :: store_options where
  "ex_opts = \<lparr>so_bootId = ''boot-1'', so_nodeId = ''node-1'', so_defaultOfflineAllowanceBytes = 500\<rparr>"

definition ex_user :: DesiredUser where
  "ex_user = \<lparr>du_bindingId = ''b1'', du_revision = ''3'', du_email = ''u1'', du_uuid = ''id'',
     du_flow = None, du_enabled = True, du_quotaRemainingBytes = ''100'', du_offlineAllowanceBytes = []\<rparr>"

definition ex_counter :: "string \<Rightarrow> string \<Rightarrow> AbsoluteCounter" where
  "ex_counter up down = \<lparr>ac_email = ''u1'', ac_uplinkBytes = up, ac_downlinkBytes = down\<rparr>"

definition ex_row :: UserRow where
  "ex_row = \<lparr>ur_binding_id = ''b1'', ur_email = ''u1'', ur_uuid = ''id'', ur_flow = No_flow,
     ur_enabled = 1, ur_revision = ''3'', ur_quota_remaining = ''100'', ur_offline_allowance = ''500'',
     ur_offline_used = ''0'', ur_generation = ''0'', ur_counter_initialized = 0, ur_uplink = ''0'',
     ur_downlink = ''0'', ur_updated_at = ''t0''\<rparr>"

definition ex_store0 :: agent_store where
  "ex_store0 = \<lparr>st_bootId = ''boot-1'', st_nodeId = ''node-1'', st_defaultOfflineAllowanceBytes = 500,
     st_meta = [''node_id'' \<mapsto> ''node-1'', ''boot_id'' \<mapsto> ''boot-1'', ''next_sequence:boot-1'' \<mapsto> ''1''],
     st_inbound = None, st_users = [], st_batches = [], st_commands = []\<rparr>"

definition ex_store :: agent_store where
  "ex_store = ex_store0\<lparr>st_users := [ex_row]\<rparr>"

lemma dec_val_eval: "dec_val s = foldl (\<lambda>a c. 10 * a + (of_char c - 48)) 0 s"
  by (simp add: dec_val_def digits_val_def digit_val_def)

lemma show_500 [simp]: "bigint_toString 500 = ''500''"
  using show_nat_dec_val [of "''500''"] by (simp add: dec_val_eval bigint_toString_def)

lemma ex_store0_opened: "newAgentStore ex_opts empty_tables = Inr ex_store0"
  by (simp add: newAgentStore_def ex_opts_def empty_tables_def ex_store0_def assertOwnIdentity_def
      with_options_def initializeBoot_def getMeta_def or_text_def sequenceKey_def setMeta_def Let_def
      fun_eq_iff)

lemma ex_store_upsert: "upsertDesiredUser ''t0'' ex_user ex_store0 = Inr ex_store"
  by (simp add: upsertDesiredUser_def ex_user_def ex_store0_def getUserByBindingId_def upsertRow_def
      ex_store_def ex_row_def user_flow_def)

lemma ex_store_reachable: "store_reachable ex_opts ex_store"
  by (rule store_reachable.stepped [OF store_reachable.opened [OF ex_store0_opened]
      store_step.upsert [OF ex_store_upsert]])

lemma ex_opts_default [simp]: "0 \<le> so_defaultOfflineAllowanceBytes ex_opts"
  by (simp add: ex_opts_def)

lemma ex_store_wf: "store_wf ex_store"
  by (rule store_reachable_wf_lemma [OF ex_store_reachable ex_opts_default])

lemma ex_counters_wf [simp]: "counters_wf [ex_counter ''10'' ''20'']"
  by (simp add: counters_wf_def counter_wf_def ex_counter_def)

section \<open>What one sample bills\<close>

lemma counter_sample_binding:
  assumes wf: "users_wf rows" and r: "r \<in> set rows"
  shows "(case counter_sample rows c of None \<Rightarrow> 0
      | Some s \<Rightarrow> if us_bindingId s = ur_binding_id r
          then dec_val (us_uplinkDeltaBytes s) + dec_val (us_downlinkDeltaBytes s) else 0)
    = (if ac_email c = ur_email r
       then if ur_enabled r = 1
         then meter_delta (dec_val (ac_uplinkBytes c)) (dec_val (ac_downlinkBytes c)) (abs_row r) else 0
       else 0)"
proof (cases "tfind ur_email (ac_email c) rows")
  case None
  moreover from None r have "ac_email c \<noteq> ur_email r" by (auto simp: tfind_None_iff)
  ultimately show ?thesis by (simp add: counter_sample_def metered_row_def)
next
  case (Some q)
  then have q: "q \<in> set rows" "ur_email q = ac_email c" by (auto dest: tfind_Some_in)
  have "ur_binding_id q = ur_binding_id r \<longleftrightarrow> ac_email c = ur_email r"
    using wf q r distinct_map_eq [of ur_binding_id rows q r] distinct_map_eq [of ur_email rows q r]
    by (auto simp: users_wf_def)
  moreover have "ac_email c = ur_email r \<Longrightarrow> q = r"
    using wf q r distinct_map_eq [of ur_email rows q r] by (auto simp: users_wf_def)
  ultimately show ?thesis
    using Some by (auto simp: counter_sample_def metered_row_def meter_sample_def meter_delta_def)
qed

lemma billed_sample_batch:
  assumes "store_wf st" and "counters_wf cs" and "r \<in> set (st_users st)"
  shows "billed (ur_binding_id r) (sample_batch t cs st) =
    (case tfind ac_email (ur_email r) cs of None \<Rightarrow> 0
     | Some c \<Rightarrow> if ur_enabled r = 1
         then meter_delta (dec_val (ac_uplinkBytes c)) (dec_val (ac_downlinkBytes c)) (abs_row r) else 0)"
  using assms(2) sum_list_key [of ac_email cs "ur_email r"]
  by (simp add: billed_def sample_batch_def sum_list_filter_map_filter counters_wf_def
      counter_sample_binding [OF store_wfD [OF assms(1)] assms(3)])

lemma sampled_row_quota:
  "dec_val (ur_quota_remaining (sampled_row online t cs r)) = dec_val (ur_quota_remaining r) -
    (case tfind ac_email (ur_email r) cs of None \<Rightarrow> 0
     | Some c \<Rightarrow> if ur_enabled r = 1
         then meter_delta (dec_val (ac_uplinkBytes c)) (dec_val (ac_downlinkBytes c)) (abs_row r) else 0)"
  by (auto simp: sampled_row_def put_meter_def reading_def meter_step_def Let_def abs_row_def
      split: option.splits)

text \<open>One sample takes off a user's quota exactly what its batch bills the binding.\<close>

lemma recordSample_bills:
  assumes wf: "store_wf st" and cs: "counters_wf cs"
    and run: "recordSample cs t online st = Inr (res, st')" and r: "r \<in> set (st_users st)"
  shows "\<exists>r' \<in> set (st_users st'). ur_binding_id r' = ur_binding_id r
    \<and> dec_val (ur_quota_remaining r') = dec_val (ur_quota_remaining r)
        - (case sr_batch res of None \<Rightarrow> 0 | Some b \<Rightarrow> billed (ur_binding_id r) b)"
proof (rule bexI [of _ "sampled_row online t cs r"])
  show "sampled_row online t cs r \<in> set (st_users st')"
    using run r unfolding recordSample_eq [OF wf cs]
    by (auto simp: push_batch_def split: if_splits)
  have "billed (ur_binding_id r) (sample_batch t cs st) = 0" if "ub_samples (sample_batch t cs st) = []"
    using that by (simp add: billed_def)
  then have "(case sr_batch res of None \<Rightarrow> 0 | Some b \<Rightarrow> billed (ur_binding_id r) b)
      = billed (ur_binding_id r) (sample_batch t cs st)"
    using run unfolding recordSample_eq [OF wf cs] by (auto split: if_splits)
  then show "ur_binding_id (sampled_row online t cs r) = ur_binding_id r
    \<and> dec_val (ur_quota_remaining (sampled_row online t cs r)) = dec_val (ur_quota_remaining r)
        - (case sr_batch res of None \<Rightarrow> 0 | Some b \<Rightarrow> billed (ur_binding_id r) b)"
    by (simp add: sampled_row_quota billed_sample_batch [OF wf cs r])
qed

section \<open>Rows an update does not address\<close>

lemma tfind_tmodify_other:
  "k \<noteq> k' \<Longrightarrow> (\<And>r. key (f r) = key r) \<Longrightarrow> tfind key k (tmodify (\<lambda>r. key r = k') f rows) = tfind key k rows"
  by (induction rows) auto

lemma restoreUser_other:
  assumes "restoreUser now u st = Inr s" and "du_bindingId u \<noteq> b"
  shows "getUserByBindingId s b = getUserByBindingId st b"
proof (cases "getUserByBindingId st (du_bindingId u)")
  case None
  with assms(1) show ?thesis by (simp add: restoreUser_def)
next
  case (Some row)
  with assms(1) obtain q e where "s = st\<lparr>st_users := tmodify (\<lambda>r. ur_binding_id r = du_bindingId u)
      (\<lambda>r. r\<lparr>ur_enabled := e, ur_quota_remaining := q, ur_offline_used := ''0'', ur_updated_at := now\<rparr>)
      (st_users st)\<rparr>"
    by (auto simp: restoreUser_def result_simps Let_def)
  with assms(2) show ?thesis by (simp add: getUserByBindingId_def tfind_tmodify_other)
qed

section \<open>Opening a store\<close>

lemma identity_keys [simp]:
  "sequenceKey b \<noteq> ''node_id''" "sequenceKey b \<noteq> ''boot_id''"
  "''node_id'' \<noteq> sequenceKey b" "''boot_id'' \<noteq> sequenceKey b"
  by (simp_all add: sequenceKey_def)

lemma initialized_meta [simp]:
  "getMeta (initializeBoot boot st) ''node_id'' = getMeta st ''node_id''"
  "st_users (initializeBoot boot st) = st_users st"
  "st_batches (initializeBoot boot st) = st_batches st"
  "st_commands (initializeBoot boot st) = st_commands st"
  "st_bootId (initializeBoot boot st) = st_bootId st"
  "st_bootId st = boot \<Longrightarrow> next_sequence (initializeBoot boot st)
     = or_text (getMeta st (sequenceKey boot)) ''1''"
  by (auto simp: initializeBoot_def getMeta_def Let_def next_sequence_def or_text_def
      split: option.splits)

section \<open>Properties\<close>

text \<open>
  C1: in every store reachable from a fresh open by any sequence of the store's operations,
  all numeric columns are canonical decimals, flags are 0 or 1, binding ids, emails and
  batch keys are unique, and no pending batch of the running boot has a sequence number that
  is still to be given out.
\<close>

theorem agent_store_reachable_wf:
  assumes "store_reachable opts st" and "0 \<le> so_defaultOfflineAllowanceBytes opts"
  shows "store_wf st"
  using assms by (rule store_reachable_wf_lemma)

theorem agent_store_reachable_wf_witness: "store_wf ex_store"
  by (rule agent_store_reachable_wf [OF ex_store_reachable ex_opts_default])

text \<open>
  C4: on a reachable store a sample of decimal counters never fails; it gives every enabled
  user that has a counter the meter reading of the specification, leaves every other row
  as it was, and asks for exactly the users whose reading is over quota or over the
  offline allowance to be disabled.
\<close>

theorem recordSample_meters:
  assumes "store_wf st" and "counters_wf cs"
  shows "\<exists>res st'. recordSample cs t online st = Inr (res, st')
    \<and> st_users st' = map (sampled_row online t cs) (st_users st)
    \<and> sr_disableEmails res = List.map_filter (counter_disables online (st_users st)) cs
    \<and> store_wf st'"
proof -
  obtain res st' where run: "recordSample cs t online st = Inr (res, st')"
    using recordSample_total [OF assms] by blast
  moreover have "store_wf st'" by (rule recordSample_wf [OF assms run])
  ultimately show ?thesis
    using recordSample_eq [OF assms, of t online] by (auto simp: push_batch_def split: if_splits)
qed

theorem recordSample_meters_witness:
  "\<exists>res st'. recordSample [ex_counter ''10'' ''20''] ''t1'' True ex_store = Inr (res, st')
    \<and> st_users st' = map (sampled_row True ''t1'' [ex_counter ''10'' ''20'']) (st_users ex_store)
    \<and> sr_disableEmails res
        = List.map_filter (counter_disables True (st_users ex_store)) [ex_counter ''10'' ''20'']
    \<and> store_wf st'"
  by (rule recordSample_meters [OF ex_store_wf ex_counters_wf])

text \<open>
  C5: over any sequence of samples, the quota a user has left is the quota it had less
  the usage that the produced batches bill to its binding (and never below zero):
  nothing is billed that was not taken off the quota, and nothing is taken off unbilled.
\<close>

theorem sample_run_conserves_quota:
  assumes "store_wf st" and "list_all (\<lambda>(cs, t, online). counters_wf cs) ins"
    and "sample_run ins st = Inr (batches, st')" and "r \<in> set (st_users st)"
  shows "\<exists>r' \<in> set (st_users st'). ur_binding_id r' = ur_binding_id r
    \<and> dec_val (ur_quota_remaining r') =
        dec_val (ur_quota_remaining r) - sum_list (map (billed (ur_binding_id r)) batches)"
  using assms
proof (induction ins arbitrary: st batches r)
  case Nil
  then show ?case by auto
next
  case (Cons i ins)
  obtain cs t online where i: "i = (cs, t, online)" by (cases i)
  with Cons.prems have cs: "counters_wf cs" by simp
  from Cons.prems(3) i obtain res mid later where mid: "recordSample cs t online st = Inr (res, mid)"
    and rest: "sample_run ins mid = Inr (later, st')"
    and batches: "batches = (case sr_batch res of None \<Rightarrow> [] | Some b \<Rightarrow> [b]) @ later"
    by (auto simp: result_simps)
  from recordSample_bills [OF Cons.prems(1) cs mid Cons.prems(4)] obtain q where
    q: "q \<in> set (st_users mid)" "ur_binding_id q = ur_binding_id r"
      "dec_val (ur_quota_remaining q) = dec_val (ur_quota_remaining r)
        - (case sr_batch res of None \<Rightarrow> 0 | Some b \<Rightarrow> billed (ur_binding_id r) b)"
    by blast
  have "store_wf mid" by (rule recordSample_wf [OF Cons.prems(1) cs mid])
  with Cons.IH [OF _ _ rest q(1)] Cons.prems(2) q batches show ?case
    by (auto split: option.splits)
qed

theorem sample_run_conserves_quota_witness:
  "\<exists>batches st'. sample_run [([ex_counter ''10'' ''20''], ''t1'', True)] ex_store = Inr (batches, st')
    \<and> (\<exists>r' \<in> set (st_users st'). ur_binding_id r' = ''b1'' \<and> dec_val (ur_quota_remaining r')
        = dec_val ''100'' - sum_list (map (billed ''b1'') batches))"
proof -
  obtain res st' where "recordSample [ex_counter ''10'' ''20''] ''t1'' True ex_store = Inr (res, st')"
    using recordSample_total [OF ex_store_wf ex_counters_wf] by blast
  then have run: "sample_run [([ex_counter ''10'' ''20''], ''t1'', True)] ex_store
      = Inr (case sr_batch res of None \<Rightarrow> [] | Some b \<Rightarrow> [b], st')"
    by simp
  have "ex_row \<in> set (st_users ex_store)" by (simp add: ex_store_def)
  from sample_run_conserves_quota [OF ex_store_wf _ run this] run show ?thesis
    by (auto simp: ex_row_def)
qed

text \<open>
  C6: a sequence number is never used twice within a boot: of two batches recorded in
  one boot, whatever the store did in between, the later one has the larger number.
\<close>

theorem batch_sequence_increases:
  assumes "store_wf st" and "counters_wf cs" and "recordSample cs t online st = Inr (res, st1)"
    and "sr_batch res = Some b" and "store_step\<^sup>*\<^sup>* st1 st2"
    and "counters_wf cs2" and "recordSample cs2 t2 online2 st2 = Inr (res2, st3)"
    and "sr_batch res2 = Some b2"
  shows "ub_bootId b2 = ub_bootId b \<and> dec_val (ub_sequence b) < dec_val (ub_sequence b2)"
proof -
  have wf1: "store_wf st1" by (rule recordSample_wf [OF assms(1-3)])
  then have steps: "store_wf st2" "seq_mono st1 st2" using store_steps [OF assms(5)] by auto
  from assms(3,4) have "ub_sequence b = next_sequence st" "ub_bootId b = st_bootId st"
    "st_bootId st1 = st_bootId st" "dec_val (next_sequence st1) = Suc (dec_val (next_sequence st))"
    unfolding recordSample_eq [OF assms(1,2)]
    by (auto simp: sample_batch_def push_batch_def next_sequence_def [of "setMeta k v s" for k v s]
        getMeta_def split: if_splits)
  moreover from assms(7,8) have "ub_sequence b2 = next_sequence st2" "ub_bootId b2 = st_bootId st2"
    unfolding recordSample_eq [OF steps(1) assms(6)] by (auto simp: sample_batch_def split: if_splits)
  ultimately show ?thesis using steps(2) by (auto simp: seq_mono_def)
qed

lemma ex_two_samples:
  "case recordSample [ex_counter ''10'' ''20''] ''t1'' True ex_store of
     Inl e \<Rightarrow> False
   | Inr (res, st1) \<Rightarrow> sr_batch res \<noteq> None \<and>
       (case recordSample [ex_counter ''10'' ''20''] ''t2'' True st1 of
          Inl e \<Rightarrow> False | Inr (res2, st3) \<Rightarrow> sr_batch res2 \<noteq> None)"
  by code_simp

theorem batch_sequence_increases_witness:
  "\<exists>res st1 b res2 st3 b2. recordSample [ex_counter ''10'' ''20''] ''t1'' True ex_store = Inr (res, st1)
    \<and> sr_batch res = Some b \<and> recordSample [ex_counter ''10'' ''20''] ''t2'' True st1 = Inr (res2, st3)
    \<and> sr_batch res2 = Some b2 \<and> ub_bootId b2 = ub_bootId b
    \<and> dec_val (ub_sequence b) < dec_val (ub_sequence b2)"
proof -
  from ex_two_samples obtain res st1 b where
    run: "recordSample [ex_counter ''10'' ''20''] ''t1'' True ex_store = Inr (res, st1)" "sr_batch res = Some b"
    by (cases "recordSample [ex_counter ''10'' ''20''] ''t1'' True ex_store") auto
  with ex_two_samples obtain res2 st3 b2 where
    run2: "recordSample [ex_counter ''10'' ''20''] ''t2'' True st1 = Inr (res2, st3)" "sr_batch res2 = Some b2"
    by (cases "recordSample [ex_counter ''10'' ''20''] ''t2'' True st1") auto
  from batch_sequence_increases [OF ex_store_wf ex_counters_wf run rtranclp.rtrancl_refl
      ex_counters_wf run2] run run2
  show ?thesis by blast
qed

text \<open>
  C7: acknowledging through a number removes exactly the pending batches of that boot up
  to the number, keeps all others in order, and returns how many were removed.
\<close>

theorem ackThrough_exact:
  assumes "store_wf st" and "decimal_pattern ack"
  shows "\<exists>n st'. ackThrough boot ack st = Inr (n, st')
    \<and> st_batches st' = filter (\<lambda>b. \<not> (br_boot_id b = boot \<and> dec_val (br_sequence b) \<le> dec_val ack)) (st_batches st)
    \<and> n + pendingBatchCount st' = pendingBatchCount st \<and> st_users st' = st_users st"
proof -
  have "length (filter p xs) + length (tdelete p xs) = length xs" for p and xs :: "BatchRow list"
    unfolding tdelete_def by (rule sum_length_filter_compl)
  then show ?thesis
    by (simp add: ackThrough_eq [OF assms] pendingBatchCount_def)
      (simp add: tdelete_def acked_def [abs_def])
qed

theorem ackThrough_exact_witness:
  "\<exists>n st'. ackThrough ''boot-1'' ''5'' ex_store = Inr (n, st')
    \<and> st_batches st' = filter (\<lambda>b. \<not> (br_boot_id b = ''boot-1'' \<and> dec_val (br_sequence b) \<le> dec_val ''5''))
        (st_batches ex_store)
    \<and> n + pendingBatchCount st' = pendingBatchCount ex_store \<and> st_users st' = st_users ex_store"
  by (rule ackThrough_exact [OF ex_store_wf]) simp

text \<open>
  C8: no operation of the store moves a binding back to an older revision.
\<close>

theorem store_step_revision_monotone:
  assumes "store_step st st'" and "store_wf st"
    and "getUserByBindingId st b = Some r" and "getUserByBindingId st' b = Some r'"
  shows "dec_val (ur_revision r) \<le> dec_val (ur_revision r')"
  using store_step_kept [OF assms(1,2)] assms(3,4)
  by (auto simp: revisions_kept_def getUserByBindingId_def dest!: tfind_Some_in)

theorem store_step_revision_monotone_witness:
  "\<exists>st' r'. updateQuota ''t1'' ''b1'' ''50'' ''7'' ex_store = Inr st'
    \<and> getUserByBindingId st' ''b1'' = Some r' \<and> dec_val ''3'' \<le> dec_val (ur_revision r')"
proof -
  obtain st' where q: "updateQuota ''t1'' ''b1'' ''50'' ''7'' ex_store = Inr st'"
    and r': "getUserByBindingId st' ''b1'' \<noteq> None"
    by (simp add: updateQuota_def revision_guard_def getUserByBindingId_def ex_store_def ex_row_def
        dec_val_eval)
  have "getUserByBindingId ex_store ''b1'' = Some ex_row"
    by (simp add: getUserByBindingId_def ex_store_def ex_row_def)
  from store_step_revision_monotone [OF store_step.quota [OF q] ex_store_wf this] q r' show ?thesis
    by (auto simp: ex_row_def)
qed

text \<open>
  C9: a configuration snapshot that is applied leaves exactly the snapshot's bindings,
  its revision and its control mode; one that is refused is older than the store and
  changes nothing.
\<close>

theorem applyConfigSnapshot_installs:
  assumes "store_wf st" and "applyConfigSnapshot now snap st = Inr (applied, st')"
  shows "(if applied
    then ur_binding_id ` set (st_users st') = du_bindingId ` set (snap_users snap)
      \<and> getConfigRevision st' = snap_revision snap
      \<and> snap_controlMode (getConfigSnapshot st') = snap_controlMode snap
    else st' = st \<and> dec_val (snap_revision snap) < dec_val (getConfigRevision st))"
proof -
  have d: "decimal_pattern (getConfigRevision st)" using assms(1) by (simp add: store_wf_def)
  from assms(2) have v: "decimal_pattern (snap_revision snap)"
    by (auto simp: applyConfigSnapshot_def result_simps decimal_eq_Inr split: if_splits)
  show ?thesis
  proof (cases applied)
    case True
    with assms(2) v d obtain u where
      u: "replaceDesiredUsers now (snap_users snap) (snap_revision snap) st = Inr u"
      and st': "st' = setMeta ''config_revision'' (snap_revision snap)
        (setMeta ''control_mode'' (mode_text (snap_controlMode snap)) u)"
      by (auto simp: applyConfigSnapshot_def result_simps split: if_splits)
    with replace_bindings [OF u] decimal_nonempty [OF v] True show ?thesis
      by (simp add: getConfigRevision_def getMeta_def getConfigSnapshot_def)
  next
    case False
    with assms(2) v d show ?thesis
      by (auto simp: applyConfigSnapshot_def result_simps split: if_splits)
  qed
qed

definition ex_snapshot :: AgentConfigSnapshot where
  "ex_snapshot = \<lparr>snap_nodeId = ''node-1'', snap_revision = ''9'', snap_controlMode = Direct_primary,
     snap_users = [ex_user\<lparr>du_bindingId := ''b2'', du_email := ''u2''\<rparr>]\<rparr>"

lemma ex_snapshot_runs:
  "case applyConfigSnapshot ''t1'' ex_snapshot ex_store of Inl e \<Rightarrow> False | Inr (applied, st') \<Rightarrow> applied"
  by code_simp

theorem applyConfigSnapshot_installs_witness:
  "\<exists>st'. applyConfigSnapshot ''t1'' ex_snapshot ex_store = Inr (True, st')
    \<and> ur_binding_id ` set (st_users st') = {''b2''} \<and> getConfigRevision st' = ''9''
    \<and> snap_controlMode (getConfigSnapshot st') = Direct_primary"
proof -
  from ex_snapshot_runs obtain st' where
    run: "applyConfigSnapshot ''t1'' ex_snapshot ex_store = Inr (True, st')"
    by (auto split: sum.splits prod.splits)
  from applyConfigSnapshot_installs [OF ex_store_wf run] run show ?thesis
    by (simp add: ex_snapshot_def)
qed

text \<open>
  C10: restoring users from a confirmed configuration never raises a quota: what is left
  is at most what was left and at most what the backend confirmed, a user comes back
  enabled only when the backend has it enabled and some quota is left, and users that are
  not in the configuration stay as they are.
\<close>

theorem restore_never_raises_quota:
  assumes "store_wf st" and "restoreBackendConfirmedUsers now users st = Inr st'"
    and "getUserByBindingId st b = Some r"
  shows "\<exists>r'. getUserByBindingId st' b = Some r'
    \<and> dec_val (ur_quota_remaining r') \<le> dec_val (ur_quota_remaining r)
    \<and> (\<forall>u \<in> set users. du_bindingId u = b \<longrightarrow>
         dec_val (ur_quota_remaining r') \<le> dec_val (du_quotaRemainingBytes u))
    \<and> (if b \<in> du_bindingId ` set users
       then ur_enabled r' = 1 \<longrightarrow> 0 < dec_val (ur_quota_remaining r')
         \<and> (\<exists>u \<in> set users. du_bindingId u = b \<and> du_enabled u)
       else r' = r)"
  using assms unfolding restoreBackendConfirmedUsers_def
proof (induction users arbitrary: st r)
  case Nil
  then show ?case by simp
next
  case (Cons u users)
  from Cons.prems(2) obtain s where s: "restoreUser now u st = Inr s"
    "foldR (restoreUser now) users s = Inr st'"
    by (auto simp: result_simps)
  have wf: "store_wf s" by (rule restoreUser_wf [OF Cons.prems(1) s(1)])
  show ?case
  proof (cases "du_bindingId u = b")
    case True
    with Cons.prems(3) have "getUserByBindingId st (du_bindingId u) = Some r" by simp
    then obtain q where
      q: "q = min (dec_val (ur_quota_remaining r)) (dec_val (du_quotaRemainingBytes u))"
      and s': "s = st\<lparr>st_users := tmodify (\<lambda>r. ur_binding_id r = du_bindingId u)
        (\<lambda>r. r\<lparr>ur_enabled := (if du_enabled u \<and> q > 0 then 1 else 0),
           ur_quota_remaining := show_nat q, ur_offline_used := ''0'', ur_updated_at := now\<rparr>)
        (st_users st)\<rparr>"
      by (rule restoreUser_Some [OF Cons.prems(1) _ s(1)])
    obtain m where m: "getUserByBindingId s b = Some m" "dec_val (ur_quota_remaining m) = q"
        "ur_enabled m = 1 \<longrightarrow> du_enabled u \<and> q > 0"
      using Cons.prems(3) True
      by (auto simp: s' getUserByBindingId_def tfind_tmodify dest: tfind_Some_in)
    from Cons.IH [OF wf s(2) m(1)] q m(2,3) True show ?thesis
      by (auto split: if_splits)
  next
    case False
    with s(1) Cons.prems(3) have "getUserByBindingId s b = Some r"
      by (simp add: restoreUser_other)
    from Cons.IH [OF wf s(2) this] False show ?thesis
      by (auto split: if_splits)
  qed
qed

theorem restore_never_raises_quota_witness:
  "\<exists>st' r'. restoreBackendConfirmedUsers ''t1'' [ex_user\<lparr>du_quotaRemainingBytes := ''40''\<rparr>] ex_store = Inr st'
    \<and> getUserByBindingId st' ''b1'' = Some r' \<and> dec_val (ur_quota_remaining r') \<le> dec_val ''40''"
proof -
  let ?users = "[ex_user\<lparr>du_quotaRemainingBytes := ''40''\<rparr>]"
  obtain st' where run: "restoreBackendConfirmedUsers ''t1'' ?users ex_store = Inr st'"
    by (simp add: restoreBackendConfirmedUsers_def restoreUser_def getUserByBindingId_def
        ex_store_def ex_row_def ex_user_def Let_def)
  have "getUserByBindingId ex_store ''b1'' = Some ex_row"
    by (simp add: getUserByBindingId_def ex_store_def ex_row_def)
  from restore_never_raises_quota [OF ex_store_wf run this] run show ?thesis
    by (auto simp: ex_user_def)
qed

text \<open>
  C11: opening a database: state recorded for another node is refused unless an identity
  reset was asked for, and then every table starts empty; otherwise the tables are the
  ones on disk, the recorded identity is the agent's, and a sequence counter that the
  boot already has is continued.
\<close>

theorem openStore_identity:
  assumes "so_nodeId opts \<noteq> []" and "recorded = or_text (getMeta disk ''node_id'') []"
  shows "case openStore reset opts disk of
      Inl e \<Rightarrow> \<not> reset \<and> recorded \<noteq> [] \<and> recorded \<noteq> so_nodeId opts
        \<and> e = ForeignState recorded (so_nodeId opts)
    | Inr st \<Rightarrow> getMeta st ''node_id'' = Some (so_nodeId opts) \<and> st_bootId st = so_bootId opts
        \<and> (if recorded = [] \<or> recorded = so_nodeId opts
           then st_users st = st_users disk \<and> st_batches st = st_batches disk
             \<and> st_commands st = st_commands disk
             \<and> next_sequence st = or_text (getMeta disk (sequenceKey (so_bootId opts))) ''1''
           else reset \<and> st_users st = [] \<and> st_batches st = [] \<and> st_commands st = []
             \<and> next_sequence st = ''1'')"
proof (cases "recorded \<noteq> [] \<and> recorded \<noteq> so_nodeId opts")
  case True
  with assms(2) have "newAgentStore opts disk = Inl (ForeignState recorded (so_nodeId opts))"
    by (simp add: newAgentStore_def assertOwnIdentity_def with_options_def getMeta_def)
  moreover have "newAgentStore opts empty_tables = Inr (initializeBoot (so_bootId opts)
      (setMeta ''node_id'' (so_nodeId opts) (with_options opts empty_tables)))"
    by (simp add: newAgentStore_def assertOwnIdentity_def with_options_def getMeta_def empty_tables_def)
  ultimately show ?thesis
    using True assms(1)
    by (simp add: openStore_def) (simp add: with_options_def empty_tables_def getMeta_def)
next
  case False
  then obtain s where s: "newAgentStore opts disk = Inr (initializeBoot (so_bootId opts) s)"
    and "s = setMeta ''node_id'' (so_nodeId opts) (with_options opts disk) \<or> s = with_options opts disk"
    and "getMeta s ''node_id'' = Some (so_nodeId opts)"
    using assms by (auto simp: newAgentStore_def assertOwnIdentity_def with_options_def getMeta_def
        or_text_def split: option.splits if_splits)
  with False show ?thesis
    by (auto simp: openStore_def) (simp_all add: with_options_def getMeta_def)
qed

theorem openStore_identity_witness:
  "openStore False (ex_opts\<lparr>so_nodeId := ''node-2''\<rparr>) ex_store0 = Inl (ForeignState ''node-1'' ''node-2'')"
proof -
  let ?opts = "ex_opts\<lparr>so_nodeId := ''node-2''\<rparr>"
  have rec: "or_text (getMeta ex_store0 ''node_id'') [] = ''node-1''"
    by (simp add: ex_store0_def getMeta_def)
  show ?thesis
    using openStore_identity [OF _ rec [symmetric], of ?opts False]
    by (cases "openStore False ?opts ex_store0") simp_all
qed

end
