(* ===== verification/Effects.thy ===== *)
theory Effects
  imports InboundSpec AgentStoreSpec
begin

text \<open>
  Asynchronous code as actions on a world: an action either returns a value or throws, and
  in both cases leaves the world as it has changed it so far.  The world of the agent is its
  store and everything outside the process: Xray behind its management SDK, the privileged
  helper behind its request and result files, the control plane behind HTTP, the clock and
  the random source.  What is outside is a parameter: an \<open>agent_env\<close> gives each call as a
  function on an arbitrary type \<open>'x\<close> of outside states.
\<close>

section \<open>Actions\<close>

type_synonym ('w, 'a) act = "'w \<Rightarrow> (agent_error, 'a) result \<times> 'w"

definition aret :: "'a \<Rightarrow> ('w, 'a) act" where
  "aret a w = (Inr a, w)"

definition athrow :: "agent_error \<Rightarrow> ('w, 'a) act" where
  "athrow e w = (Inl e, w)"

definition abind :: "('w, 'a) act \<Rightarrow> ('a \<Rightarrow> ('w, 'b) act) \<Rightarrow> ('w, 'b) act" where
  "abind m f w = (case m w of (Inl e, w') \<Rightarrow> (Inl e, w') | (Inr a, w') \<Rightarrow> f a w')"

text \<open>\<open>try { m } catch (e) { h e }\<close>.\<close>

definition acatch :: "('w, 'a) act \<Rightarrow> (agent_error \<Rightarrow> ('w, 'a) act) \<Rightarrow> ('w, 'a) act" where
  "acatch m h w = (case m w of (Inl e, w') \<Rightarrow> h e w' | (Inr a, w') \<Rightarrow> (Inr a, w'))"

definition alift :: "(agent_error, 'a) result \<Rightarrow> ('w, 'a) act" where
  "alift r w = (r, w)"

definition aget :: "('w \<Rightarrow> 'a) \<Rightarrow> ('w, 'a) act" where
  "aget f w = (Inr (f w), w)"

definition amodify :: "('w \<Rightarrow> 'w) \<Rightarrow> ('w, unit) act" where
  "amodify f w = (Inr (), f w)"

definition awhen :: "bool \<Rightarrow> ('w, unit) act \<Rightarrow> ('w, unit) act" where
  "awhen b m = (if b then m else aret ())"

fun afor :: "'a list \<Rightarrow> ('a \<Rightarrow> ('w, unit) act) \<Rightarrow> ('w, unit) act" where
  "afor [] f = aret ()"
| "afor (x # xs) f = abind (f x) (\<lambda>_. afor xs f)"

section \<open>Invariants of actions\<close>

text \<open>\<open>keeps I m\<close>: whether \<open>m\<close> returns or throws, \<open>I\<close> still holds after it.\<close>

named_theorems keeps_intros \<open>actions that keep an invariant\<close>

definition keeps :: "('w \<Rightarrow> bool) \<Rightarrow> ('w, 'a) act \<Rightarrow> bool" where
  "keeps I m \<longleftrightarrow> (\<forall>w. I w \<longrightarrow> I (snd (m w)))"

lemma keepsD: "keeps I m \<Longrightarrow> I w \<Longrightarrow> m w = (r, w') \<Longrightarrow> I w'"
  by (metis keeps_def snd_conv)

lemma keeps_aret [keeps_intros, simp]: "keeps I (aret a)"
  by (simp add: keeps_def aret_def)

lemma keeps_athrow [keeps_intros, simp]: "keeps I (athrow e)"
  by (simp add: keeps_def athrow_def)

lemma keeps_alift [keeps_intros, simp]: "keeps I (alift r)"
  by (simp add: keeps_def alift_def)

lemma keeps_aget [keeps_intros, simp]: "keeps I (aget f)"
  by (simp add: keeps_def aget_def)

lemma keeps_amodify: "(\<And>w. I w \<Longrightarrow> I (f w)) \<Longrightarrow> keeps I (amodify f)"
  by (simp add: keeps_def amodify_def)

lemma keeps_abind [keeps_intros]:
  "keeps I m \<Longrightarrow> (\<And>a. keeps I (f a)) \<Longrightarrow> keeps I (abind m f)"
  by (auto simp: keeps_def abind_def split: prod.splits sum.splits)

lemma keeps_acatch [keeps_intros]:
  "keeps I m \<Longrightarrow> (\<And>e. keeps I (h e)) \<Longrightarrow> keeps I (acatch m h)"
  by (auto simp: keeps_def acatch_def split: prod.splits sum.splits)

lemma keeps_awhen [keeps_intros]: "(b \<Longrightarrow> keeps I m) \<Longrightarrow> keeps I (awhen b m)"
  by (simp add: awhen_def)

lemma keeps_if [keeps_intros]: "(b \<Longrightarrow> keeps I m) \<Longrightarrow> (\<not> b \<Longrightarrow> keeps I n) \<Longrightarrow> keeps I (if b then m else n)"
  by simp

lemma keeps_case_option [keeps_intros]:
  "keeps I m \<Longrightarrow> (\<And>a. v = Some a \<Longrightarrow> keeps I (n a)) \<Longrightarrow> keeps I (case v of None \<Rightarrow> m | Some a \<Rightarrow> n a)"
  by (cases v) simp_all

lemma keeps_case_prod [keeps_intros]:
  "(\<And>a b. keeps I (f a b)) \<Longrightarrow> keeps I (case p of (a, b) \<Rightarrow> f a b)"
  by (cases p) simp

lemma keeps_afor [keeps_intros]: "(\<And>x. x \<in> set xs \<Longrightarrow> keeps I (f x)) \<Longrightarrow> keeps I (afor xs f)"
  by (induction xs) (auto intro: keeps_abind)

text \<open>Reading the result of a sequence.\<close>

lemma abind_Inr: "abind m f w = (Inr b, w') \<longleftrightarrow> (\<exists>a v. m w = (Inr a, v) \<and> f a v = (Inr b, w'))"
  by (auto simp: abind_def split: prod.splits sum.splits)

lemma abind_Inl: "abind m f w = (Inl e, w') \<longleftrightarrow>
    m w = (Inl e, w') \<or> (\<exists>a v. m w = (Inr a, v) \<and> f a v = (Inl e, w'))"
  by (auto simp: abind_def split: prod.splits sum.splits)

lemma aret_eq [simp]: "aret a w = (r, w') \<longleftrightarrow> r = Inr a \<and> w' = w"
  by (auto simp: aret_def)

lemma athrow_eq [simp]: "athrow e w = (r, w') \<longleftrightarrow> r = Inl e \<and> w' = w"
  by (auto simp: athrow_def)

lemma alift_eq [simp]: "alift x w = (r, w') \<longleftrightarrow> x = r \<and> w' = w"
  by (auto simp: alift_def)

lemma aget_eq [simp]: "aget f w = (r, w') \<longleftrightarrow> r = Inr (f w) \<and> w' = w"
  by (auto simp: aget_def)

lemma amodify_eq [simp]: "amodify f w = (r, w') \<longleftrightarrow> r = Inr () \<and> w' = f w"
  by (auto simp: amodify_def)

lemmas act_simps = abind_Inr abind_Inl

section \<open>The agent's world\<close>

record 'x agent_world =
  w_store :: agent_store
  w_ext :: 'x

text \<open>An answer of the Xray management SDK.\<close>

record 'a sdk_result =
  sdk_isOk :: bool
  sdk_data :: "'a option"
  sdk_message :: string

text \<open>What a look at the helper's result file finds.\<close>

datatype result_file = Missing | Unreadable agent_error | NotRegular | ResultFile nat "json option"

text \<open>The control plane's answers.\<close>

record UsageBatchAck =
  ack_accepted :: bool
  ack_duplicate :: bool
  ack_ackThrough :: string

record AgentHeartbeat =
  hb_bootId :: string
  hb_configRevision :: string
  hb_queueDepth :: nat
  hb_xrayHealthy :: bool

record HeartbeatResponse =
  hbr_configRevision :: string
  hbr_ackThrough :: string

record 'x agent_env =
  env_inboundTag :: string
  env_publicHost :: string
  env_hasApplier :: bool
  env_restartToleranceMs :: int
  env_now :: "'x \<Rightarrow> string"
  env_nowMs :: "'x \<Rightarrow> int"
  env_sleep :: "int \<Rightarrow> 'x \<Rightarrow> 'x"
  env_randomUUID :: "'x \<Rightarrow> string \<times> 'x"
  env_sha256hex :: "json \<Rightarrow> string"
  sdk_getSysStats :: "('x, rat option sdk_result) act"
  sdk_getInboundUsers :: "string \<Rightarrow> ('x, (string \<times> string option) list sdk_result) act"
  sdk_getAllUsersStats :: "('x, (string \<times> rat \<times> rat) list sdk_result) act"
  sdk_addVlessUser :: "string \<Rightarrow> string \<Rightarrow> string \<Rightarrow> flow \<Rightarrow> ('x, bool sdk_result) act"
  sdk_removeUser :: "string \<Rightarrow> string \<Rightarrow> ('x, bool sdk_result) act"
  env_helperInstalled :: "'x \<Rightarrow> bool"
  env_writeRequest :: "json_object \<Rightarrow> ('x, unit) act"
  env_readResult :: "'x \<Rightarrow> result_file"
  api_getConfig :: "('x, AgentConfigSnapshot) act"
  api_whoami :: "('x, string option) act"
  api_uploadBatch :: "UsageBatch \<Rightarrow> ('x, UsageBatchAck) act"
  api_heartbeat :: "AgentHeartbeat \<Rightarrow> ('x, HeartbeatResponse) act"
  api_reportCommandResult :: "CommandResult \<Rightarrow> ('x, unit) act"

text \<open>A call that leaves the process, and a change of the store that may throw, in which
  case the store's transaction leaves it as it was.\<close>

definition outside :: "('x, 'a) act \<Rightarrow> (('x, 'm) agent_world_scheme, 'a) act" where
  "outside m w = (case m (w_ext w) of (r, x) \<Rightarrow> (r, w\<lparr>w_ext := x\<rparr>))"

definition on_store ::
  "(agent_store \<Rightarrow> (agent_error, 'a \<times> agent_store) result) \<Rightarrow> (('x, 'm) agent_world_scheme, 'a) act" where
  "on_store f w = (case f (w_store w) of
     Inl e \<Rightarrow> (Inl e, w) | Inr (a, st) \<Rightarrow> (Inr a, w\<lparr>w_store := st\<rparr>))"

definition update_store ::
  "'x agent_env \<Rightarrow> (string \<Rightarrow> agent_store \<Rightarrow> (agent_error, agent_store) result)
    \<Rightarrow> (('x, 'm) agent_world_scheme, unit) act" where
  "update_store env f w =
     on_store (\<lambda>st. rbind (f (env_now env (w_ext w)) st) (\<lambda>st. Inr ((), st))) w"

definition set_store :: "(agent_store \<Rightarrow> agent_store) \<Rightarrow> (('x, 'm) agent_world_scheme, unit) act" where
  "set_store f = amodify (\<lambda>w. w\<lparr>w_store := f (w_store w)\<rparr>)"

definition randomUUID :: "'x agent_env \<Rightarrow> (('x, 'm) agent_world_scheme, string) act" where
  "randomUUID env = outside (\<lambda>x. case env_randomUUID env x of (u, x) \<Rightarrow> (Inr u, x))"

definition sleep :: "'x agent_env \<Rightarrow> int \<Rightarrow> (('x, 'm) agent_world_scheme, unit) act" where
  "sleep env ms = outside (\<lambda>x. (Inr (), env_sleep env ms x))"

lemma keeps_outside [keeps_intros]:
  "(\<And>w x. I w \<Longrightarrow> I (w\<lparr>w_ext := x\<rparr>)) \<Longrightarrow> keeps I (outside m)"
  by (auto simp: keeps_def outside_def split: prod.splits)

lemma outside_store: "outside m w = (r, w') \<Longrightarrow> w_store w' = w_store w"
  by (auto simp: outside_def split: prod.splits)

lemma on_store_Inr: "on_store f w = (Inr a, w') \<longleftrightarrow>
    (\<exists>st. f (w_store w) = Inr (a, st) \<and> w' = w\<lparr>w_store := st\<rparr>)"
  by (auto simp: on_store_def split: sum.splits prod.splits)

lemma on_store_Inl: "on_store f w = (Inl e, w') \<longleftrightarrow> f (w_store w) = Inl e \<and> w' = w"
  by (auto simp: on_store_def split: sum.splits prod.splits)

lemma update_store_Inr: "update_store env f w = (Inr u, w') \<longleftrightarrow>
    (\<exists>st. f (env_now env (w_ext w)) (w_store w) = Inr st \<and> w' = w\<lparr>w_store := st\<rparr>)"
  by (auto simp: update_store_def on_store_Inr result_simps)

lemma update_store_Inl: "update_store env f w = (Inl e, w') \<longleftrightarrow>
    f (env_now env (w_ext w)) (w_store w) = Inl e \<and> w' = w"
  by (auto simp: update_store_def on_store_Inl result_simps)

lemmas store_act_simps = on_store_Inr on_store_Inl update_store_Inr update_store_Inl

end
