(* ===== verification/XrayAdapter.thy ===== *)
theory XrayAdapter
  imports Effects
begin

text \<open>
  The agent's two ports to the machine: \<open>XtlsXrayAdapter\<close> over Xray's management SDK
  (\<open>apps/node-agent/src/xray-adapter.ts\<close>) and \<open>FileInboundApplier\<close>, the request and result
  files through which the privileged helper is driven
  (\<open>apps/node-agent/src/xray-inbound.ts\<close>).
\<close>

section \<open>XtlsXrayAdapter\<close>

text \<open>A failed call throws the SDK's message.\<close>

definition sdk_fail :: "'a sdk_result \<Rightarrow> ('w, 'b) act" where
  "sdk_fail r = athrow (External (sdk_message r))"

definition xray_health :: "'x agent_env \<Rightarrow> (('x, 'm) agent_world_scheme, unit) act" where
  "xray_health env =
     abind (outside (sdk_getSysStats env)) (\<lambda>r.
     if \<not> sdk_isOk r then sdk_fail r else aret ())"

definition uptimeSeconds :: "'x agent_env \<Rightarrow> (('x, 'm) agent_world_scheme, rat) act" where
  "uptimeSeconds env =
     abind (outside (sdk_getSysStats env)) (\<lambda>r.
     case sdk_data r of
       None \<Rightarrow> sdk_fail r
     | Some uptime \<Rightarrow> if \<not> sdk_isOk r then sdk_fail r
         else aret (case uptime of None \<Rightarrow> 0 | Some u \<Rightarrow> u))"

definition inboundLive :: "'x agent_env \<Rightarrow> (('x, 'm) agent_world_scheme, bool) act" where
  "inboundLive env =
     abind (outside (sdk_getInboundUsers env (env_inboundTag env))) (\<lambda>r.
     aret (sdk_isOk r \<and> sdk_data r \<noteq> None))"

definition listUsers ::
  "'x agent_env \<Rightarrow> (('x, 'm) agent_world_scheme, (string \<times> string option) list) act" where
  "listUsers env =
     abind (outside (sdk_getInboundUsers env (env_inboundTag env))) (\<lambda>r.
     case sdk_data r of
       None \<Rightarrow> sdk_fail r
     | Some users \<Rightarrow> if \<not> sdk_isOk r then sdk_fail r else aret users)"

definition removeUser :: "'x agent_env \<Rightarrow> string \<Rightarrow> (('x, 'm) agent_world_scheme, unit) act" where
  "removeUser env email =
     abind (listUsers env) (\<lambda>users.
     if \<not> list_ex (\<lambda>u. fst u = email) users then aret ()
     else abind (outside (sdk_removeUser env (env_inboundTag env) email)) (\<lambda>r.
       if \<not> sdk_isOk r \<or> sdk_data r \<noteq> Some True then sdk_fail r else aret ()))"

definition ensureUser :: "'x agent_env \<Rightarrow> DesiredUser \<Rightarrow> (('x, 'm) agent_world_scheme, unit) act" where
  "ensureUser env user =
     abind (listUsers env) (\<lambda>users.
     let existing = find (\<lambda>u. fst u = du_email user) users in
     if (case existing of None \<Rightarrow> False | Some u \<Rightarrow> snd u = Some (du_uuid user)) then aret ()
     else
       abind (awhen (existing \<noteq> None) (removeUser env (du_email user))) (\<lambda>_.
       abind (outside (sdk_addVlessUser env (env_inboundTag env) (du_email user) (du_uuid user)
                (user_flow user))) (\<lambda>r.
       if \<not> sdk_isOk r \<or> sdk_data r \<noteq> Some True then sdk_fail r else aret ())))"

text \<open>\<open>integerString\<close>: only a safe non-negative integer is metered.\<close>

definition integerString :: "rat \<Rightarrow> string \<Rightarrow> (agent_error, string) result" where
  "integerString value label =
     (if is_integer value \<and> 0 \<le> value \<and> value \<le> 2 ^ 53 - 1 then Inr (bigint_toString (floor value))
      else Inl (External label))"

text \<open>The statistics of one user; of two entries with one name the later counts.\<close>

definition mergeInboundUsersWithStats ::
  "string list \<Rightarrow> (string \<times> rat \<times> rat) list \<Rightarrow> (agent_error, AbsoluteCounter list) result" where
  "mergeInboundUsersWithStats inboundUsers statsUsers =
     mapR (\<lambda>email.
       let stats = map_of (rev statsUsers) email;
           uplink = (case stats of None \<Rightarrow> 0 | Some (up, down) \<Rightarrow> up);
           downlink = (case stats of None \<Rightarrow> 0 | Some (up, down) \<Rightarrow> down)
       in rbind (integerString uplink email) (\<lambda>u.
          rbind (integerString downlink email) (\<lambda>d.
          Inr \<lparr>ac_email = email, ac_uplinkBytes = u, ac_downlinkBytes = d\<rparr>)))
     inboundUsers"

text \<open>Both calls of \<open>Promise.all\<close> are made; a failure of the first wins.\<close>

definition readAbsoluteCounters ::
  "'x agent_env \<Rightarrow> (('x, 'm) agent_world_scheme, AbsoluteCounter list) act" where
  "readAbsoluteCounters env =
     abind (acatch (abind (outside (sdk_getAllUsersStats env)) (\<lambda>r. aret (Inr r))) (\<lambda>e. aret (Inl e))) (\<lambda>stats.
     abind (acatch (abind (listUsers env) (\<lambda>us. aret (Inr us))) (\<lambda>e. aret (Inl e))) (\<lambda>users.
     abind (alift stats) (\<lambda>statsResult.
     abind (alift users) (\<lambda>users.
     case sdk_data statsResult of
       None \<Rightarrow> sdk_fail statsResult
     | Some statsUsers \<Rightarrow>
         if \<not> sdk_isOk statsResult then sdk_fail statsResult
         else alift (mergeInboundUsersWithStats (map fst users) statsUsers)))))"

section \<open>FileInboundApplier\<close>

definition MAX_RESULT_BYTES :: nat where
  "MAX_RESULT_BYTES = 16 * 1024"

definition pollIntervalMs :: int where
  "pollIntervalMs = 250"

text \<open>
  The polling loop.  Every round sleeps for the poll interval, so \<open>timeoutMs / pollIntervalMs\<close>
  rounds reach the deadline; \<open>rounds\<close> is that bound and running out of it is the timeout.
\<close>

fun poll_result ::
  "'x agent_env \<Rightarrow> string \<Rightarrow> helper_mode \<Rightarrow> int \<Rightarrow> nat \<Rightarrow> (('x, 'm) agent_world_scheme, HelperResult) act" where
  "poll_result env requestId mode deadline 0 = athrow (External ''helper timeout'')"
| "poll_result env requestId mode deadline (Suc rounds) =
     abind (aget (\<lambda>w. env_nowMs env (w_ext w) < deadline)) (\<lambda>running.
     if \<not> running then athrow (External ''helper timeout'')
     else abind (sleep env pollIntervalMs) (\<lambda>_.
       abind (aget (\<lambda>w. env_readResult env (w_ext w))) (\<lambda>file.
       case file of
         Missing \<Rightarrow> poll_result env requestId mode deadline rounds
       | Unreadable e \<Rightarrow> athrow e
       | NotRegular \<Rightarrow> athrow (External ''result file'')
       | ResultFile bytes raw \<Rightarrow>
           if bytes > MAX_RESULT_BYTES then athrow (External ''result size'')
           else abind (alift (parseHelperResult raw requestId mode)) (\<lambda>result.
             case result of
               Some r \<Rightarrow> aret r
             | None \<Rightarrow> poll_result env requestId mode deadline rounds))))"

definition helper_request ::
  "'x agent_env \<Rightarrow> json_object \<Rightarrow> string \<Rightarrow> helper_mode \<Rightarrow> int \<Rightarrow> (('x, 'm) agent_world_scheme, HelperResult) act" where
  "helper_request env payload requestId mode timeoutMs =
     abind (outside (env_writeRequest env payload)) (\<lambda>_.
     abind (aget (\<lambda>w. env_nowMs env (w_ext w) + timeoutMs)) (\<lambda>deadline.
     poll_result env requestId mode deadline (nat (timeoutMs div pollIntervalMs))))"

definition applier_apply ::
  "'x agent_env \<Rightarrow> InboundSpec \<Rightarrow> string \<Rightarrow> string \<Rightarrow> string \<Rightarrow> (('x, 'm) agent_world_scheme, HelperResult) act" where
  "applier_apply env spec requestId commandId requireListen =
     helper_request env ([(''requestId'', JStr requestId), (''commandId'', JStr commandId),
       (''requireListen'', JStr requireListen), (''mode'', JStr ''ensure'')] @ spec_json spec)
       requestId Ensure 120000"

definition applier_reset :: "'x agent_env \<Rightarrow> string \<Rightarrow> (('x, 'm) agent_world_scheme, HelperResult) act" where
  "applier_reset env requestId =
     helper_request env [(''requestId'', JStr requestId), (''mode'', JStr ''reset'')] requestId Reset 120000"

definition applier_status :: "'x agent_env \<Rightarrow> string \<Rightarrow> (('x, 'm) agent_world_scheme, HelperResult) act" where
  "applier_status env requestId =
     helper_request env [(''requestId'', JStr requestId), (''mode'', JStr ''status'')] requestId Reset 5000"

section \<open>What the ports keep\<close>

text \<open>
  \<open>moves env R\<close>: every call to Xray, to the helper, to the clock and the random source, and every
  call to the control plane other than an upload and a heartbeat, moves the outside along \<open>R\<close>.
\<close>

definition moves :: "'x agent_env \<Rightarrow> ('x \<Rightarrow> 'x \<Rightarrow> bool) \<Rightarrow> bool" where
  "moves env R \<longleftrightarrow> (\<forall>x. R x (snd (sdk_getSysStats env x)) \<and> R x (snd (sdk_getAllUsersStats env x))
     \<and> (\<forall>tag. R x (snd (sdk_getInboundUsers env tag x)))
     \<and> (\<forall>tag email uuid flow. R x (snd (sdk_addVlessUser env tag email uuid flow x)))
     \<and> (\<forall>tag email. R x (snd (sdk_removeUser env tag email x)))
     \<and> (\<forall>ms. R x (env_sleep env ms x)) \<and> R x (snd (env_randomUUID env x))
     \<and> (\<forall>payload. R x (snd (env_writeRequest env payload x)))
     \<and> R x (snd (api_getConfig env x)) \<and> R x (snd (api_whoami env x))
     \<and> (\<forall>result. R x (snd (api_reportCommandResult env result x))))"

text \<open>A property of the store and the outside, and one of the store alone.\<close>

definition world_inv :: "(agent_store \<Rightarrow> 'x \<Rightarrow> bool) \<Rightarrow> ('x, 'm) agent_world_scheme \<Rightarrow> bool" where
  "world_inv Q w \<longleftrightarrow> Q (w_store w) (w_ext w)"

abbreviation store_only :: "(agent_store \<Rightarrow> bool) \<Rightarrow> ('x, 'm) agent_world_scheme \<Rightarrow> bool" where
  "store_only P \<equiv> world_inv (\<lambda>st x. P st)"

lemma keeps_sdk_fail [keeps_intros]: "keeps I (sdk_fail r)"
  by (simp add: sdk_fail_def)

lemma keeps_case_result_file [keeps_intros]:
  "keeps I m \<Longrightarrow> (\<And>e. keeps I (u e)) \<Longrightarrow> keeps I n \<Longrightarrow> (\<And>k raw. keeps I (f k raw)) \<Longrightarrow>
   keeps I (case x of Missing \<Rightarrow> m | Unreadable e \<Rightarrow> u e | NotRegular \<Rightarrow> n | ResultFile k raw \<Rightarrow> f k raw)"
  by (cases x) simp_all

lemma keeps_call: "(\<And>st x. Q st x \<Longrightarrow> Q st (snd (m x))) \<Longrightarrow> keeps (world_inv Q) (outside m)"
  by (auto simp: keeps_def world_inv_def outside_def split: prod.splits) (metis snd_conv)

text \<open>An invariant that no port breaks.\<close>

locale agent_ports =
  fixes env :: "'x agent_env" and Q :: "agent_store \<Rightarrow> 'x \<Rightarrow> bool"
  assumes calls: "moves env (\<lambda>x x'. \<forall>st. Q st x \<longrightarrow> Q st x')"
begin

lemma keeps_calls [keeps_intros]:
  "keeps (world_inv Q) (outside (sdk_getSysStats env))" "keeps (world_inv Q) (outside (sdk_getAllUsersStats env))"
  "keeps (world_inv Q) (outside (sdk_getInboundUsers env tag))"
  "keeps (world_inv Q) (outside (sdk_addVlessUser env tag' email uuid flow))"
  "keeps (world_inv Q) (outside (sdk_removeUser env tag'' email'))"
  "keeps (world_inv Q) (outside (env_writeRequest env payload))"
  "keeps (world_inv Q) (outside (api_getConfig env))" "keeps (world_inv Q) (outside (api_whoami env))"
  "keeps (world_inv Q) (outside (api_reportCommandResult env result))"
  using calls by (auto simp: moves_def intro!: keeps_call)

lemma keeps_sleep [keeps_intros]: "keeps (world_inv Q) (sleep env ms)"
  unfolding sleep_def using calls by (auto simp: moves_def intro!: keeps_call)

lemma keeps_randomUUID [keeps_intros]: "keeps (world_inv Q) (randomUUID env)"
  unfolding randomUUID_def using calls by (auto simp: moves_def split: prod.splits intro!: keeps_call) (metis snd_conv)

lemma keeps_listUsers [keeps_intros]: "keeps (world_inv Q) (listUsers env)"
  unfolding listUsers_def by (intro keeps_intros)

lemma keeps_removeUser [keeps_intros]: "keeps (world_inv Q) (removeUser env email)"
  unfolding removeUser_def by (intro keeps_intros)

lemma keeps_ensureUser [keeps_intros]: "keeps (world_inv Q) (ensureUser env user)"
  unfolding ensureUser_def Let_def by (intro keeps_intros)

lemma keeps_health [keeps_intros]: "keeps (world_inv Q) (xray_health env)"
  unfolding xray_health_def by (intro keeps_intros)

lemma keeps_uptime [keeps_intros]: "keeps (world_inv Q) (uptimeSeconds env)"
  unfolding uptimeSeconds_def by (intro keeps_intros)

lemma keeps_inboundLive [keeps_intros]: "keeps (world_inv Q) (inboundLive env)"
  unfolding inboundLive_def by (intro keeps_intros)

lemma keeps_counters [keeps_intros]: "keeps (world_inv Q) (readAbsoluteCounters env)"
  unfolding readAbsoluteCounters_def by (intro keeps_intros)

lemma keeps_poll [keeps_intros]: "keeps (world_inv Q) (poll_result env requestId mode deadline n)"
proof (induction n)
  case 0
  then show ?case by simp
next
  case (Suc n)
  show ?case unfolding poll_result.simps by (intro keeps_intros Suc)
qed

lemma keeps_helper [keeps_intros]:
  "keeps (world_inv Q) (helper_request env payload requestId mode timeoutMs)"
  unfolding helper_request_def by (intro keeps_intros)

lemma keeps_applier [keeps_intros]:
  "keeps (world_inv Q) (applier_apply env spec requestId commandId requireListen)"
  "keeps (world_inv Q) (applier_reset env requestId)"
  "keeps (world_inv Q) (applier_status env requestId)"
  unfolding applier_apply_def applier_reset_def applier_status_def by (intro keeps_intros)+

end

end
