(* ===== verification/CommandProcessor.thy ===== *)
theory CommandProcessor
  imports XrayAdapter
begin

text \<open>
  The execution of the control plane's commands on a node
  (\<open>apps/node-agent/src/command-processor.ts\<close>): each command is answered once, outdated
  commands change nothing, and only a node in the writable mode touches Xray.
\<close>

section \<open>Reading a payload\<close>

definition optionalString :: "json option \<Rightarrow> string option" where
  "optionalString v = (case v of Some (JStr s) \<Rightarrow> if s = [] then None else Some s | _ \<Rightarrow> None)"

definition stringField :: "json_object \<Rightarrow> string \<Rightarrow> (agent_error, string) result" where
  "stringField value field = require_some (optionalString (map_of value field)) (MissingField field)"

definition parseFlow :: "json option \<Rightarrow> (agent_error, flow option) result" where
  "parseFlow v = (case v of
       None \<Rightarrow> Inr None
     | Some (JStr s) \<Rightarrow> (case text_flow s of None \<Rightarrow> Inl BadFlow | Some f \<Rightarrow> Inr (Some f))
     | Some _ \<Rightarrow> Inl BadFlow)"

text \<open>\<open>optionalString(a) || optionalString(b)\<close>.\<close>

definition or_else :: "'a option \<Rightarrow> 'a option \<Rightarrow> 'a option" where
  "or_else a b = (case a of None \<Rightarrow> b | Some _ \<Rightarrow> a)"

definition parseDesiredUser :: "json \<Rightarrow> string \<Rightarrow> (agent_error, DesiredUser) result" where
  "parseDesiredUser value revision = (case value of
       JObj item \<Rightarrow>
         rbind (stringField item ''bindingId'') (\<lambda>bindingId.
         rbind (case optionalString (map_of item ''email'') of
                  Some e \<Rightarrow> Inr e | None \<Rightarrow> stringField item ''userKey'') (\<lambda>email.
         rbind (stringField item ''uuid'') (\<lambda>uuid.
         rbind (parseFlow (map_of item ''flow'')) (\<lambda>flow.
         Inr \<lparr>du_bindingId = bindingId,
              du_revision = (case optionalString (map_of item ''revision'') of Some r \<Rightarrow> r | None \<Rightarrow> revision),
              du_email = email, du_uuid = uuid,
              du_flow = Some (case flow of Some f \<Rightarrow> f | None \<Rightarrow> No_flow),
              du_enabled = (map_of item ''enabled'' \<noteq> Some (JBool False)),
              du_quotaRemainingBytes =
                (case optionalString (map_of item ''quotaRemainingBytes'') of Some q \<Rightarrow> q | None \<Rightarrow> ''0''),
              du_offlineAllowanceBytes =
                (case optionalString (map_of item ''offlineAllowanceBytes'') of
                   Some q \<Rightarrow> q | None \<Rightarrow> ''67108864'')\<rparr>))))
     | _ \<Rightarrow> Inl BadUserPayload)"

definition isOlderRevision :: "string \<Rightarrow> string \<Rightarrow> (agent_error, bool) result" where
  "isOlderRevision candidate current =
     rbind (bigInt candidate) (\<lambda>a. rbind (bigInt current) (\<lambda>b. Inr (a < b)))"

text \<open>The listen address an IPv6 endpoint requires.\<close>

definition requiredListen :: "string \<Rightarrow> string" where
  "requiredListen serverHost = (if isIPv6 (strip_brackets (js_trim serverHost)) then ''::'' else [])"

definition findStored :: "agent_store \<Rightarrow> json_object \<Rightarrow> DesiredUser option" where
  "findStored st payload =
     (let bindingId = optionalString (map_of payload ''bindingId'');
          email = or_else (optionalString (map_of payload ''email'')) (optionalString (map_of payload ''userKey''))
      in find (\<lambda>user. bindingId = Some (du_bindingId user) \<or> email = Some (du_email user))
           (listDesiredUsers st))"

definition resolveUser :: "agent_store \<Rightarrow> AgentCommand \<Rightarrow> (agent_error, DesiredUser) result" where
  "resolveUser st command =
     (let payload = cmd_payload command in
      case findStored st payload of
        Some stored \<Rightarrow>
          rbind (parseFlow (map_of payload ''flow'')) (\<lambda>flow.
          Inr (stored\<lparr>du_email := (case or_else (optionalString (map_of payload ''email''))
                                         (optionalString (map_of payload ''userKey'')) of
                                    Some e \<Rightarrow> e | None \<Rightarrow> du_email stored),
                      du_uuid := (case optionalString (map_of payload ''uuid'') of
                                    Some u \<Rightarrow> u | None \<Rightarrow> du_uuid stored),
                      du_flow := or_else flow (du_flow stored)\<rparr>))
      | None \<Rightarrow> parseDesiredUser (JObj payload) (cmd_targetRevision command))"

text \<open>The email of \<open>resolveTerminalTarget\<close>; a payload without a binding is refused.\<close>

definition resolveTerminalTarget :: "json_object \<Rightarrow> (agent_error, string) result" where
  "resolveTerminalTarget payload =
     rbind (stringField payload ''bindingId'') (\<lambda>_.
     case optionalString (map_of payload ''email'') of
       Some e \<Rightarrow> Inr e | None \<Rightarrow> stringField payload ''userKey'')"

section \<open>Reconciliation with Xray\<close>

definition reconcile :: "'x agent_env \<Rightarrow> DesiredUser list \<Rightarrow> (('x, 'm) agent_world_scheme, unit) act" where
  "reconcile env users =
     abind (listUsers env) (\<lambda>actual.
     abind (afor users (\<lambda>user.
              abind (update_store env (\<lambda>now. upsertDesiredUser now user)) (\<lambda>_.
              if du_enabled user then ensureUser env user else removeUser env (du_email user)))) (\<lambda>_.
     afor actual (\<lambda>user. awhen (fst user \<notin> du_email ` set users) (removeUser env (fst user)))))"

section \<open>Deploying an inbound\<close>

definition env_resolvePublicHost :: "'x agent_env \<Rightarrow> (('x, 'm) agent_world_scheme, string) act" where
  "env_resolvePublicHost env =
     (if env_publicHost env \<noteq> [] then aret (env_publicHost env)
      else abind (outside (api_whoami env)) (\<lambda>observed.
        case observed of
          None \<Rightarrow> athrow NoPublicHost
        | Some ip \<Rightarrow> if js_trim ip = [] then athrow NoPublicHost else aret (js_trim ip)))"

definition resolvePublicHost :: "'x agent_env \<Rightarrow> (('x, 'm) agent_world_scheme, string) act" where
  "resolvePublicHost env =
     abind (env_resolvePublicHost env) (\<lambda>serverHost.
     if \<not> agent_isPublicUnicastAddress serverHost then athrow (NotPublicHost serverHost)
     else aret serverHost)"

fun waitForInbound ::
  "'x agent_env \<Rightarrow> nat \<Rightarrow> int \<Rightarrow> agent_error \<Rightarrow> (('x, 'm) agent_world_scheme, unit) act" where
  "waitForInbound env 0 delayMs lastError = athrow (InboundNotLive lastError)"
| "waitForInbound env (Suc attempts) delayMs lastError =
     abind (acatch
              (abind (xray_health env) (\<lambda>_.
               abind (inboundLive env) (\<lambda>live. aret (if live then None else Some TagNotLoaded))))
              (\<lambda>e. aret (Some e))) (\<lambda>failure.
     case failure of
       None \<Rightarrow> aret ()
     | Some e \<Rightarrow> abind (sleep env delayMs) (\<lambda>_. waitForInbound env attempts delayMs e))"

definition change_flow ::
  "'x agent_env \<Rightarrow> InboundSpec \<Rightarrow> DesiredUser list \<Rightarrow> (('x, 'm) agent_world_scheme, DesiredUser list) act" where
  "change_flow env spec stored =
     (if list_ex (\<lambda>user. user_flow user \<noteq> is_flow spec) stored
      then let users = map (\<lambda>user. user\<lparr>du_flow := Some (is_flow spec)\<rparr>) stored in
        abind (afor users (\<lambda>user. removeUser env (du_email user))) (\<lambda>_.
        abind (afor users (\<lambda>user. set_store (setUserFlow (du_bindingId user) (du_flow user)))) (\<lambda>_.
        aret users))
      else aret stored)"

definition check_deployed :: "InboundSpec \<Rightarrow> HelperResult \<Rightarrow> (agent_error, unit) result" where
  "check_deployed spec applied =
     (if hr_listenPort applied \<noteq> of_int (is_listenPort spec)
      then Inl (DeployedPortMismatch (floor (hr_listenPort applied)) (is_listenPort spec))
      else if hr_serverName applied \<notin> set (is_serverNames spec)
      then Inl (DeployedNameMismatch (hr_serverName applied))
      else Inr ())"

definition ensureInbound ::
  "'x agent_env \<Rightarrow> AgentCommand \<Rightarrow> (('x, 'm) agent_world_scheme, InboundReport) act" where
  "ensureInbound env command =
     (let payload = cmd_payload command; revision = cmd_targetRevision command in
      if map_of payload ''mode'' = Some (JStr ''validate_panel'') then athrow PanelNeedsGoAgent
      else if \<not> env_hasApplier env then athrow NoInboundHelper
      else
        abind (alift (parseInboundSpec payload (env_inboundTag env))) (\<lambda>spec.
        let hash = inboundSpecHash (env_sha256hex env) spec in
        abind (aget (\<lambda>w. getInboundState (w_store w))) (\<lambda>previous.
        abind (case previous of None \<Rightarrow> aret False
               | Some p \<Rightarrow> alift (isOlderRevision revision (ib_appliedRevision p))) (\<lambda>stale.
        if stale then athrow StaleInbound
        else
          abind (resolvePublicHost env) (\<lambda>serverHost.
          abind (randomUUID env) (\<lambda>requestId.
          abind (set_store (setInboundState \<lparr>ib_hash = hash, ib_report = JObj [],
                   ib_appliedRevision = revision, ib_complete = False\<rparr>)) (\<lambda>_.
          abind (applier_apply env spec requestId (cmd_id command) (requiredListen serverHost)) (\<lambda>applied.
          abind (alift (check_deployed spec applied)) (\<lambda>_.
          abind (waitForInbound env 15 1000 (External ''undefined'')) (\<lambda>_.
          if requiredListen serverHost \<noteq> [] \<and> hr_listen applied \<noteq> requiredListen serverHost
          then athrow (DeployedListenMismatch serverHost (hr_listen applied))
          else
            abind (aget (\<lambda>w. listDesiredUsers (w_store w))) (\<lambda>stored.
            abind (change_flow env spec stored) (\<lambda>users.
            abind (reconcile env users) (\<lambda>_.
            abind (aget (\<lambda>w. env_now env (w_ext w))) (\<lambda>now.
            let report = \<lparr>rep_requestId = requestId, rep_inboundTag = is_inboundTag spec,
                  rep_serverHost = serverHost, rep_serverPort = is_listenPort spec,
                  rep_realityPublicKey = hr_realityPublicKey applied, rep_shortId = hr_shortId applied,
                  rep_serverName = hr_serverName applied, rep_flow = is_flow spec,
                  rep_fingerprint = is_fingerprint spec, rep_spiderX = is_spiderX spec,
                  rep_listen = hr_listen applied, rep_xrayVersion = hr_xrayVersion applied,
                  rep_changed = hr_changed applied, rep_liveVerifiedAt = now\<rparr>
            in abind (set_store (setInboundState \<lparr>ib_hash = hash, ib_report = JObj (report_json report),
                        ib_appliedRevision = revision, ib_complete = True\<rparr>)) (\<lambda>_.
               aret report)))))))))))))))"

section \<open>Commands\<close>

text \<open>The guard of \<open>ENSURE_USER\<close> and \<open>ENABLE_USER\<close>: the command is outdated, or of the very
  revision that disabled the user.\<close>

definition enable_outdated :: "agent_store \<Rightarrow> AgentCommand \<Rightarrow> DesiredUser option \<Rightarrow> (agent_error, bool) result" where
  "enable_outdated st command stored =
     rbind (isOlderRevision (cmd_targetRevision command) (getConfigRevision st)) (\<lambda>old.
     if old then Inr True
     else case stored of
       None \<Rightarrow> Inr False
     | Some user \<Rightarrow>
         rbind (isOlderRevision (cmd_targetRevision command) (du_revision user)) (\<lambda>old.
         Inr (old \<or> (cmd_targetRevision command = du_revision user \<and> \<not> du_enabled user))))"

definition stored_newer :: "AgentCommand \<Rightarrow> DesiredUser option \<Rightarrow> (agent_error, bool) result" where
  "stored_newer command stored = (case stored of
       None \<Rightarrow> Inr False
     | Some user \<Rightarrow> isOlderRevision (cmd_targetRevision command) (du_revision user))"

definition terminal_email :: "AgentCommand \<Rightarrow> DesiredUser option \<Rightarrow> (agent_error, string) result" where
  "terminal_email command stored = (case stored of
       Some user \<Rightarrow> Inr (du_email user)
     | None \<Rightarrow> resolveTerminalTarget (cmd_payload command))"

definition apply_enable :: "'x agent_env \<Rightarrow> AgentCommand \<Rightarrow> (('x, 'm) agent_world_scheme, unit) act" where
  "apply_enable env command =
     abind (aget w_store) (\<lambda>st.
     let stored = findStored st (cmd_payload command) in
     abind (alift (enable_outdated st command stored)) (\<lambda>outdated.
     if outdated then aret ()
     else
       abind (alift (resolveUser st command)) (\<lambda>user.
       let enabled = user\<lparr>du_enabled := True, du_revision := cmd_targetRevision command\<rparr> in
       abind (update_store env (\<lambda>now. upsertDesiredUser now enabled)) (\<lambda>_.
       ensureUser env enabled))))"

text \<open>\<open>DISABLE_USER\<close> and \<open>REMOVE_USER\<close> differ in what they do to the stored user.\<close>

definition apply_terminal ::
  "'x agent_env \<Rightarrow> AgentCommand \<Rightarrow> (string \<Rightarrow> (('x, 'm) agent_world_scheme, unit) act) \<Rightarrow>
    (('x, 'm) agent_world_scheme, unit) act" where
  "apply_terminal env command finish =
     abind (aget (\<lambda>w. findStored (w_store w) (cmd_payload command))) (\<lambda>stored.
     abind (alift (stored_newer command stored)) (\<lambda>newer.
     if newer then aret ()
     else
       abind (alift (terminal_email command stored)) (\<lambda>email.
       abind (removeUser env email) (\<lambda>_.
       case stored of None \<Rightarrow> aret () | Some user \<Rightarrow> finish (du_bindingId user)))))"

definition apply_snapshot ::
  "'x agent_env \<Rightarrow> AgentConfigSnapshot \<Rightarrow> (('x, 'm) agent_world_scheme, bool) act" where
  "apply_snapshot env snapshot w = on_store (applyConfigSnapshot (env_now env (w_ext w)) snapshot) w"

definition apply_reconcile :: "'x agent_env \<Rightarrow> AgentCommand \<Rightarrow> bool \<Rightarrow> (('x, 'm) agent_world_scheme, unit) act" where
  "apply_reconcile env command writable =
     (let payload = cmd_payload command; revision = cmd_targetRevision command in
      abind (aget w_store) (\<lambda>st.
      abind (alift (case map_of payload ''users'' of
               Some (JArr items) \<Rightarrow> mapR (\<lambda>item. parseDesiredUser item revision) items
             | _ \<Rightarrow> Inr (listDesiredUsers st))) (\<lambda>users.
      let current = getConfigSnapshot st in
      abind (alift (isOlderRevision revision (snap_revision current))) (\<lambda>old.
      if old then athrow StaleReconcile
      else
        let controlMode = (case isNodeControlMode (map_of payload ''controlMode'') of
              Some m \<Rightarrow> m | None \<Rightarrow> snap_controlMode current);
            nextSnapshot = \<lparr>snap_nodeId = snap_nodeId current, snap_revision = revision,
              snap_controlMode = controlMode, snap_users = users\<rparr>
        in abind (awhen (writable \<and> controlMode = Direct_primary) (reconcile env users)) (\<lambda>_.
           abind (apply_snapshot env nextSnapshot) (\<lambda>_. aret ()))))))"

definition apply_command ::
  "'x agent_env \<Rightarrow> AgentCommand \<Rightarrow> bool \<Rightarrow> (('x, 'm) agent_world_scheme, json_object) act" where
  "apply_command env command writable =
     (if \<not> writable \<and> cmd_type command \<noteq> REFRESH_QUOTA \<and> cmd_type command \<noteq> RECONCILE_USERS
      then athrow WritesForbidden
      else case cmd_type command of
        ENSURE_USER \<Rightarrow> abind (apply_enable env command) (\<lambda>_. aret [])
      | ENABLE_USER \<Rightarrow> abind (apply_enable env command) (\<lambda>_. aret [])
      | DISABLE_USER \<Rightarrow>
          abind (apply_terminal env command (\<lambda>b. update_store env (\<lambda>now.
            setUserEnabled now b False (cmd_targetRevision command)))) (\<lambda>_. aret [])
      | REMOVE_USER \<Rightarrow>
          abind (apply_terminal env command (\<lambda>b. set_store (deleteUser b))) (\<lambda>_. aret [])
      | RECONCILE_USERS \<Rightarrow> abind (apply_reconcile env command writable) (\<lambda>_. aret [])
      | REFRESH_QUOTA \<Rightarrow>
          abind (alift (stringField (cmd_payload command) ''bindingId'')) (\<lambda>bindingId.
          abind (alift (stringField (cmd_payload command) ''quotaRemainingBytes'')) (\<lambda>quota.
          abind (update_store env (\<lambda>now. updateQuota now bindingId quota (cmd_targetRevision command)))
            (\<lambda>_. aret [])))
      | ENSURE_INBOUND \<Rightarrow>
          abind (ensureInbound env command) (\<lambda>report. aret [(''inbound'', JObj (report_json report))]))"

text \<open>The guarded part of \<open>execute\<close>: whatever throws becomes a failed result.\<close>

definition execute_body ::
  "'x agent_env \<Rightarrow> AgentCommand \<Rightarrow> bool \<Rightarrow> (('x, 'm) agent_world_scheme, CommandResult) act" where
  "execute_body env command writable = acatch
     (abind (apply_command env command writable) (\<lambda>extra.
      abind (update_store env (\<lambda>_. advanceConfigRevision (cmd_targetRevision command))) (\<lambda>_.
      aret \<lparr>res_commandId = cmd_id command, res_status = Completed,
            res_result = Some ([(''appliedRevision'', JStr (cmd_targetRevision command))] @ extra),
            res_error = None\<rparr>)))
     (\<lambda>error. aret \<lparr>res_commandId = cmd_id command, res_status = Failed,
            res_result = None, res_error = Some error\<rparr>)"

definition execute ::
  "'x agent_env \<Rightarrow> AgentCommand \<Rightarrow> bool \<Rightarrow> (('x, 'm) agent_world_scheme, CommandResult) act" where
  "execute env command writable =
     abind (on_store (beginCommand command)) (\<lambda>previous.
     case previous of
       Some result \<Rightarrow> aret result
     | None \<Rightarrow>
         abind (execute_body env command writable) (\<lambda>result.
         abind (aget (\<lambda>w. env_now env (w_ext w))) (\<lambda>now.
         abind (set_store (completeCommand now result)) (\<lambda>_.
         aret result))))"

section \<open>What a command keeps\<close>

lemma keeps_update_store:
  "(\<And>now st st' x. Q st x \<Longrightarrow> f now st = Inr st' \<Longrightarrow> Q st' x) \<Longrightarrow> keeps (world_inv Q) (update_store env f)"
  by (auto simp: keeps_def world_inv_def update_store_def on_store_def rbind_def split: sum.splits)

lemma keeps_set_store: "(\<And>st x. Q st x \<Longrightarrow> Q (f st) x) \<Longrightarrow> keeps (world_inv Q) (set_store f)"
  by (auto simp: set_store_def world_inv_def intro!: keeps_amodify)

lemma keeps_on_store:
  "(\<And>st a st' x. Q st x \<Longrightarrow> f st = Inr (a, st') \<Longrightarrow> Q st' x) \<Longrightarrow> keeps (world_inv Q) (on_store f)"
  by (auto simp: keeps_def world_inv_def on_store_def split: sum.splits prod.splits)

text \<open>The operations of the store other than sampling and acknowledging leave its batches alone.\<close>

lemma batches_upsert: "upsertDesiredUser now user st = Inr st' \<Longrightarrow> st_batches st' = st_batches st"
  by (elim upsertDesiredUser_Inr) auto

lemma batches_foldR:
  assumes "foldR f xs st = Inr st'" and "\<And>x s t. f x s = Inr t \<Longrightarrow> st_batches t = st_batches s"
  shows "st_batches st' = st_batches st"
  by (rule foldR_invariant [where I = "\<lambda>s. st_batches s = st_batches st", OF assms(1)]) (auto simp: assms(2))

lemma batches_snapshot:
  assumes "applyConfigSnapshot now snap st = Inr (applied, st')"
  shows "st_batches st' = st_batches st"
  using assms
  by (auto simp: applyConfigSnapshot_def replaceDesiredUsers_def result_simps decimal_eq_Inr Let_def split: if_splits
      dest!: batches_foldR [OF _ batches_upsert])

lemma batches_restore:
  assumes "restoreBackendConfirmedUsers now users st = Inr st'"
  shows "st_batches st' = st_batches st"
  using assms unfolding restoreBackendConfirmedUsers_def
  by (rule batches_foldR) (auto simp: restoreUser_def result_simps Let_def split: option.splits)

lemma batches_ops:
  "updateQuota now b q v st = Inr st' \<Longrightarrow> st_batches st' = st_batches st"
  "setUserEnabled now b e v st = Inr st' \<Longrightarrow> st_batches st' = st_batches st"
  "advanceConfigRevision v st = Inr st' \<Longrightarrow> st_batches st' = st_batches st"
  "beginCommand c st = Inr (prev, st') \<Longrightarrow> st_batches st' = st_batches st"
  "st_batches (setUserFlow b f st) = st_batches st" "st_batches (deleteUser b st) = st_batches st"
  "st_batches (setInboundState i st) = st_batches st" "st_batches (setInboundAwaiting w st) = st_batches st"
  "st_batches (completeCommand now' res st) = st_batches st"
  by (auto simp: setUserFlow_def deleteUser_def advanceConfigRevision_def result_simps setInboundState_def
      setInboundAwaiting_def deleteMeta_def completeCommand_def
      elim!: updateQuota_Inr setUserEnabled_Inr dest!: beginCommand_commands split: if_splits)

text \<open>
  A property of the store and the outside that every port keeps, and every operation of the store
  that forgets no batch.  What is proved here of commands, and later of the agent's main loop,
  holds of every such property.
\<close>

locale command_invariant = agent_ports +
  assumes step: "store_step st st' \<Longrightarrow> set (st_batches st) \<subseteq> set (st_batches st') \<Longrightarrow> Q st x \<Longrightarrow> Q st' x"
begin

lemma step_same: "store_step st st' \<Longrightarrow> st_batches st' = st_batches st \<Longrightarrow> Q st x \<Longrightarrow> Q st' x"
  by (rule step) auto

lemma keeps_wait [keeps_intros]: "keeps (world_inv Q) (waitForInbound env n delayMs e)"
proof (induction n arbitrary: e)
  case 0
  then show ?case by simp
next
  case (Suc n)
  show ?case unfolding waitForInbound.simps by (intro keeps_intros Suc)
qed

lemma keeps_resolvePublicHost [keeps_intros]: "keeps (world_inv Q) (resolvePublicHost env)"
  unfolding resolvePublicHost_def env_resolvePublicHost_def by (intro keeps_intros)

lemma keeps_step_update:
  assumes "\<And>now st st'. f now st = Inr st' \<Longrightarrow> store_step st st'"
    and "\<And>now st st'. f now st = Inr st' \<Longrightarrow> st_batches st' = st_batches st"
  shows "keeps (world_inv Q) (update_store env f)"
  by (rule keeps_update_store) (blast intro: step_same assms)

lemma keeps_step_set:
  assumes "\<And>st. store_step st (f st)" and "\<And>st. st_batches (f st) = st_batches st"
  shows "keeps (world_inv Q) (set_store f)"
  by (rule keeps_set_store) (blast intro: step_same assms)

lemma keeps_upsert [keeps_intros]:
  "keeps (world_inv Q) (update_store env (\<lambda>now. upsertDesiredUser now user))"
  by (rule keeps_step_update) (rule store_step.upsert, assumption, rule batches_upsert)

lemma keeps_disable [keeps_intros]:
  "keeps (world_inv Q) (update_store env (\<lambda>now. setUserEnabled now b e v))"
  by (rule keeps_step_update) (rule store_step.enable, assumption, rule batches_ops)

lemma keeps_quota [keeps_intros]:
  "keeps (world_inv Q) (update_store env (\<lambda>now. updateQuota now b q v))"
  by (rule keeps_step_update) (rule store_step.quota, assumption, rule batches_ops)

lemma keeps_advance [keeps_intros]:
  "keeps (world_inv Q) (update_store env (\<lambda>_. advanceConfigRevision v))"
  by (rule keeps_step_update) (rule store_step.advance, assumption, rule batches_ops)

lemma keeps_set_steps [keeps_intros]:
  "keeps (world_inv Q) (set_store (deleteUser b))"
  "keeps (world_inv Q) (set_store (setUserFlow b f))"
  "keeps (world_inv Q) (set_store (setInboundState i))"
  "keeps (world_inv Q) (set_store (completeCommand now res))"
  "keeps (world_inv Q) (set_store (setInboundAwaiting a))"
  by (rule keeps_step_set, rule store_step.intros, rule batches_ops)+

lemma keeps_begin [keeps_intros]: "keeps (world_inv Q) (on_store (beginCommand command))"
  by (rule keeps_on_store) (blast intro: step_same store_step.begin_command batches_ops(4))

lemma keeps_snapshot [keeps_intros]: "keeps (world_inv Q) (apply_snapshot env snapshot)"
  unfolding keeps_def apply_snapshot_def on_store_def world_inv_def
  by (auto split: sum.splits prod.splits intro: step_same [OF store_step.snapshot batches_snapshot])

lemma keeps_reconcile [keeps_intros]: "keeps (world_inv Q) (reconcile env users)"
  unfolding reconcile_def by (intro keeps_intros)

lemma keeps_change_flow [keeps_intros]: "keeps (world_inv Q) (change_flow env spec stored)"
  unfolding change_flow_def Let_def by (intro keeps_intros)

lemma keeps_ensureInbound [keeps_intros]: "keeps (world_inv Q) (ensureInbound env command)"
  unfolding ensureInbound_def Let_def by (intro keeps_intros)

lemma keeps_apply_command [keeps_intros]: "keeps (world_inv Q) (apply_command env command writable)"
  unfolding apply_command_def apply_enable_def apply_terminal_def apply_reconcile_def Let_def
  by (cases "cmd_type command") (simp_all only: command_type.case, (intro keeps_intros)+)

lemma keeps_execute [keeps_intros]: "keeps (world_inv Q) (execute env command writable)"
  unfolding execute_def execute_body_def by (intro keeps_intros)

end

text \<open>A property of the store alone that every operation of the store keeps.\<close>

locale store_invariant =
  fixes P :: "agent_store \<Rightarrow> bool"
  assumes step: "store_step st st' \<Longrightarrow> P st \<Longrightarrow> P st'"

sublocale store_invariant \<subseteq> world: command_invariant env "\<lambda>st x. P st" for env
  by unfold_locales (auto simp: moves_def intro: step)

interpretation well_formed: store_invariant store_wf
  by unfold_locales (rule store_step_wf)

interpretation ledger: store_invariant "has_command i"
  by unfold_locales (rule store_step_has_command)

end
