(* ===== verification/CommandSpec.thy ===== *)
theory CommandSpec
  imports CommandProcessor
begin

text \<open>
  What command execution promises: answered once, nothing outside the process touched unless
  the mode allows it, Xray's user table equal to the desired one after a reconciliation, and
  a deployment report that the control plane accepts.
\<close>

section \<open>Xray as the SDK shows it\<close>

text \<open>
  The behaviour of the management SDK that the adapter relies on, for a view \<open>users\<close> of an
  outside state: listing does not change the users and, when it succeeds, shows them; a
  successful add appends the user, a successful removal takes every entry of the name away.
\<close>

definition xray_laws :: "'x agent_env \<Rightarrow> ('x \<Rightarrow> (string \<times> string option) list) \<Rightarrow> bool" where
  "xray_laws env users \<longleftrightarrow>
     (\<forall>x r x'. sdk_getInboundUsers env (env_inboundTag env) x = (Inr r, x') \<longrightarrow>
        users x' = users x \<and> (sdk_isOk r \<longrightarrow> sdk_data r \<noteq> None \<longrightarrow> sdk_data r = Some (users x)))
   \<and> (\<forall>e u f x r x'. sdk_addVlessUser env (env_inboundTag env) e u f x = (Inr r, x') \<longrightarrow>
        sdk_isOk r \<longrightarrow> sdk_data r = Some True \<longrightarrow> users x' = users x @ [(e, Some u)])
   \<and> (\<forall>e x r x'. sdk_removeUser env (env_inboundTag env) e x = (Inr r, x') \<longrightarrow>
        sdk_isOk r \<longrightarrow> sdk_data r = Some True \<longrightarrow> users x' = filter (\<lambda>p. fst p \<noteq> e) (users x))"

definition desired_table :: "DesiredUser list \<Rightarrow> (string \<times> string option) set" where
  "desired_table users = (\<lambda>u. (du_email u, Some (du_uuid u))) ` {u \<in> set users. du_enabled u}"

lemma outside_Inr: "outside m w = (Inr a, w') \<longleftrightarrow> (\<exists>x. m (w_ext w) = (Inr a, x) \<and> w' = w\<lparr>w_ext := x\<rparr>)"
  by (auto simp: outside_def split: prod.splits)

lemma sdk_fail_Inr [simp]: "sdk_fail r w \<noteq> (Inr a, w')"
  by (simp add: sdk_fail_def)

lemma listUsers_ok:
  assumes "xray_laws env users" and "listUsers env w = (Inr us, w')"
  shows "us = users (w_ext w) \<and> users (w_ext w') = users (w_ext w)"
proof -
  from assms(2) obtain r x where r: "sdk_getInboundUsers env (env_inboundTag env) (w_ext w) = (Inr r, x)"
    and "w' = w\<lparr>w_ext := x\<rparr>" "sdk_data r = Some us" "sdk_isOk r"
    by (auto simp: listUsers_def act_simps outside_Inr split: option.splits if_splits)
  moreover have "users x = users (w_ext w) \<and> (sdk_isOk r \<longrightarrow> sdk_data r \<noteq> None \<longrightarrow> sdk_data r = Some (users (w_ext w)))"
    using assms(1) r unfolding xray_laws_def by blast
  ultimately show ?thesis by auto
qed

lemma filter_absent: "\<not> list_ex (\<lambda>u. fst u = e) us \<Longrightarrow> filter (\<lambda>p. fst p \<noteq> e) us = us"
  by (auto simp: list_ex_iff filter_id_conv)

lemma removeUser_ok:
  assumes "xray_laws env users" and "removeUser env e w = (Inr u, w')"
  shows "users (w_ext w') = filter (\<lambda>p. fst p \<noteq> e) (users (w_ext w))"
proof -
  from assms(2) obtain us v where l: "listUsers env w = (Inr us, v)"
    and r: "(if \<not> list_ex (\<lambda>u. fst u = e) us then aret ()
      else abind (outside (sdk_removeUser env (env_inboundTag env) e)) (\<lambda>r.
       if \<not> sdk_isOk r \<or> sdk_data r \<noteq> Some True then sdk_fail r else aret ())) v = (Inr u, w')"
    by (auto simp: removeUser_def act_simps)
  note us = listUsers_ok [OF assms(1) l]
  show ?thesis
  proof (cases "list_ex (\<lambda>u. fst u = e) us")
    case False
    with r us show ?thesis by (simp add: filter_absent)
  next
    case True
    with r obtain s x where "sdk_removeUser env (env_inboundTag env) e (w_ext v) = (Inr s, x)"
      "sdk_isOk s" "sdk_data s = Some True" "w' = v\<lparr>w_ext := x\<rparr>"
      by (auto simp: act_simps outside_Inr split: if_splits)
    with assms(1) us show ?thesis unfolding xray_laws_def by fastforce
  qed
qed

definition table_ok :: "(string \<times> string option) list \<Rightarrow> bool" where
  "table_ok us \<longleftrightarrow> distinct (map fst us)"

lemma table_ok_filter: "table_ok us \<Longrightarrow> table_ok (filter p us)"
  by (induction us) (auto simp: table_ok_def)

lemma find_table:
  assumes "table_ok us" and "find (\<lambda>u. fst u = e) us = Some p"
  shows "{q \<in> set us. fst q \<noteq> e} \<union> {p} = set us" and "fst p = e"
proof -
  have p: "p \<in> set us" "fst p = e"
    using tfind_Some_in [of fst e us p] assms(2) by (auto simp: tfind_def)
  then show "fst p = e" by simp
  have "\<forall>q \<in> set us. fst q = e \<longrightarrow> q = p"
    using distinct_map_eq [of fst us _ p] assms(1) p by (simp add: table_ok_def)
  with p show "{q \<in> set us. fst q \<noteq> e} \<union> {p} = set us" by blast
qed

lemma ensureUser_ok:
  assumes laws: "xray_laws env users" and run: "ensureUser env user w = (Inr u, w')"
    and ok: "table_ok (users (w_ext w))"
  shows "set (users (w_ext w')) = {p \<in> set (users (w_ext w)). fst p \<noteq> du_email user}
           \<union> {(du_email user, Some (du_uuid user))} \<and> table_ok (users (w_ext w'))"
proof -
  let ?e = "du_email user"
  from run obtain us v where l: "listUsers env w = (Inr us, v)"
    and r: "(if case find (\<lambda>u. fst u = ?e) us of None \<Rightarrow> False | Some u \<Rightarrow> snd u = Some (du_uuid user)
      then aret ()
      else abind (awhen (find (\<lambda>u. fst u = ?e) us \<noteq> None) (removeUser env ?e)) (\<lambda>_.
        abind (outside (sdk_addVlessUser env (env_inboundTag env) ?e (du_uuid user) (user_flow user))) (\<lambda>r.
        if \<not> sdk_isOk r \<or> sdk_data r \<noteq> Some True then sdk_fail r else aret ()))) v = (Inr u, w')"
    by (auto simp: ensureUser_def Let_def act_simps)
  have us: "us = users (w_ext w)" "users (w_ext v) = users (w_ext w)" using listUsers_ok [OF laws l] by auto
  show ?thesis
  proof (cases "case find (\<lambda>u. fst u = ?e) us of None \<Rightarrow> False | Some u \<Rightarrow> snd u = Some (du_uuid user)")
    case True
    then obtain p where p: "find (\<lambda>u. fst u = ?e) us = Some p" "snd p = Some (du_uuid user)"
      by (auto split: option.splits)
    note found = find_table [OF ok [folded us(1)] p(1)]
    with p(2) have "p = (?e, Some (du_uuid user))" by (metis prod.collapse)
    with found(1) r True us ok show ?thesis by simp
  next
    case False
    with r obtain y t s x where rm: "awhen (find (\<lambda>u. fst u = ?e) us \<noteq> None) (removeUser env ?e) v = (Inr y, t)"
      and add: "sdk_addVlessUser env (env_inboundTag env) ?e (du_uuid user) (user_flow user) (w_ext t) = (Inr s, x)"
        "sdk_isOk s" "sdk_data s = Some True" "w' = t\<lparr>w_ext := x\<rparr>"
      by (auto simp: act_simps outside_Inr split: if_splits)
    have "users (w_ext t) = filter (\<lambda>p. fst p \<noteq> ?e) (users (w_ext w))"
    proof (cases "find (\<lambda>u. fst u = ?e) us")
      case None
      then have "filter (\<lambda>p. fst p \<noteq> ?e) us = us" by (auto simp: find_None_iff filter_id_conv)
      with None rm us show ?thesis by (simp add: awhen_def)
    next
      case (Some p)
      with rm removeUser_ok [OF laws, of ?e v y t] us show ?thesis by (simp add: awhen_def)
    qed
    moreover have "users x = users (w_ext t) @ [(?e, Some (du_uuid user))]"
      using laws add unfolding xray_laws_def by blast
    ultimately show ?thesis using add(4) ok by (auto simp: table_ok_def distinct_map_filter)
  qed
qed

lemma update_store_ext: "update_store env f w = (r, w') \<Longrightarrow> w_ext w' = w_ext w"
  by (cases r) (auto simp: store_act_simps)

lemma table_step:
  "e \<notin> E \<Longrightarrow> (\<And>p. p \<in> X \<Longrightarrow> fst p = e) \<Longrightarrow>
   {p \<in> {p \<in> W. fst p \<noteq> e} \<union> X. fst p \<notin> E} \<union> D = {p \<in> W. fst p \<notin> insert e E} \<union> (X \<union> D)"
  by auto

lemma reconcile_loop:
  assumes laws: "xray_laws env users"
  shows "afor us (\<lambda>user.
      abind (update_store env (\<lambda>now. upsertDesiredUser now user)) (\<lambda>_.
      if du_enabled user then ensureUser env user else removeUser env (du_email user))) w = (Inr u, w') \<Longrightarrow>
    distinct (map du_email us) \<Longrightarrow> table_ok (users (w_ext w)) \<Longrightarrow>
    set (users (w_ext w')) = {p \<in> set (users (w_ext w)). fst p \<notin> du_email ` set us} \<union> desired_table us
      \<and> table_ok (users (w_ext w'))"
proof (induction us arbitrary: w)
  case Nil
  then show ?case by (auto simp: desired_table_def)
next
  case (Cons user us)
  from Cons.prems(1) obtain a v b t where
    up: "update_store env (\<lambda>now. upsertDesiredUser now user) w = (Inr a, v)" and
    act: "(if du_enabled user then ensureUser env user else removeUser env (du_email user)) v = (Inr b, t)" and
    rest: "afor us (\<lambda>user.
      abind (update_store env (\<lambda>now. upsertDesiredUser now user)) (\<lambda>_.
      if du_enabled user then ensureUser env user else removeUser env (du_email user))) t = (Inr u, w')"
    by (auto simp: act_simps)
  have v: "w_ext v = w_ext w" by (rule update_store_ext [OF up])
  have t: "set (users (w_ext t)) = {p \<in> set (users (w_ext w)). fst p \<noteq> du_email user}
        \<union> (if du_enabled user then {(du_email user, Some (du_uuid user))} else {})
      \<and> table_ok (users (w_ext t))"
  proof (cases "du_enabled user")
    case True
    with act ensureUser_ok [OF laws, of user v b t] Cons.prems(3) v show ?thesis by simp
  next
    case False
    with act removeUser_ok [OF laws, of "du_email user" v b t] Cons.prems(3) v show ?thesis
      by (auto simp: table_ok_filter)
  qed
  define X where "X = (if du_enabled user then {(du_email user, Some (du_uuid user))} else {})"
  have X: "desired_table (user # us) = X \<union> desired_table us" by (auto simp: desired_table_def X_def)
  have "p \<in> X \<Longrightarrow> fst p = du_email user" for p by (auto simp: X_def split: if_splits)
  moreover have "du_email user \<notin> du_email ` set us" using Cons.prems(2) by simp
  moreover have "set (users (w_ext w')) = {p \<in> set (users (w_ext t)). fst p \<notin> du_email ` set us} \<union> desired_table us"
    and "table_ok (users (w_ext w'))"
    using Cons.IH [OF rest] Cons.prems(2) t by auto
  moreover have "set (users (w_ext t)) = {p \<in> set (users (w_ext w)). fst p \<noteq> du_email user} \<union> X"
    using t by (simp add: X_def)
  ultimately show ?case
    using table_step [of "du_email user" "du_email ` set us" X "set (users (w_ext w))" "desired_table us"]
    unfolding X by simp
qed

lemma sweep_loop:
  assumes laws: "xray_laws env users"
  shows "afor actual (\<lambda>user. awhen (fst user \<notin> D) (removeUser env (fst user))) w = (Inr u, w') \<Longrightarrow>
    users (w_ext w') = filter (\<lambda>p. \<not> (fst p \<in> fst ` set actual \<and> fst p \<notin> D)) (users (w_ext w))"
proof (induction actual arbitrary: w)
  case Nil
  then show ?case by simp
next
  case (Cons p actual)
  from Cons.prems obtain a t where
    rm: "awhen (fst p \<notin> D) (removeUser env (fst p)) w = (Inr a, t)" and
    rest: "afor actual (\<lambda>user. awhen (fst user \<notin> D) (removeUser env (fst user))) t = (Inr u, w')"
    by (auto simp: act_simps)
  have "users (w_ext t) = filter (\<lambda>q. \<not> (fst q = fst p \<and> fst p \<notin> D)) (users (w_ext w))"
  proof (cases "fst p \<in> D")
    case True
    with rm show ?thesis by (simp add: awhen_def filter_id_conv)
  next
    case False
    with rm removeUser_ok [OF laws, of "fst p" w a t] show ?thesis by (simp add: awhen_def)
  qed
  with Cons.IH [OF rest] show ?case by (auto intro: filter_cong)
qed

lemma reconcile_table:
  assumes laws: "xray_laws env users" and run: "reconcile env us w = (Inr u, w')"
    and "distinct (map du_email us)" and "table_ok (users (w_ext w))"
  shows "set (users (w_ext w')) = desired_table us"
proof -
  from run obtain actual v a t where l: "listUsers env w = (Inr actual, v)"
    and loop: "afor us (\<lambda>user.
      abind (update_store env (\<lambda>now. upsertDesiredUser now user)) (\<lambda>_.
      if du_enabled user then ensureUser env user else removeUser env (du_email user))) v = (Inr a, t)"
    and sweep: "afor actual (\<lambda>user. awhen (fst user \<notin> du_email ` set us) (removeUser env (fst user))) t = (Inr u, w')"
    by (auto simp: reconcile_def act_simps)
  note actual = listUsers_ok [OF laws l]
  from reconcile_loop [OF laws loop assms(3)] assms(4) actual
  have t: "set (users (w_ext t)) = {p \<in> set (users (w_ext w)). fst p \<notin> du_email ` set us} \<union> desired_table us"
    by simp
  show ?thesis
    unfolding sweep_loop [OF laws sweep] using t actual by (auto simp: desired_table_def)
qed

section \<open>Without the write permission nothing outside is touched\<close>

definition same_ext :: "'x \<Rightarrow> ('x, 'm) agent_world_scheme \<Rightarrow> bool" where
  "same_ext x w \<longleftrightarrow> w_ext w = x"

lemma same_ext_store [keeps_intros]:
  "keeps (same_ext x) (on_store f)" "keeps (same_ext x) (set_store g)" "keeps (same_ext x) (update_store env h)"
  by (auto simp: keeps_def same_ext_def on_store_def set_store_def amodify_def update_store_def
      split: sum.splits prod.splits)

lemma same_ext_snapshot [keeps_intros]: "keeps (same_ext x) (apply_snapshot env snapshot)"
  by (auto simp: keeps_def same_ext_def apply_snapshot_def on_store_def split: sum.splits prod.splits)

lemma same_ext_readonly: "keeps (same_ext x) (apply_command env command False)"
  unfolding apply_command_def apply_reconcile_def Let_def
  by (cases "cmd_type command") (simp_all only: command_type.case, (intro keeps_intros | simp add: awhen_def)+)

lemma same_ext_execute: "keeps (same_ext x) (execute env command False)"
  unfolding execute_def execute_body_def by (intro keeps_intros same_ext_readonly)

section \<open>A deployment's report\<close>

lemma parseHelperResult_ensure:
  "parseHelperResult raw requestId Ensure = Inr (Some r) \<Longrightarrow>
   public_key_ok (hr_realityPublicKey r) \<and> short_id_ok (hr_shortId r)"
  by (auto simp: parseHelperResult_def Let_def split: option.splits json.splits if_splits)

lemma poll_result_ensure:
  "poll_result env requestId Ensure deadline n w = (Inr r, w') \<Longrightarrow>
   public_key_ok (hr_realityPublicKey r) \<and> short_id_ok (hr_shortId r)"
proof (induction n arbitrary: w)
  case 0
  then show ?case by simp
next
  case (Suc n)
  then obtain v where v: "(case env_readResult env (w_ext v) of
         Missing \<Rightarrow> poll_result env requestId Ensure deadline n
       | Unreadable e \<Rightarrow> athrow e
       | NotRegular \<Rightarrow> athrow (External ''result file'')
       | ResultFile bytes raw \<Rightarrow>
           if bytes > MAX_RESULT_BYTES then athrow (External ''result size'')
           else abind (alift (parseHelperResult raw requestId Ensure)) (\<lambda>result.
             case result of
               Some r \<Rightarrow> aret r
             | None \<Rightarrow> poll_result env requestId Ensure deadline n)) v = (Inr r, w')"
    by (auto simp: act_simps split: if_splits)
  show ?case
  proof (cases "env_readResult env (w_ext v)")
    case (ResultFile bytes raw)
    with v obtain result where result: "parseHelperResult raw requestId Ensure = Inr result"
      and rest: "(case result of Some r \<Rightarrow> aret r
        | None \<Rightarrow> poll_result env requestId Ensure deadline n) v = (Inr r, w')"
      by (auto simp: act_simps split: if_splits)
    show ?thesis
    proof (cases result)
      case None
      with rest Suc.IH show ?thesis by simp
    next
      case (Some h)
      with rest result parseHelperResult_ensure show ?thesis by auto
    qed
  qed (use v Suc.IH in auto)
qed

lemma applier_apply_ok:
  "applier_apply env spec requestId commandId listen w = (Inr r, w') \<Longrightarrow>
   public_key_ok (hr_realityPublicKey r) \<and> short_id_ok (hr_shortId r)"
  by (auto simp: applier_apply_def helper_request_def act_simps dest: poll_result_ensure)

lemma check_deployed_ok: "check_deployed spec r = Inr u \<Longrightarrow> hr_serverName r \<in> set (is_serverNames spec)"
  by (auto simp: check_deployed_def split: if_splits)

lemma resolvePublicHost_ok: "resolvePublicHost env w = (Inr h, w') \<Longrightarrow> agent_isPublicUnicastAddress h"
  by (auto simp: resolvePublicHost_def act_simps split: if_splits)

lemma ensureInbound_report:
  fixes w :: "('x, 'm) agent_world_scheme"
  assumes "ensureInbound env command w = (Inr rep, w')"
  shows "\<exists>spec. parseInboundSpec (cmd_payload command) (env_inboundTag env) = Inr spec \<and> report_matches rep spec"
proof -
  from assms obtain spec h applied u v and a b c d :: "('x, 'm) agent_world_scheme" where
    "parseInboundSpec (cmd_payload command) (env_inboundTag env) = Inr spec"
    and "resolvePublicHost env a = (Inr h, b)"
    and "applier_apply env spec u v (requiredListen h) c = (Inr applied, d)"
    and "check_deployed spec applied = Inr ()"
    and "rep_inboundTag rep = is_inboundTag spec" "rep_serverPort rep = is_listenPort spec"
      "rep_flow rep = is_flow spec" "rep_fingerprint rep = is_fingerprint spec" "rep_spiderX rep = is_spiderX spec"
      "rep_serverName rep = hr_serverName applied" "rep_serverHost rep = h"
      "rep_realityPublicKey rep = hr_realityPublicKey applied" "rep_shortId rep = hr_shortId applied"
    unfolding ensureInbound_def Let_def by (auto simp: act_simps split: if_splits)
  then show ?thesis
    using applier_apply_ok check_deployed_ok resolvePublicHost_ok by (fastforce simp: report_matches_def)
qed

lemma execute_inbound:
  fixes w :: "('x, 'm) agent_world_scheme"
  assumes "execute env command True w = (Inr res, w')" and "cmd_type command = ENSURE_INBOUND"
    and "tfind cr_command_id (cmd_id command) (st_commands (w_store w)) = None" and "res_status res = Completed"
  shows "\<exists>spec rep ms. parseInboundSpec (cmd_payload command) (env_inboundTag env) = Inr spec
    \<and> report_matches rep spec \<and> res_result res = Some ms
    \<and> map_of ms ''inbound'' = Some (JObj (report_json rep))"
proof -
  from assms(1,3) obtain v t :: "('x, 'm) agent_world_scheme"
    where "execute_body env command True v = (Inr res, t)"
    by (auto simp: execute_def act_simps on_store_Inr beginCommand_def result_simps)
  with assms(4) obtain extra t where "apply_command env command True v = (Inr extra, t)"
    and "res_result res = Some ([(''appliedRevision'', JStr (cmd_targetRevision command))] @ extra)"
    by (auto simp: execute_body_def acatch_def act_simps split: prod.splits sum.splits)
  moreover from this(1) assms(2) obtain rep s where "ensureInbound env command v = (Inr rep, s)"
    "extra = [(''inbound'', JObj (report_json rep))]"
    by (auto simp: apply_command_def act_simps)
  ultimately show ?thesis using ensureInbound_report [of env command v rep s] by auto
qed

section \<open>A concrete environment\<close>

text \<open>Outside is Xray's user table; every call succeeds, the helper answers at once.\<close>

type_synonym demo = "(string \<times> string option) list"

definition ok :: "'a \<Rightarrow> 'a sdk_result" where
  "ok a = \<lparr>sdk_isOk = True, sdk_data = Some a, sdk_message = []\<rparr>"

definition demo_key :: string where
  "demo_key = ''AAAAAAAAAAAAAAAAAAAAAAAAAAAAAAAAAAAAAAAAAAA''"

definition demo_answer :: json where
  "demo_answer = JObj [(''requestId'', JStr ''req-1''), (''ok'', JBool True), (''listen'', JStr ''::''),
     (''listenPort'', JNum 443), (''realityPublicKey'', JStr demo_key), (''shortId'', JStr ''ab''),
     (''serverName'', JStr ''www.microsoft.com'')]"

definition demo_snapshot :: AgentConfigSnapshot where
  "demo_snapshot = \<lparr>snap_nodeId = ''node-1'', snap_revision = ''1'', snap_controlMode = Direct_primary,
     snap_users = []\<rparr>"

definition demo_env :: "demo agent_env" where
  "demo_env = \<lparr>env_inboundTag = ''vless-in'', env_publicHost = ''8.8.8.8'', env_hasApplier = True,
     env_restartToleranceMs = 5000, env_now = (\<lambda>x. ''t1''), env_nowMs = (\<lambda>x. 0),
     env_sleep = (\<lambda>ms x. x), env_randomUUID = (\<lambda>x. (''req-1'', x)), env_sha256hex = (\<lambda>j. ''digest''),
     sdk_getSysStats = (\<lambda>x. (Inr (ok (Some 1)), x)),
     sdk_getInboundUsers = (\<lambda>tag x. (Inr (ok x), x)),
     sdk_getAllUsersStats = (\<lambda>x. (Inr (ok []), x)),
     sdk_addVlessUser = (\<lambda>tag e u f x. (Inr (ok True), x @ [(e, Some u)])),
     sdk_removeUser = (\<lambda>tag e x. (Inr (ok True), filter (\<lambda>p. fst p \<noteq> e) x)),
     env_helperInstalled = (\<lambda>x. True), env_writeRequest = (\<lambda>request x. (Inr (), x)),
     env_readResult = (\<lambda>x. ResultFile 100 (Some demo_answer)),
     api_getConfig = (\<lambda>x. (Inr demo_snapshot, x)), api_whoami = (\<lambda>x. (Inr None, x)),
     api_uploadBatch = (\<lambda>b x. (Inr \<lparr>ack_accepted = True, ack_duplicate = False, ack_ackThrough = ub_sequence b\<rparr>, x)),
     api_heartbeat = (\<lambda>h x. (Inr \<lparr>hbr_configRevision = ''0'', hbr_ackThrough = ''0''\<rparr>, x)),
     api_reportCommandResult = (\<lambda>r x. (Inr (), x))\<rparr>"

definition demo_world :: "demo agent_world" where
  "demo_world = \<lparr>w_store = ex_store, w_ext = [(''u1'', Some ''old''), (''u9'', None)]\<rparr>"

lemma demo_laws: "xray_laws demo_env (\<lambda>x. x)"
  by (simp add: xray_laws_def demo_env_def ok_def)

definition demo_command :: AgentCommand where
  "demo_command = \<lparr>cmd_id = ''c1'', cmd_type = REFRESH_QUOTA, cmd_targetRevision = ''7'',
     cmd_payload = [(''bindingId'', JStr ''b1''), (''quotaRemainingBytes'', JStr ''50'')], cmd_createdAt = ''t0''\<rparr>"

lemma demo_command_runs:
  "case execute demo_env demo_command True demo_world of
     (Inl e, w) \<Rightarrow> False | (Inr res, w) \<Rightarrow> res_status res = Completed"
  by code_simp

section \<open>The ledger after an execution\<close>

lemma begin_replay:
  "beginCommand c st = Inr (Some r, st') \<Longrightarrow> cmd_id again = cmd_id c \<Longrightarrow>
   st' = st \<and> beginCommand again st = Inr (Some r, st)"
  by (auto simp: beginCommand_def result_simps split: option.splits if_splits)

lemma execute_body_id: "execute_body env command writable w = (Inr res, w') \<Longrightarrow> res_commandId res = cmd_id command"
  by (auto simp: execute_body_def acatch_def act_simps split: prod.splits sum.splits)

lemma keeps_execute_body: "keeps (store_only (has_command i)) (execute_body env command writable)"
  unfolding execute_body_def by (intro keeps_intros ledger.world.keeps_apply_command ledger.world.keeps_advance)

lemma execute_Inr:
  fixes w :: "('x, 'm) agent_world_scheme"
  assumes "execute env command writable w = (Inr res, w')"
  obtains (replayed) "beginCommand command (w_store w) = Inr (Some res, w_store w')"
      and "w' = w\<lparr>w_store := w_store w'\<rparr>"
  | (executed) st t where "beginCommand command (w_store w) = Inr (None, st)"
      and "execute_body env command writable (w\<lparr>w_store := st\<rparr>) = (Inr res, t)"
      and "w' = t\<lparr>w_store := completeCommand (env_now env (w_ext t)) res (w_store t)\<rparr>"
proof -
  from assms obtain previous st where begin1: "beginCommand command (w_store w) = Inr (previous, st)"
    and rest: "(case previous of
       Some result \<Rightarrow> aret result
     | None \<Rightarrow> abind (execute_body env command writable) (\<lambda>result.
         abind (aget (\<lambda>w. env_now env (w_ext w))) (\<lambda>now.
         abind (set_store (completeCommand now result)) (\<lambda>_. aret result)))) (w\<lparr>w_store := st\<rparr>) = (Inr res, w')"
    by (auto simp: execute_def act_simps on_store_Inr)
  show thesis
  proof (cases previous)
    case (Some old)
    with rest begin1 show ?thesis by (intro replayed) auto
  next
    case None
    with rest obtain t where "execute_body env command writable (w\<lparr>w_store := st\<rparr>) = (Inr res, t)"
      "w' = t\<lparr>w_store := completeCommand (env_now env (w_ext t)) res (w_store t)\<rparr>"
      by (auto simp: act_simps set_store_def)
    with begin1 None show ?thesis by (intro executed) simp_all
  qed
qed

lemma execute_recorded:
  fixes w :: "('x, 'm) agent_world_scheme"
  assumes "execute env command writable w = (Inr res, w')" and "res_status res = Completed"
    and "cmd_id again = cmd_id command"
  shows "beginCommand again (w_store w') = Inr (Some res, w_store w')"
  using assms(1)
proof (cases rule: execute_Inr)
  case replayed
  with begin_replay [of command "w_store w" res "w_store w'"] assms(3) show ?thesis by auto
next
  case (executed st t)
  have "has_command (cmd_id command) st" by (rule begin_adds_command [OF executed(1)])
  then have "has_command (cmd_id command) (w_store t)"
    using keepsD [OF keeps_execute_body _ executed(2), of "cmd_id command"] by (simp add: world_inv_def)
  then show ?thesis
    using begin_after_complete [of again "w_store t" res] execute_body_id [OF executed(2)] assms(2,3) executed(3)
    by simp
qed

section \<open>Properties\<close>



text \<open>
  C14: a node whose mode does not allow writes never changes anything outside the process,
  whatever the command: Xray, the helper and the control plane are left as they were.
\<close>

theorem execute_readonly_touches_nothing:
  "w_ext (snd (execute env command False w)) = w_ext w"
  using same_ext_execute [of "w_ext w" env command] unfolding keeps_def same_ext_def by blast

text \<open>
  C15: when a reconciliation succeeds, Xray serves exactly the enabled desired users with
  their credentials: missing users were added, changed ones replaced, disabled and foreign
  ones removed.
\<close>

theorem reconcile_exact:
  assumes "xray_laws env users" and "reconcile env us w = (Inr (), w')"
    and "distinct (map du_email us)" and "distinct (map fst (users (w_ext w)))"
  shows "set (users (w_ext w')) = (\<lambda>u. (du_email u, Some (du_uuid u))) ` {u \<in> set us. du_enabled u}"
  using reconcile_table [OF assms(1-3)] assms(4) by (simp add: table_ok_def desired_table_def)

lemma demo_reconcile_runs:
  "fst (reconcile demo_env [ex_user] demo_world) = Inr ()"
  by code_simp

theorem reconcile_exact_witness:
  "set (w_ext (snd (reconcile demo_env [ex_user] demo_world))) = {(''u1'', Some ''id'')}"
proof -
  have "reconcile demo_env [ex_user] demo_world = (Inr (), snd (reconcile demo_env [ex_user] demo_world))"
    using demo_reconcile_runs by (metis prod.collapse)
  moreover have "distinct (map du_email [ex_user])" by simp
  moreover have "distinct (map fst (w_ext demo_world))" by (simp add: demo_world_def)
  ultimately have "set (w_ext (snd (reconcile demo_env [ex_user] demo_world)))
      = (\<lambda>u. (du_email u, Some (du_uuid u))) ` {u \<in> set [ex_user]. du_enabled u}"
    by (rule reconcile_exact [OF demo_laws])
  also have "{u \<in> set [ex_user]. du_enabled u} = {ex_user}" by (auto simp: ex_user_def)
  finally show ?thesis by (simp add: ex_user_def)
qed


definition demo_inbound :: AgentCommand where
  "demo_inbound = \<lparr>cmd_id = ''c2'', cmd_type = ENSURE_INBOUND, cmd_targetRevision = ''8'',
     cmd_payload = spec_json default_spec, cmd_createdAt = ''t0''\<rparr>"

lemma demo_host: "agent_isPublicUnicastAddress ''8.8.8.8''"
proof -
  have v: "isIPv4 ''8.8.8.8''" by code_simp
  have "octet_text ''8''" by code_simp
  then show ?thesis
    using isIPv4_plain [OF v] v
    by (simp add: agent_isPublicUnicastAddress_def isIP_def isPublicIPv4_def elem_at_def js_Number_octet
        dec_val_def digits_val_def digit_val_def)
qed

lemma demo_spec: "parseInboundSpec (spec_json default_spec) ''vless-in'' = Inr default_spec"
  using parse_spec_json [OF normalize_wf [OF normalize_empty]] by (simp add: default_spec_def)

lemma demo_env_sel [simp]:
  "env_inboundTag demo_env = ''vless-in''" "env_hasApplier demo_env" "env_now demo_env = (\<lambda>x. ''t1'')"
  "env_nowMs demo_env = (\<lambda>x. 0)" "env_publicHost demo_env = ''8.8.8.8''"
  "env_sleep demo_env = (\<lambda>ms x. x)" "env_randomUUID demo_env = (\<lambda>x. (''req-1'', x))"
  "sdk_getSysStats demo_env = (\<lambda>x. (Inr (ok (Some 1)), x))"
  "sdk_getInboundUsers demo_env = (\<lambda>tag x. (Inr (ok x), x))"
  "env_writeRequest demo_env = (\<lambda>request x. (Inr (), x))"
  "env_readResult demo_env = (\<lambda>x. ResultFile 100 (Some demo_answer))"
  by (simp_all add: demo_env_def)

definition demo_result :: HelperResult where
  "demo_result = \<lparr>hr_requestId = ''req-1'', hr_ok = True, hr_changed = False, hr_restarted = False,
     hr_realityPublicKey = demo_key, hr_shortId = ''ab'', hr_serverName = ''www.microsoft.com'',
     hr_listen = ''::'', hr_deployed = False, hr_listenPort = 443, hr_xrayVersion = []\<rparr>"

lemma demo_calls:
  fixes w :: "demo agent_world"
  shows "resolvePublicHost demo_env w = (Inr ''8.8.8.8'', w)"
    and "randomUUID demo_env w = (Inr ''req-1'', w)"
    and "applier_apply demo_env spec ''req-1'' c l w = (Inr demo_result, w)"
    and "waitForInbound demo_env 15 1000 e w = (Inr (), w)"
proof -
  show "resolvePublicHost demo_env w = (Inr ''8.8.8.8'', w)"
    using demo_host by (simp add: resolvePublicHost_def env_resolvePublicHost_def abind_def aret_def)
  show "randomUUID demo_env w = (Inr ''req-1'', w)"
    by (simp add: randomUUID_def outside_def)
  have answer: "parseHelperResult (Some demo_answer) ''req-1'' Ensure = Inr (Some demo_result)"
    by code_simp
  have rounds: "(480::nat) = Suc 479" "(15::nat) = Suc 14" by simp_all
  have "poll_result demo_env ''req-1'' Ensure 120000 480 w = (Inr demo_result, w)"
    unfolding rounds poll_result.simps
    using answer by (simp add: abind_def sleep_def outside_def MAX_RESULT_BYTES_def aget_def alift_def aret_def)
  then show "applier_apply demo_env spec ''req-1'' c l w = (Inr demo_result, w)"
    by (simp add: applier_apply_def helper_request_def pollIntervalMs_def abind_def outside_def aget_def)
  show "waitForInbound demo_env 15 1000 e w = (Inr (), w)"
    unfolding rounds waitForInbound.simps
    by (simp add: abind_def acatch_def xray_health_def inboundLive_def outside_def ok_def aret_def)
qed

lemma demo_no_users:
  fixes w :: "demo agent_world"
  shows "change_flow demo_env spec [] w = (Inr [], w)"
    and "w_ext w = [] \<Longrightarrow> reconcile demo_env [] w = (Inr (), w)"
  by (simp_all add: change_flow_def reconcile_def listUsers_def abind_def outside_def ok_def aret_def)

definition demo_world0 :: "demo agent_world" where
  "demo_world0 = \<lparr>w_store = ex_store0, w_ext = []\<rparr>"

lemma demo_inbound_runs:
  "\<exists>res w'. execute demo_env demo_inbound True demo_world0 = (Inr res, w') \<and> res_status res = Completed"
proof -
  have listen: "requiredListen ''8.8.8.8'' = []" by code_simp
  have check: "check_deployed default_spec demo_result = Inr ()"
    by (simp add: check_deployed_def demo_result_def default_spec_def)
  have mode: "map_of (spec_json default_spec) ''mode'' = None" by (simp add: spec_json_def)
  have inbound: "\<exists>rep v. ensureInbound demo_env demo_inbound w = (Inr rep, v) \<and> st_meta (w_store v) = st_meta (w_store w)"
    if "w_ext w = []" "st_users (w_store w) = []" "st_inbound (w_store w) = None" for w :: "demo agent_world"
    using that
    by (simp add: ensureInbound_def Let_def demo_inbound_def mode abind_def alift_def demo_spec aget_def getInboundState_def
        aret_def demo_calls set_store_def amodify_def setInboundState_def check listen listDesiredUsers_def demo_no_users)
  define w :: "demo agent_world" where "w = \<lparr>w_store = ex_store0\<lparr>st_commands :=
      [\<lparr>cr_command_id = ''c2'', cr_command_type = ENSURE_INBOUND, cr_target_revision = ''8'',
        cr_payload = demo_inbound, cr_result = None, cr_completed_at = None\<rparr>]\<rparr>, w_ext = []\<rparr>"
  have "w_ext w = []" "st_users (w_store w) = []" "st_inbound (w_store w) = None" "st_meta (w_store w) = st_meta ex_store0"
    by (simp_all add: w_def ex_store0_def)
  with inbound [of w] obtain rep v where "ensureInbound demo_env demo_inbound w = (Inr rep, v)"
    "st_meta (w_store v) = st_meta ex_store0"
    by auto
  moreover have "on_store (beginCommand demo_inbound) demo_world0 = (Inr None, w)"
    by (simp add: on_store_def beginCommand_def demo_inbound_def demo_world0_def ex_store0_def w_def)
  moreover have "getConfigRevision (w_store v) = ''0''"
    using calculation(2) by (simp add: getConfigRevision_def getMeta_def ex_store0_def)
  ultimately show ?thesis
    by (simp add: execute_def execute_body_def apply_command_def abind_def acatch_def aret_def update_store_def
        on_store_def advanceConfigRevision_def demo_inbound_def set_store_def amodify_def aget_def)
qed


end
