(* ===== verification/AgentRunner.thy ===== *)
theory AgentRunner
  imports CommandSpec
begin

text \<open>
  The agent's main loop (\<open>apps/node-agent/src/runner.ts\<close>): configuration refresh, inbound
  hygiene at start, recovery after Xray restarts, sampling, upload of batches, heartbeats and
  the handling of a delivered command.  \<open>withStateMutation\<close> serialises the operations that
  change state, so an operation here runs without interleaving.  Timers, the event stream's
  reconnection and logging are not modelled; each timer tick is one of the actions below.
\<close>

section \<open>State\<close>

record 'x runner_world = "'x agent_world" +
  r_backendOnline :: bool
  r_xrayHealthy :: bool
  r_currentConfig :: AgentConfigSnapshot
  r_lastXrayStart :: rat
  r_reconcilePending :: bool
  r_awaitingInbound :: bool
  r_foreignInbound :: bool

definition newRunner :: "agent_store \<Rightarrow> 'x \<Rightarrow> 'x runner_world" where
  "newRunner st x = \<lparr>w_store = st, w_ext = x, r_backendOnline = False, r_xrayHealthy = False,
     r_currentConfig = getConfigSnapshot st, r_lastXrayStart = 0, r_reconcilePending = False,
     r_awaitingInbound = False, r_foreignInbound = False\<rparr>"

definition set_online :: "bool \<Rightarrow> ('x runner_world, unit) act" where
  "set_online b = amodify (\<lambda>w. w\<lparr>r_backendOnline := b\<rparr>)"

definition set_pending :: "bool \<Rightarrow> ('x runner_world, unit) act" where
  "set_pending b = amodify (\<lambda>w. w\<lparr>r_reconcilePending := b\<rparr>)"

definition reload_config :: "('x runner_world, unit) act" where
  "reload_config = amodify (\<lambda>w. w\<lparr>r_currentConfig := getConfigSnapshot (w_store w)\<rparr>)"

definition in_direct :: "'x runner_world \<Rightarrow> bool" where
  "in_direct w \<longleftrightarrow> snap_controlMode (r_currentConfig w) = Direct_primary"

section \<open>Recovery of Xray's users\<close>

definition reconcileUsers :: "'x agent_env \<Rightarrow> DesiredUser list \<Rightarrow> ('x runner_world, unit) act" where
  "reconcileUsers env users =
     abind (aget r_awaitingInbound) (\<lambda>awaiting.
     if awaiting then set_pending True else reconcile env users)"

definition flushPendingReconcile :: "'x agent_env \<Rightarrow> ('x runner_world, unit) act" where
  "flushPendingReconcile env =
     abind (aget (\<lambda>w. \<not> r_reconcilePending w \<or> \<not> in_direct w \<or> r_awaitingInbound w)) (\<lambda>skip.
     if skip then aret ()
     else abind (aget (\<lambda>w. listDesiredUsers (w_store w))) (\<lambda>users.
       abind (reconcile env users) (\<lambda>_. set_pending False)))"

definition checkXrayAndRecover :: "'x agent_env \<Rightarrow> ('x runner_world, unit) act" where
  "checkXrayAndRecover env =
     abind (xray_health env) (\<lambda>_.
     abind (amodify (\<lambda>w. if \<not> r_xrayHealthy w then w\<lparr>r_reconcilePending := True\<rparr> else w)) (\<lambda>_.
     abind (amodify (\<lambda>w. w\<lparr>r_xrayHealthy := True\<rparr>)) (\<lambda>_.
     flushPendingReconcile env)))"

definition detectXrayRestart :: "'x agent_env \<Rightarrow> ('x runner_world, unit) act" where
  "detectXrayRestart env =
     abind (uptimeSeconds env) (\<lambda>uptime.
     abind (amodify (\<lambda>w.
       let startEstimate = of_int (env_nowMs env (w_ext w)) - uptime * 1000;
           w = (if r_lastXrayStart w > 0
                   \<and> startEstimate - r_lastXrayStart w > of_int (env_restartToleranceMs env)
                then w\<lparr>r_reconcilePending := True\<rparr> else w)
       in w\<lparr>r_lastXrayStart := startEstimate\<rparr>)) (\<lambda>_.
     abind (aget (\<lambda>w. if in_direct w \<and> \<not> r_awaitingInbound w
                      then filter du_enabled (listDesiredUsers (w_store w)) else [])) (\<lambda>desired.
     abind (awhen (desired \<noteq> [])
       (abind (listUsers env) (\<lambda>live.
        awhen (list_ex (\<lambda>user. du_email user \<notin> fst ` set live) desired) (set_pending True)))) (\<lambda>_.
     flushPendingReconcile env))))"

section \<open>Sampling\<close>

definition record_sample ::
  "'x agent_env \<Rightarrow> AbsoluteCounter list \<Rightarrow> ('x runner_world, SampleResult) act" where
  "record_sample env counters w =
     on_store (recordSample counters (env_now env (w_ext w)) (r_backendOnline w)) w"

definition sampleWithinStateMutation :: "'x agent_env \<Rightarrow> ('x runner_world, unit) act" where
  "sampleWithinStateMutation env =
     acatch
       (abind (checkXrayAndRecover env) (\<lambda>_.
        abind (detectXrayRestart env) (\<lambda>_.
        abind (readAbsoluteCounters env) (\<lambda>counters.
        abind (record_sample env counters) (\<lambda>result.
        abind (aget in_direct) (\<lambda>direct.
        awhen direct (afor (sr_disableEmails result) (removeUser env))))))))
       (\<lambda>error. abind (amodify (\<lambda>w. w\<lparr>r_xrayHealthy := False\<rparr>)) (\<lambda>_. athrow error))"

section \<open>Configuration\<close>

text \<open>The users to reconcile when usage-disabled users must not come back before their last
  batches are accounted: whoever is disabled here stays disabled.\<close>

definition preserve_disables :: "DesiredUser list \<Rightarrow> DesiredUser list \<Rightarrow> DesiredUser list" where
  "preserve_disables local users = map (\<lambda>user.
     case map_of (rev (map (\<lambda>u. (du_bindingId u, du_enabled u)) local)) (du_bindingId user) of
       Some False \<Rightarrow> user\<lparr>du_enabled := False\<rparr> | _ \<Rightarrow> user) users"

definition removes_enabled :: "DesiredUser list \<Rightarrow> DesiredUser list \<Rightarrow> bool" where
  "removes_enabled local users = list_ex (\<lambda>user. du_enabled user
     \<and> map_of (rev (map (\<lambda>u. (du_bindingId u, du_enabled u)) users)) (du_bindingId user) \<noteq> Some True) local"

definition must_preserve :: "agent_store \<Rightarrow> (agent_error, bool) result" where
  "must_preserve st = (if pendingBatchCount st > 0 then hasUsageDisabledUsers st else Inr False)"

definition install_snapshot :: "'x agent_env \<Rightarrow> AgentConfigSnapshot \<Rightarrow> ('x runner_world, unit) act" where
  "install_snapshot env snapshot =
     abind (apply_snapshot env snapshot) (\<lambda>_. reload_config)"

definition refreshConfig :: "'x agent_env \<Rightarrow> ('x runner_world, AgentConfigSnapshot) act" where
  "refreshConfig env =
     abind (outside (api_getConfig env)) (\<lambda>snapshot.
     abind (aget (\<lambda>w. getConfigSnapshot (w_store w))) (\<lambda>current.
     abind (alift (isOlderRevision (snap_revision snapshot) (snap_revision current))) (\<lambda>old.
     abind (if old then aret current
       else if snap_controlMode snapshot = Direct_primary
       then
         abind (aget (\<lambda>w. removes_enabled (listDesiredUsers (w_store w)) (snap_users snapshot))) (\<lambda>removes.
         abind (awhen removes (sampleWithinStateMutation env)) (\<lambda>_.
         abind (aget w_store) (\<lambda>st.
         abind (alift (must_preserve st)) (\<lambda>preserve.
         let users = (if preserve then preserve_disables (listDesiredUsers st) (snap_users snapshot)
                      else snap_users snapshot)
         in abind (reconcileUsers env users) (\<lambda>_.
            abind (install_snapshot env (snapshot\<lparr>snap_users := users\<rparr>)) (\<lambda>_.
            aret snapshot))))))
       else abind (install_snapshot env snapshot) (\<lambda>_. aret snapshot)) (\<lambda>applied.
     abind (set_online True) (\<lambda>_.
     aret applied)))))"

definition restore_users :: "'x agent_env \<Rightarrow> DesiredUser list \<Rightarrow> ('x runner_world, unit) act" where
  "restore_users env users = update_store env (\<lambda>now. restoreBackendConfirmedUsers now users)"

definition recoverBackendConfirmedUsers ::
  "'x agent_env \<Rightarrow> AgentConfigSnapshot \<Rightarrow> ('x runner_world, unit) act" where
  "recoverBackendConfirmedUsers env snapshot =
     abind (aget w_store) (\<lambda>st.
     abind (alift (if pendingBatchCount st \<noteq> 0 then Inr False else hasUsageDisabledUsers st)) (\<lambda>go.
     if \<not> go then aret ()
     else
       abind (restore_users env (snap_users snapshot)) (\<lambda>_.
       abind reload_config (\<lambda>_.
       abind (aget in_direct) (\<lambda>direct.
       abind (aget (\<lambda>w. listDesiredUsers (w_store w))) (\<lambda>users.
       awhen direct (reconcileUsers env users)))))))"

section \<open>Inbound hygiene\<close>

definition set_awaiting :: "('x runner_world, unit) act" where
  "set_awaiting =
     abind (set_store (setInboundAwaiting True)) (\<lambda>_.
     amodify (\<lambda>w. w\<lparr>r_awaitingInbound := True\<rparr>))"

definition probeInbound :: "'x agent_env \<Rightarrow> ('x runner_world, unit) act" where
  "probeInbound env =
     abind (amodify (\<lambda>w. w\<lparr>r_foreignInbound := False\<rparr>)) (\<lambda>_.
     abind (aget (\<lambda>w. env_helperInstalled env (w_ext w))) (\<lambda>installed.
     if \<not> installed then aret ()
     else
       abind (acatch (abind (randomUUID env) (\<lambda>u. abind (applier_status env u) (\<lambda>r. aret (Some r))))
                (\<lambda>e. aret None)) (\<lambda>status.
       case status of
         None \<Rightarrow> aret ()
       | Some r \<Rightarrow>
           if \<not> hr_deployed r then set_awaiting
           else abind (aget (\<lambda>w. getInboundState (w_store w))) (\<lambda>ours.
             if ours \<noteq> None then aret ()
             else abind (amodify (\<lambda>w. w\<lparr>r_foreignInbound := True\<rparr>)) (\<lambda>_. set_awaiting)))))"

definition discardForeignInbound :: "'x agent_env \<Rightarrow> ('x runner_world, unit) act" where
  "discardForeignInbound env =
     abind (aget (\<lambda>w. r_foreignInbound w \<and> in_direct w \<and> getInboundState (w_store w) = None)) (\<lambda>go.
     if \<not> go then aret ()
     else
       abind (randomUUID env) (\<lambda>u.
       abind (applier_reset env u) (\<lambda>_.
       set_pending True)))"

definition start :: "'x agent_env \<Rightarrow> ('x runner_world, unit) act" where
  "start env =
     abind (amodify (\<lambda>w. w\<lparr>r_awaitingInbound := isInboundAwaiting (w_store w)\<rparr>)) (\<lambda>_.
     abind (probeInbound env) (\<lambda>_.
     abind (acatch (abind (refreshConfig env) (\<lambda>_. aret ()))
       (\<lambda>error. abind (set_online False) (\<lambda>_.
          abind (aget (\<lambda>w. snap_revision (r_currentConfig w) = ''0'')) (\<lambda>fresh.
          if fresh then athrow error else aret ())))) (\<lambda>_.
     abind (discardForeignInbound env) (\<lambda>_.
     abind (checkXrayAndRecover env) (\<lambda>_.
     acatch (detectXrayRestart env) (\<lambda>e. aret ()))))))"

section \<open>Talking to the control plane\<close>

definition ack_through :: "string \<Rightarrow> string \<Rightarrow> ('x runner_world, nat) act" where
  "ack_through boot n = on_store (ackThrough boot n)"

definition upload_batch :: "'x agent_env \<Rightarrow> UsageBatch \<Rightarrow> ('x runner_world, unit) act" where
  "upload_batch env batch =
     acatch
       (abind (outside (api_uploadBatch env batch)) (\<lambda>ack.
        abind (ack_through (ub_bootId batch) (ack_ackThrough ack)) (\<lambda>_.
        set_online True)))
       (\<lambda>error. abind (set_online False) (\<lambda>_. athrow error))"

definition flushBatches :: "'x agent_env \<Rightarrow> ('x runner_world, unit) act" where
  "flushBatches env =
     abind (aget (\<lambda>w. listPendingBatches 100 (w_store w))) (\<lambda>batches.
     abind (afor batches (upload_batch env)) (\<lambda>_.
     abind (aget w_store) (\<lambda>st.
     abind (alift (if batches \<noteq> [] \<and> pendingBatchCount st = 0 then hasUsageDisabledUsers st else Inr False)) (\<lambda>go.
     if \<not> go then aret ()
     else abind (refreshConfig env) (\<lambda>snapshot. recoverBackendConfirmedUsers env snapshot)))))"

definition all_digits :: "string \<Rightarrow> bool" where
  "all_digits s \<longleftrightarrow> s \<noteq> [] \<and> list_all is_digit s"

definition sendHeartbeat :: "'x agent_env \<Rightarrow> ('x runner_world, unit) act" where
  "sendHeartbeat env =
     acatch
       (abind (aget (\<lambda>w. \<lparr>hb_bootId = st_bootId (w_store w), hb_configRevision = getConfigRevision (w_store w),
            hb_queueDepth = pendingBatchCount (w_store w), hb_xrayHealthy = r_xrayHealthy w\<rparr>)) (\<lambda>beat.
        abind (outside (api_heartbeat env beat)) (\<lambda>response.
        abind (ack_through (hb_bootId beat) (hbr_ackThrough response)) (\<lambda>_.
        abind (set_online True) (\<lambda>_.
        abind (aget (\<lambda>w. snap_controlMode (r_currentConfig w) = Shadow_direct)) (\<lambda>shadow.
        abind (aget (\<lambda>w. getConfigRevision (w_store w))) (\<lambda>revision.
        abind (alift (if shadow \<and> all_digits (hbr_configRevision response)
                      then isOlderRevision revision (hbr_configRevision response) else Inr False)) (\<lambda>newer.
        if newer then abind (refreshConfig env) (\<lambda>_. aret ()) else aret ()))))))))
       (\<lambda>error. abind (set_online False) (\<lambda>_. athrow error))"

section \<open>A delivered command\<close>

text \<open>A \<open>RECONCILE_USERS\<close> that names a control mode and is not outdated switches the mode
  before it is executed.\<close>

definition switch_mode :: "AgentCommand \<Rightarrow> ('x runner_world, unit) act" where
  "switch_mode command =
     (case (cmd_type command = RECONCILE_USERS, isNodeControlMode (map_of (cmd_payload command) ''controlMode'')) of
        (True, Some m) \<Rightarrow>
          if \<not> all_digits (cmd_targetRevision command) then aret ()
          else abind (aget (\<lambda>w. snap_revision (r_currentConfig w))) (\<lambda>revision.
            abind (alift (isOlderRevision (cmd_targetRevision command) revision)) (\<lambda>old.
            if old then aret ()
            else amodify (\<lambda>w. w\<lparr>r_currentConfig := (r_currentConfig w)\<lparr>snap_controlMode := m,
                   snap_revision := cmd_targetRevision command\<rparr>\<rparr>)))
      | _ \<Rightarrow> aret ())"

definition watermark_json :: "(string \<times> string) list \<Rightarrow> json" where
  "watermark_json ws = JArr (map (\<lambda>(boot, n).
     JObj [(''bootId'', JStr boot), (''sequenceThrough'', JStr n)]) ws)"

text \<open>\<open>{ ...result, disableWatermarks }\<close>.\<close>

definition with_watermarks :: "(string \<times> string) list \<Rightarrow> CommandResult \<Rightarrow> CommandResult" where
  "with_watermarks ws res = res\<lparr>res_result :=
     Some (mput ''disableWatermarks'' (watermark_json ws) (case res_result res of None \<Rightarrow> [] | Some ms \<Rightarrow> ms))\<rparr>"

definition run_command :: "'x agent_env \<Rightarrow> AgentCommand \<Rightarrow> ('x runner_world, CommandResult) act" where
  "run_command env command =
     abind (switch_mode command) (\<lambda>_.
     abind (aget in_direct) (\<lambda>direct.
     abind (awhen (direct \<and> cmd_type command \<in> {DISABLE_USER, REMOVE_USER, ENSURE_INBOUND})
              (sampleWithinStateMutation env)) (\<lambda>_.
     abind (aget in_direct) (\<lambda>direct.
     abind (execute env command direct) (\<lambda>res.
     let completed = (res_status res = Completed) in
     abind (awhen (completed \<and> cmd_type command = ENSURE_INBOUND)
       (abind (set_store (setInboundAwaiting False)) (\<lambda>_.
        amodify (\<lambda>w. w\<lparr>r_awaitingInbound := False, r_reconcilePending := False\<rparr>)))) (\<lambda>_.
     abind (if completed \<and> cmd_type command \<in> {DISABLE_USER, REMOVE_USER}
            then abind (aget w_store) (\<lambda>st.
              abind (alift (pendingBatchWatermarks st)) (\<lambda>ws. aret (with_watermarks ws res)))
            else aret res) (\<lambda>reported.
     abind reload_config (\<lambda>_.
     aret reported))))))))"

definition handleCommand :: "'x agent_env \<Rightarrow> AgentCommand \<Rightarrow> ('x runner_world, unit) act" where
  "handleCommand env command =
     abind (set_online True) (\<lambda>_.
     abind (run_command env command) (\<lambda>result.
     outside (api_reportCommandResult env result)))"

definition stop :: "'x agent_env \<Rightarrow> ('x runner_world, unit) act" where
  "stop env =
     abind (acatch (sampleWithinStateMutation env) (\<lambda>e. aret ())) (\<lambda>_.
     acatch (flushBatches env) (\<lambda>e. aret ()))"

end
