(* ===== verification/RunnerSpec.thy ===== *)
theory RunnerSpec
  imports AgentRunner
begin

text \<open>
  What the main loop promises: every action keeps the store well formed whatever the outside
  does, Xray is written only in the \<open>direct_primary\<close> mode, and users disabled for their usage
  stay disabled while their batches are unsettled.
\<close>

section \<open>Invariants of the agent's world\<close>

lemma keeps_field: "(\<And>w. w_store (f w) = w_store w \<and> w_ext (f w) = w_ext w) \<Longrightarrow> keeps (world_inv Q) (amodify f)"
  by (rule keeps_amodify) (simp add: world_inv_def)

lemma keeps_fields [keeps_intros]:
  "keeps (world_inv Q) (set_online b)" "keeps (world_inv Q) (set_pending b)" "keeps (world_inv Q) reload_config"
  unfolding set_online_def set_pending_def reload_config_def by (rule keeps_field; simp)+

text \<open>The SDK lists each user once, as Xray keys an inbound's users by email.\<close>

definition unique_listing :: "'x agent_env \<Rightarrow> bool" where
  "unique_listing env \<longleftrightarrow> (\<forall>x r x' us. sdk_getInboundUsers env (env_inboundTag env) x = (Inr r, x') \<longrightarrow>
     sdk_data r = Some us \<longrightarrow> distinct (map fst us))"

lemma integerString_decimal: "integerString v l = Inr s \<Longrightarrow> decimal_pattern s"
  by (auto simp: integerString_def split: if_splits)

lemma merge_counters_wf:
  assumes "mergeInboundUsersWithStats us stats = Inr cs" and "distinct us"
  shows "counters_wf cs"
proof -
  have each: "counter_wf c \<and> ac_email c = e"
    if "rbind (integerString up e) (\<lambda>u. rbind (integerString down e) (\<lambda>d.
       Inr \<lparr>ac_email = e, ac_uplinkBytes = u, ac_downlinkBytes = d\<rparr>)) = Inr c" for e c up down
    using that by (auto simp: result_simps counter_wf_def dest: integerString_decimal)
  have "length cs = length us" using assms(1) by (simp add: mergeInboundUsersWithStats_def mapR_length)
  moreover have "counter_wf (cs ! i) \<and> ac_email (cs ! i) = us ! i" if "i < length us" for i
    using mapR_nth [OF assms(1) [unfolded mergeInboundUsersWithStats_def] that] each
    by (simp add: Let_def)
  ultimately show ?thesis
    using assms(2) by (auto simp: counters_wf_def list_all_length distinct_conv_nth)
qed

lemma readAbsoluteCounters_wf:
  fixes w :: "('x, 'm) agent_world_scheme"
  assumes "unique_listing env" and "readAbsoluteCounters env w = (Inr cs, w')"
  shows "counters_wf cs"
proof -
  from assms(2) obtain us stats and v t :: "('x, 'm) agent_world_scheme"
    where us: "listUsers env v = (Inr us, t)"
      and cs: "mergeInboundUsersWithStats (map fst us) stats = Inr cs"
    by (auto simp: readAbsoluteCounters_def act_simps acatch_def split: option.splits if_splits prod.splits sum.splits)
  from us obtain r x where "sdk_getInboundUsers env (env_inboundTag env) (w_ext v) = (Inr r, x)" "sdk_data r = Some us"
    by (auto simp: listUsers_def act_simps outside_Inr split: option.splits if_splits)
  with assms(1) have "distinct (map fst us)" unfolding unique_listing_def by blast
  with cs show ?thesis by (rule merge_counters_wf)
qed

lemma keeps_abind_post:
  assumes "keeps I m" and "\<And>w a w'. m w = (Inr a, w') \<Longrightarrow> R a" and "\<And>a. R a \<Longrightarrow> keeps I (f a)"
  shows "keeps I (abind m f)"
  unfolding keeps_def
proof (intro allI impI)
  fix w assume "I w"
  obtain r v where m: "m w = (r, v)" by (cases "m w")
  have "I v" by (rule keepsD [OF assms(1) \<open>I w\<close> m])
  then show "I (snd (abind m f w))"
    using assms(2) [of w _ v] assms(3) m by (cases r) (auto simp: abind_def keeps_def)
qed

lemma batches_sample:
  assumes "recordSample cs t online st = Inr (res, st')"
  shows "set (st_batches st) \<subseteq> set (st_batches st')"
  using assms by (auto simp: recordSample_def insertBatch_def result_simps Let_def split: if_splits prod.splits)

text \<open>
  What the answers of the control plane to uploads and heartbeats must respect: \<open>fine\<close> marks the
  batches that may be uploaded, every listed batch is one of them, and acting on an
  acknowledgement keeps the invariant.
\<close>

locale runner_invariant = command_invariant +
  fixes fine :: "UsageBatch \<Rightarrow> agent_store \<Rightarrow> 'a \<Rightarrow> bool"
  assumes listed: "Q st x \<Longrightarrow> batch \<in> set (listPendingBatches n st) \<Longrightarrow> fine batch st x"
    and upload: "Q st x \<Longrightarrow> fine batch st x \<Longrightarrow> api_uploadBatch env batch x = (r, x') \<Longrightarrow>
      Q st x' \<and> (\<forall>b. fine b st x \<longrightarrow> fine b st x')
      \<and> (\<forall>ack k st'. r = Inr ack \<longrightarrow> ackThrough (ub_bootId batch) (ack_ackThrough ack) st = Inr (k, st') \<longrightarrow>
           Q st' x' \<and> (\<forall>b. fine b st x \<longrightarrow> fine b st' x'))"
    and beat: "Q st x \<Longrightarrow> api_heartbeat env hb x = (r', x') \<Longrightarrow>
      Q st x' \<and> (\<forall>resp k st'. r' = Inr resp \<longrightarrow> ackThrough (hb_bootId hb) (hbr_ackThrough resp) st = Inr (k, st') \<longrightarrow> Q st' x')"
begin

lemma keeps_record_sample: "counters_wf cs \<Longrightarrow> keeps (world_inv Q) (record_sample env cs)"
  unfolding keeps_def record_sample_def on_store_def world_inv_def
  by (auto split: sum.splits prod.splits intro: step [OF store_step.sample batches_sample])

lemma keeps_reconcileUsers [keeps_intros]: "keeps (world_inv Q) (reconcileUsers env users)"
  unfolding reconcileUsers_def by (intro keeps_intros)

lemma keeps_flushPending [keeps_intros]: "keeps (world_inv Q) (flushPendingReconcile env)"
  unfolding flushPendingReconcile_def by (intro keeps_intros)

lemma keeps_check [keeps_intros]: "keeps (world_inv Q) (checkXrayAndRecover env)"
  unfolding checkXrayAndRecover_def by (intro keeps_intros keeps_field) auto

lemma keeps_detect [keeps_intros]: "keeps (world_inv Q) (detectXrayRestart env)"
  unfolding detectXrayRestart_def Let_def by (intro keeps_intros keeps_field) auto

lemma keeps_sample:
  assumes "unique_listing env"
  shows "keeps (world_inv Q) (sampleWithinStateMutation env)"
proof -
  have counted: "keeps (world_inv Q) (abind (readAbsoluteCounters env) (\<lambda>counters.
      abind (record_sample env counters) (\<lambda>result.
      abind (aget in_direct) (\<lambda>direct. awhen direct (afor (sr_disableEmails result) (removeUser env))))))"
  proof (rule keeps_abind_post [where R = counters_wf])
    show "keeps (world_inv Q) (readAbsoluteCounters env)" by (intro keeps_intros)
    show "counters_wf cs" if "readAbsoluteCounters env w = (Inr cs, w')" for w cs w'
      by (rule readAbsoluteCounters_wf [OF assms that])
  qed (intro keeps_intros keeps_record_sample)
  show ?thesis
    unfolding sampleWithinStateMutation_def
    by (intro keeps_acatch keeps_abind counted keeps_check keeps_detect keeps_athrow keeps_field) simp
qed

lemma keeps_restore_users [keeps_intros]: "keeps (world_inv Q) (restore_users env users)"
  unfolding restore_users_def by (rule keeps_step_update) (rule store_step.restore, assumption, rule batches_restore)

lemma keeps_install [keeps_intros]: "keeps (world_inv Q) (install_snapshot env snapshot)"
  unfolding install_snapshot_def by (intro keeps_intros)

lemma keeps_refresh: "unique_listing env \<Longrightarrow> keeps (world_inv Q) (refreshConfig env)"
  unfolding refreshConfig_def Let_def by (intro keeps_intros keeps_sample)

lemma keeps_recover [keeps_intros]: "keeps (world_inv Q) (recoverBackendConfirmedUsers env snapshot)"
  unfolding recoverBackendConfirmedUsers_def by (intro keeps_intros)

lemma keeps_awaiting [keeps_intros]: "keeps (world_inv Q) set_awaiting"
  unfolding set_awaiting_def by (intro keeps_intros keeps_field) simp

lemma keeps_probe [keeps_intros]: "keeps (world_inv Q) (probeInbound env)"
  unfolding probeInbound_def by (intro keeps_intros keeps_field) simp_all

lemma keeps_discard [keeps_intros]: "keeps (world_inv Q) (discardForeignInbound env)"
  unfolding discardForeignInbound_def by (intro keeps_intros)

lemma keeps_start: "unique_listing env \<Longrightarrow> keeps (world_inv Q) (start env)"
  unfolding start_def by (intro keeps_intros keeps_field keeps_refresh) simp

text \<open>Uploading a listed batch; the other listed batches stay fit for upload.\<close>

definition flushing :: "UsageBatch set \<Rightarrow> agent_store \<Rightarrow> 'a \<Rightarrow> bool" where
  "flushing B st x \<longleftrightarrow> Q st x \<and> (\<forall>b \<in> B. fine b st x)"

lemma keeps_upload: "batch \<in> B \<Longrightarrow> keeps (world_inv (flushing B)) (upload_batch env batch)"
  unfolding keeps_def
proof (intro allI impI)
  fix w :: "'a runner_world"
  assume b: "batch \<in> B" and inv: "world_inv (flushing B) w"
  obtain r x where call: "api_uploadBatch env batch (w_ext w) = (r, x)" by (cases "api_uploadBatch env batch (w_ext w)")
  from inv b have "Q (w_store w) (w_ext w)" "fine batch (w_store w) (w_ext w)" by (auto simp: world_inv_def flushing_def)
  note up = upload [OF this call]
  have out: "outside (api_uploadBatch env batch) w = (r, w\<lparr>w_ext := x\<rparr>)" by (simp add: outside_def call)
  have same: "flushing B (w_store w) x" using up inv by (auto simp: world_inv_def flushing_def)
  have acked: "flushing B st' x" if "r = Inr ack" "ackThrough (ub_bootId batch) (ack_ackThrough ack) (w_store w) = Inr (k, st')" for ack k st'
    using up that inv by (auto simp: world_inv_def flushing_def)
  show "world_inv (flushing B) (snd (upload_batch env batch w))"
    using same acked
    by (cases r) (auto simp: upload_batch_def acatch_def abind_def out ack_through_def on_store_def set_online_def amodify_def
        athrow_def world_inv_def split: sum.splits prod.splits)
qed

lemma keeps_flush:
  assumes "unique_listing env"
  shows "keeps (world_inv Q) (flushBatches env)"
  unfolding keeps_def
proof (intro allI impI)
  fix w :: "'a runner_world"
  assume inv: "world_inv Q w"
  let ?bs = "listPendingBatches 100 (w_store w)"
  have "world_inv (flushing (set ?bs)) w" using inv listed by (auto simp: world_inv_def flushing_def)
  moreover have "keeps (world_inv (flushing (set ?bs))) (afor ?bs (upload_batch env))"
    by (rule keeps_afor) (rule keeps_upload)
  ultimately have sent: "world_inv Q (snd (afor ?bs (upload_batch env) w))"
    by (auto simp: keeps_def world_inv_def flushing_def)
  have "keeps (world_inv Q) (abind (aget w_store) (\<lambda>st.
     abind (alift (if ?bs \<noteq> [] \<and> pendingBatchCount st = 0 then hasUsageDisabledUsers st else Inr False)) (\<lambda>go.
     if \<not> go then aret ()
     else abind (refreshConfig env) (\<lambda>snapshot. recoverBackendConfirmedUsers env snapshot))))" (is "keeps _ ?rest")
    by (intro keeps_intros keeps_refresh assms)
  then have after: "world_inv Q (snd (?rest v))" if "world_inv Q v" for v using that by (simp add: keeps_def)
  have whole: "flushBatches env w = abind (afor ?bs (upload_batch env)) (\<lambda>_. ?rest) w"
    unfolding flushBatches_def by (subst abind_def) (simp add: aget_def)
  obtain r v where "afor ?bs (upload_batch env) w = (r, v)" by (cases "afor ?bs (upload_batch env) w")
  with sent after show "world_inv Q (snd (flushBatches env w))"
    unfolding whole by (cases r) (simp_all add: abind_def [of "afor ?bs (upload_batch env)"])
qed

lemma keeps_answer:
  assumes "\<And>u. keeps (world_inv Q) (rest u)"
  shows "keeps (world_inv Q) (abind (outside (api_heartbeat env hb)) (\<lambda>response.
    abind (ack_through (hb_bootId hb) (hbr_ackThrough response)) (\<lambda>_. rest response)))"
  unfolding keeps_def
proof (intro allI impI)
  fix w :: "'a runner_world"
  assume inv: "world_inv Q w"
  obtain r x where call: "api_heartbeat env hb (w_ext w) = (r, x)" by (cases "api_heartbeat env hb (w_ext w)")
  have out: "outside (api_heartbeat env hb) w = (r, w\<lparr>w_ext := x\<rparr>)" by (simp add: outside_def call)
  note hb = beat [OF inv [unfolded world_inv_def] call]
  have rest: "world_inv Q (snd (rest u v))" if "world_inv Q v" for u v using assms that by (simp add: keeps_def)
  show "world_inv Q (snd (abind (outside (api_heartbeat env hb)) (\<lambda>response.
    abind (ack_through (hb_bootId hb) (hbr_ackThrough response)) (\<lambda>_. rest response)) w))"
    using hb by (cases r) (auto simp: abind_def out ack_through_def on_store_def world_inv_def split: sum.splits prod.splits
        intro!: rest [unfolded world_inv_def])
qed

lemma keeps_heartbeat: "unique_listing env \<Longrightarrow> keeps (world_inv Q) (sendHeartbeat env)"
  unfolding sendHeartbeat_def
  by (rule keeps_acatch, rule keeps_abind, rule keeps_aget, rule keeps_answer)
    (intro keeps_intros keeps_refresh, simp, intro keeps_intros)

lemma keeps_switch [keeps_intros]: "keeps (world_inv Q) (switch_mode command)"
  unfolding switch_mode_def by (auto split: option.splits bool.splits intro!: keeps_intros keeps_field)

lemma keeps_run_command: "unique_listing env \<Longrightarrow> keeps (world_inv Q) (run_command env command)"
  unfolding run_command_def Let_def by (intro keeps_intros keeps_sample keeps_field) simp_all

lemma keeps_handle: "unique_listing env \<Longrightarrow> keeps (world_inv Q) (handleCommand env command)"
  unfolding handleCommand_def by (intro keeps_intros keeps_run_command)

lemma keeps_stop: "unique_listing env \<Longrightarrow> keeps (world_inv Q) (stop env)"
  unfolding stop_def by (intro keeps_intros keeps_sample keeps_flush)

end

section \<open>The main loop as a state machine\<close>

text \<open>
  Timers and the event stream run the actions in any order; an action that throws is logged
  and the loop goes on with the state it left.  \<open>reconnect\<close> is what every turn of
  \<open>eventsLoop\<close> does before it listens.
\<close>

definition reconnect :: "'x agent_env \<Rightarrow> ('x runner_world, unit) act" where
  "reconnect env = abind (refreshConfig env) (\<lambda>snapshot. recoverBackendConfirmedUsers env snapshot)"

inductive runner_step :: "'x agent_env \<Rightarrow> ('x \<Rightarrow> 'x \<Rightarrow> bool) \<Rightarrow> 'x runner_world \<Rightarrow> 'x runner_world \<Rightarrow> bool"
  for env :: "'x agent_env" and R where
  boot: "start env w = (r, w') \<Longrightarrow> runner_step env R w w'"
| sampled: "sampleWithinStateMutation env w = (r, w') \<Longrightarrow> runner_step env R w w'"
| flushed: "flushBatches env w = (r, w') \<Longrightarrow> runner_step env R w w'"
| beat: "sendHeartbeat env w = (r, w') \<Longrightarrow> runner_step env R w w'"
| connected: "reconnect env w = (r, w') \<Longrightarrow> runner_step env R w w'"
| commanded: "handleCommand env command w = (r, w') \<Longrightarrow> runner_step env R w w'"
| stopped: "stop env w = (r, w') \<Longrightarrow> runner_step env R w w'"
| elsewhere: "R (w_ext w) x \<Longrightarrow> runner_step env R w (w\<lparr>w_ext := x\<rparr>)"

inductive runner_reachable :: "'x agent_env \<Rightarrow> ('x \<Rightarrow> 'x \<Rightarrow> bool) \<Rightarrow> 'x runner_world \<Rightarrow> 'x runner_world \<Rightarrow> bool"
  for env :: "'x agent_env" and R and w :: "'x runner_world" where
  here: "runner_reachable env R w w"
| more: "runner_reachable env R w v \<Longrightarrow> runner_step env R v u \<Longrightarrow> runner_reachable env R w u"

context runner_invariant
begin

lemma keeps_reconnect: "unique_listing env \<Longrightarrow> keeps (world_inv Q) (reconnect env)"
  unfolding reconnect_def by (intro keeps_intros keeps_refresh)

lemmas keeps_actions = keeps_start keeps_sample keeps_flush keeps_heartbeat keeps_reconnect
  keeps_handle keeps_stop

lemma runner_step_keeps:
  assumes "runner_step env R w w'" and "unique_listing env" and "world_inv Q w"
    and "\<And>st x x'. R x x' \<Longrightarrow> Q st x \<Longrightarrow> Q st x'"
  shows "world_inv Q w'"
  using assms(1,3)
proof (induction rule: runner_step.induct)
  case (elsewhere w x)
  then show ?case using assms(4) by (simp add: world_inv_def)
qed (blast intro: keepsD [OF keeps_actions(1) [OF assms(2)]] keepsD [OF keeps_actions(2) [OF assms(2)]]
    keepsD [OF keeps_actions(3) [OF assms(2)]] keepsD [OF keeps_actions(4) [OF assms(2)]]
    keepsD [OF keeps_actions(5) [OF assms(2)]] keepsD [OF keeps_actions(6) [OF assms(2)]]
    keepsD [OF keeps_actions(7) [OF assms(2)]])+

lemma runner_keeps:
  assumes "runner_reachable env R w w'" and "unique_listing env" and "world_inv Q w"
    and "\<And>st x x'. R x x' \<Longrightarrow> Q st x \<Longrightarrow> Q st x'"
  shows "world_inv Q w'"
  using assms(1,3) by (induction rule: runner_reachable.induct) (auto intro: runner_step_keeps [OF _ assms(2) _ assms(4)])

end

sublocale store_invariant \<subseteq> world: runner_invariant env "\<lambda>st x. P st" "\<lambda>b st x. True" for env
  by unfold_locales (auto intro: step store_step.ack)

section \<open>The mode guards Xray\<close>

text \<open>Two actions that do the same from every state in which \<open>I\<close> holds.\<close>

definition agree :: "('w \<Rightarrow> bool) \<Rightarrow> ('w, 'a) act \<Rightarrow> ('w, 'a) act \<Rightarrow> bool" where
  "agree I m n \<longleftrightarrow> (\<forall>w. I w \<longrightarrow> m w = n w)"

lemma agree_refl [simp]: "agree I m m"
  by (simp add: agree_def)

lemma agree_abind:
  "agree I m n \<Longrightarrow> keeps I m \<Longrightarrow> (\<And>a. agree I (f a) (g a)) \<Longrightarrow> agree I (abind m f) (abind n g)"
  unfolding agree_def abind_def keeps_def by (force split: prod.splits sum.splits)

lemma agree_acatch:
  "agree I m n \<Longrightarrow> keeps I m \<Longrightarrow> (\<And>e. agree I (h e) (k e)) \<Longrightarrow> agree I (acatch m h) (acatch n k)"
  unfolding agree_def acatch_def keeps_def by (force split: prod.splits sum.splits)

definition not_direct :: "'x runner_world \<Rightarrow> bool" where
  "not_direct w \<longleftrightarrow> \<not> in_direct w"

lemma not_direct_update:
  "(\<And>w. r_currentConfig (f w) = r_currentConfig w) \<Longrightarrow> keeps not_direct (amodify f)"
  by (rule keeps_amodify) (simp add: not_direct_def in_direct_def)

lemma not_direct_outside [keeps_intros]: "keeps not_direct (outside m)"
  by (rule keeps_outside) (simp add: not_direct_def in_direct_def)

lemma not_direct_pending [keeps_intros]: "keeps not_direct (set_pending b)"
  unfolding set_pending_def by (rule not_direct_update) simp

lemma not_direct_aget: "agree not_direct (abind (aget in_direct) f) (f False)"
  by (simp add: agree_def abind_def aget_def not_direct_def)

text \<open>\<open>rewired env f g\<close> is \<open>env\<close> with other implementations of Xray's two write calls.\<close>

definition rewired :: "'x agent_env \<Rightarrow> (string \<Rightarrow> string \<Rightarrow> string \<Rightarrow> flow \<Rightarrow> ('x, bool sdk_result) act) \<Rightarrow>
    (string \<Rightarrow> string \<Rightarrow> ('x, bool sdk_result) act) \<Rightarrow> 'x agent_env" where
  "rewired env f g = env\<lparr>sdk_addVlessUser := f, sdk_removeUser := g\<rparr>"

lemma rewired_reads [simp]:
  "listUsers (rewired env f g) = listUsers env" "xray_health (rewired env f g) = xray_health env"
  "uptimeSeconds (rewired env f g) = uptimeSeconds env"
  "readAbsoluteCounters (rewired env f g) = readAbsoluteCounters env"
  "record_sample (rewired env f g) = record_sample env"
  "update_store (rewired env f g) = update_store env"
  "apply_snapshot (rewired env f g) = apply_snapshot env"
  "env_now (rewired env f g) = env_now env" "env_nowMs (rewired env f g) = env_nowMs env"
  "env_restartToleranceMs (rewired env f g) = env_restartToleranceMs env"
  "api_reportCommandResult (rewired env f g) = api_reportCommandResult env"
  unfolding listUsers_def xray_health_def uptimeSeconds_def readAbsoluteCounters_def record_sample_def
    update_store_def apply_snapshot_def rewired_def fun_eq_iff by simp_all

lemma not_direct_reads [keeps_intros]:
  "keeps not_direct (listUsers env)" "keeps not_direct (xray_health env)" "keeps not_direct (uptimeSeconds env)"
  "keeps not_direct (readAbsoluteCounters env)" "keeps not_direct (record_sample env counters)"
proof -
  show list: "keeps not_direct (listUsers env)" unfolding listUsers_def by (intro keeps_intros)
  show "keeps not_direct (xray_health env)" unfolding xray_health_def by (intro keeps_intros)
  show "keeps not_direct (uptimeSeconds env)" unfolding uptimeSeconds_def by (intro keeps_intros)
  show "keeps not_direct (readAbsoluteCounters env)" unfolding readAbsoluteCounters_def by (intro keeps_intros list)
  show "keeps not_direct (record_sample env counters)"
    by (auto simp: keeps_def record_sample_def on_store_def not_direct_def in_direct_def split: sum.splits prod.splits)
qed

lemma flushPending_off: "agree not_direct (flushPendingReconcile env) (aret ())"
  by (simp add: agree_def flushPendingReconcile_def abind_def aget_def not_direct_def)

lemma not_direct_flushPending [keeps_intros]: "keeps not_direct (flushPendingReconcile env)"
  using flushPending_off [of env] by (simp add: agree_def keeps_def aret_def)

lemma flushPending_rewired: "agree not_direct (flushPendingReconcile (rewired env f g)) (flushPendingReconcile env)"
  using flushPending_off [of env] flushPending_off [of "rewired env f g"] by (simp add: agree_def)

lemma check_rewired: "agree not_direct (checkXrayAndRecover (rewired env f g)) (checkXrayAndRecover env)"
  unfolding checkXrayAndRecover_def
  by (intro agree_abind keeps_intros not_direct_update flushPending_rewired) simp_all

lemma not_direct_check [keeps_intros]: "keeps not_direct (checkXrayAndRecover env)"
  unfolding checkXrayAndRecover_def by (intro keeps_intros not_direct_update) simp_all

lemma detect_rewired: "agree not_direct (detectXrayRestart (rewired env f g)) (detectXrayRestart env)"
  unfolding detectXrayRestart_def rewired_reads
  by (intro agree_abind keeps_intros not_direct_update flushPending_rewired) (simp_all add: Let_def)

lemma not_direct_detect [keeps_intros]: "keeps not_direct (detectXrayRestart env)"
  unfolding detectXrayRestart_def by (intro keeps_intros not_direct_update) (simp_all add: Let_def)

lemma not_direct_sample [keeps_intros]: "keeps not_direct (sampleWithinStateMutation env)"
proof -
  have tail: "keeps not_direct (abind (aget in_direct) (\<lambda>direct. awhen direct (afor es (removeUser env))))" for es
    using not_direct_aget [of "\<lambda>direct. awhen direct (afor es (removeUser env))"]
    by (simp add: keeps_def agree_def awhen_def aret_def)
  show ?thesis unfolding sampleWithinStateMutation_def by (intro keeps_intros not_direct_update tail) simp
qed

lemma sample_rewired:
  fixes env :: "'x agent_env"
  shows "agree not_direct (sampleWithinStateMutation (rewired env f g)) (sampleWithinStateMutation env)"
proof -
  have tail: "agree not_direct (abind (aget in_direct) (\<lambda>direct. awhen direct m))
      (abind (aget in_direct) (\<lambda>direct. awhen direct n))" for m n :: "('x runner_world, unit) act"
    by (simp add: agree_def abind_def aget_def awhen_def not_direct_def)
  have silent: "keeps not_direct (abind (aget in_direct) (\<lambda>direct. awhen direct m))" for m :: "('x runner_world, unit) act"
    by (simp add: keeps_def abind_def aget_def awhen_def not_direct_def aret_def)
  show ?thesis
    unfolding sampleWithinStateMutation_def rewired_reads
    by (intro agree_acatch agree_abind keeps_intros not_direct_update check_rewired detect_rewired tail silent) simp_all
qed

lemma execute_rewired:
  fixes env :: "'x agent_env"
  shows "execute (rewired env f g) command False = (execute env command False :: (('x, 'm) agent_world_scheme, CommandResult) act)"
proof -
  have "apply_command (rewired env f g) command False
      = (apply_command env command False :: (('x, 'm) agent_world_scheme, json_object) act)"
    unfolding apply_command_def apply_reconcile_def
    by (cases "cmd_type command") (simp_all add: awhen_def Let_def cong: if_cong)
  then show ?thesis by (simp add: execute_def execute_body_def cong: option.case_cong)
qed

text \<open>Does the command ask for the writable mode?\<close>

definition asks_direct :: "AgentCommand \<Rightarrow> bool" where
  "asks_direct command \<longleftrightarrow> cmd_type command = RECONCILE_USERS
     \<and> isNodeControlMode (map_of (cmd_payload command) ''controlMode'') = Some Direct_primary"

lemma not_direct_switch: "\<not> asks_direct command \<Longrightarrow> keeps not_direct (switch_mode command)"
  unfolding switch_mode_def
  by (auto split: option.splits bool.splits intro!: keeps_intros keeps_amodify
      simp: asks_direct_def not_direct_def in_direct_def)

lemma run_rewired:
  fixes env :: "'x agent_env"
  assumes "\<not> asks_direct command"
  shows "agree not_direct (run_command (rewired env f g) command) (run_command env command)"
proof -
  have exec: "agree not_direct (abind (aget in_direct) (\<lambda>direct. abind (execute (rewired env f g) command direct) k))
      (abind (aget in_direct) (\<lambda>direct. abind (execute env command direct) k))" for k :: "CommandResult \<Rightarrow> ('x runner_world, CommandResult) act"
    by (simp add: agree_def abind_def aget_def not_direct_def execute_rewired)
  have sampled: "agree not_direct
      (abind (aget in_direct) (\<lambda>direct. abind (awhen (direct \<and> p) (sampleWithinStateMutation (rewired env f g))) (\<lambda>_. m)))
      (abind (aget in_direct) (\<lambda>direct. abind (awhen (direct \<and> p) (sampleWithinStateMutation env)) (\<lambda>_. n)))"
    if "agree not_direct m n" for p and m n :: "('x runner_world, CommandResult) act"
    using that by (simp add: agree_def abind_def aget_def not_direct_def awhen_def aret_def)
  show ?thesis unfolding run_command_def
    by (intro agree_abind [OF _ not_direct_switch] agree_refl assms sampled exec)
qed

section \<open>The report of a disabling command\<close>

text \<open>The watermarks name, for every pending batch, a number of its boot that is not smaller.\<close>

definition covers :: "(string \<times> string) list \<Rightarrow> BatchRow \<Rightarrow> bool" where
  "covers ws b \<longleftrightarrow> (\<exists>n. (br_boot_id b, n) \<in> set ws \<and> dec_val (br_sequence b) \<le> dec_val n)"

lemma watermarks_loop:
  assumes "foldR (\<lambda>row watermarks.
      rbind (bigInt (br_sequence row)) (\<lambda>sequence.
      Inr (case map_of watermarks (br_boot_id row) of
          None \<Rightarrow> mput (br_boot_id row) sequence watermarks
        | Some current \<Rightarrow>
            if sequence > current then mput (br_boot_id row) sequence watermarks
            else watermarks))) rows m = Inr m'"
    and "list_all (\<lambda>b. decimal_pattern (br_sequence b)) rows"
  shows "(\<forall>b \<in> set rows. \<exists>n. map_of m' (br_boot_id b) = Some n \<and> int (dec_val (br_sequence b)) \<le> n)
    \<and> (\<forall>k n. map_of m k = Some n \<longrightarrow> (\<exists>n'. map_of m' k = Some n' \<and> n \<le> n'))"
  using assms
proof (induction rows arbitrary: m)
  case Nil
  then show ?case by simp
next
  case (Cons row rows)
  define v where "v = (case map_of m (br_boot_id row) of
      None \<Rightarrow> mput (br_boot_id row) (int (dec_val (br_sequence row))) m
    | Some current \<Rightarrow> if int (dec_val (br_sequence row)) > current
        then mput (br_boot_id row) (int (dec_val (br_sequence row))) m else m)"
  have ih: "(\<forall>b \<in> set rows. \<exists>n. map_of m' (br_boot_id b) = Some n \<and> int (dec_val (br_sequence b)) \<le> n)
    \<and> (\<forall>k n. map_of v k = Some n \<longrightarrow> (\<exists>n'. map_of m' k = Some n' \<and> n \<le> n'))"
    using Cons.prems by (intro Cons.IH) (simp_all add: v_def)
  have old: "\<exists>n'. map_of v k = Some n' \<and> n \<le> n'" if "map_of m k = Some n" for k n
    using that by (auto simp: v_def split: option.splits)
  have new: "\<exists>n. map_of v (br_boot_id row) = Some n \<and> int (dec_val (br_sequence row)) \<le> n"
    by (auto simp: v_def split: option.splits)
  show ?case using ih old new by (fastforce intro: order_trans)
qed

lemma watermarks_cover:
  assumes "store_wf st" and "pendingBatchWatermarks st = Inr ws" and "b \<in> set (st_batches st)"
  shows "covers ws b"
proof -
  have dec: "list_all (\<lambda>b. decimal_pattern (br_sequence b)) (st_batches st)"
    using assms(1) by (auto simp: store_wf_def batches_wf_def list_all_iff)
  obtain m where m: "ws = map (\<lambda>(boot, n). (boot, bigint_toString n)) m"
    and "\<exists>n. map_of m (br_boot_id b) = Some n \<and> int (dec_val (br_sequence b)) \<le> n"
    using assms(2,3) watermarks_loop [OF _ dec] unfolding pendingBatchWatermarks_def
    by (auto simp: rbind_eq_Inr)
  then obtain n where "(br_boot_id b, n) \<in> set m" "int (dec_val (br_sequence b)) \<le> n"
    by (auto dest: map_of_SomeD)
  then show ?thesis
    unfolding covers_def m by (force simp: bigint_toString_nonneg intro!: exI [of _ "bigint_toString n"])
qed

lemma run_command_reports:
  fixes w w' :: "'x runner_world"
  assumes "run_command env command w = (Inr res, w')" and "res_status res = Completed"
    and "cmd_type command \<in> {DISABLE_USER, REMOVE_USER}"
  shows "\<exists>ws r. pendingBatchWatermarks (w_store w') = Inr ws \<and> res = with_watermarks ws r"
proof -
  from assms(1) obtain r and v u :: "'x runner_world" where
    "(if res_status r = Completed \<and> cmd_type command \<in> {DISABLE_USER, REMOVE_USER}
      then abind (aget w_store) (\<lambda>st. abind (alift (pendingBatchWatermarks st)) (\<lambda>ws. aret (with_watermarks ws r)))
      else aret r) v = (Inr res, u)" "w' = u\<lparr>r_currentConfig := getConfigSnapshot (w_store u)\<rparr>"
    unfolding run_command_def Let_def abind_Inr reload_config_def by auto
  with assms(2,3) show ?thesis by (auto simp: act_simps with_watermarks_def split: if_splits)
qed

section \<open>Properties\<close>

text \<open>
  C20: whatever Xray, the helper, the clock and the control plane answer and in whatever order
  the agent starts, samples, uploads, beats, reconnects, executes commands and stops, each of
  which may fail half way, its store stays well formed and no finished command is forgotten.
\<close>

theorem runner_keeps_store_wf:
  assumes "runner_reachable env R w w'" and "unique_listing env" and "store_wf (w_store w)"
  shows "store_wf (w_store w') \<and> (has_command i (w_store w) \<longrightarrow> has_command i (w_store w'))"
  using well_formed.world.runner_keeps [OF assms(1,2)] ledger.world.runner_keeps [OF assms(1,2)] assms(3)
  by (auto simp: world_inv_def)

definition demo_runner :: "demo runner_world" where
  "demo_runner = newRunner ex_store []"

text \<open>The demonstration environment, with one user always on the inbound.\<close>

definition listing_env :: "demo agent_env" where
  "listing_env = demo_env\<lparr>sdk_getInboundUsers := (\<lambda>tag x. (Inr (ok [(''u1'', None)]), x))\<rparr>"

lemma demo_unique: "unique_listing listing_env"
  by (simp add: unique_listing_def listing_env_def demo_env_def ok_def)

theorem runner_keeps_store_wf_witness:
  "\<exists>w'. runner_step listing_env (\<lambda>_ _. True) demo_runner w'
     \<and> w' = snd (sampleWithinStateMutation listing_env demo_runner)
     \<and> store_wf (w_store w')"
proof -
  have step: "runner_step listing_env (\<lambda>_ _. True) demo_runner (snd (sampleWithinStateMutation listing_env demo_runner))"
    by (rule runner_step.sampled [where r = "fst (sampleWithinStateMutation listing_env demo_runner)"]) simp
  moreover have "store_wf (w_store demo_runner)" by (simp add: demo_runner_def newRunner_def ex_store_wf)
  ultimately show ?thesis
    using runner_keeps_store_wf [OF runner_reachable.more [OF runner_reachable.here step] demo_unique] by blast
qed

text \<open>
  C21: outside the \<open>direct_primary\<close> mode the agent never writes Xray: sampling and every command
  that does not itself ask for that mode run the same, state and answers included, whatever
  Xray's two write calls would do.
\<close>

theorem shadow_mode_never_writes_xray:
  assumes "\<not> in_direct w" and "\<not> asks_direct command"
  shows "sampleWithinStateMutation (env\<lparr>sdk_addVlessUser := f, sdk_removeUser := g\<rparr>) w = sampleWithinStateMutation env w
    \<and> handleCommand (env\<lparr>sdk_addVlessUser := f, sdk_removeUser := g\<rparr>) command w = handleCommand env command w"
proof -
  have online: "\<not> in_direct (snd (set_online b w))" for b
    using assms(1) by (simp add: set_online_def amodify_def in_direct_def)
  have "sampleWithinStateMutation (rewired env f g) w = sampleWithinStateMutation env w"
    using sample_rewired [of env f g] assms(1) by (simp add: agree_def not_direct_def)
  moreover have "handleCommand (rewired env f g) command w = handleCommand env command w"
    using run_rewired [OF assms(2), of env f g] online [of True]
    by (simp add: handleCommand_def abind_def set_online_def amodify_def agree_def not_direct_def)
  ultimately show ?thesis by (simp add: rewired_def)
qed

theorem shadow_mode_never_writes_xray_witness:
  "\<not> in_direct demo_runner \<and> \<not> asks_direct demo_command
    \<and> handleCommand (demo_env\<lparr>sdk_addVlessUser := (\<lambda>t e u f x. (Inl NoInboundHelper, [])),
          sdk_removeUser := (\<lambda>t e x. (Inl NoInboundHelper, []))\<rparr>) demo_command demo_runner
      = handleCommand demo_env demo_command demo_runner"
proof -
  have "\<not> in_direct demo_runner" by code_simp
  moreover have "\<not> asks_direct demo_command" by (simp add: asks_direct_def demo_command_def)
  ultimately show ?thesis using shadow_mode_never_writes_xray by blast
qed

text \<open>
  C22: when a disabling or removing command completes, the watermarks it reports cover every
  batch still pending on the agent, so the control plane knows through which batch it must
  have accounted before the user's usage is final.
\<close>

theorem disable_watermarks_cover:
  assumes "unique_listing env" and "store_wf (w_store w)"
    and "run_command env command w = (Inr res, w')" and "res_status res = Completed"
    and "cmd_type command = DISABLE_USER \<or> cmd_type command = REMOVE_USER"
  shows "\<exists>ws ms. res_result res = Some ms \<and> map_of ms ''disableWatermarks'' = Some (watermark_json ws)
    \<and> (\<forall>b \<in> set (st_batches (w_store w')). covers ws b)"
proof -
  obtain ws r where ws: "pendingBatchWatermarks (w_store w') = Inr ws" "res = with_watermarks ws r"
    using run_command_reports [OF assms(3,4)] assms(5) by auto
  have "store_wf (w_store w')"
    using keepsD [OF well_formed.world.keeps_run_command [OF assms(1)] _ assms(3)] assms(2)
    by (simp add: world_inv_def)
  from watermarks_cover [OF this ws(1)] show ?thesis
    using ws(2) by (auto simp: with_watermarks_def)
qed

definition demo_disable :: AgentCommand where
  "demo_disable = \<lparr>cmd_id = ''c7'', cmd_type = DISABLE_USER, cmd_targetRevision = ''9'',
     cmd_payload = [(''bindingId'', JStr ''b1''), (''email'', JStr ''u1'')], cmd_createdAt = ''t0''\<rparr>"

definition demo_direct :: "demo runner_world" where
  "demo_direct = (newRunner ex_store [(''u1'', None)])\<lparr>r_currentConfig := demo_snapshot\<rparr>"

lemma demo_disable_runs:
  "case run_command listing_env demo_disable demo_direct of
     (Inl e, w) \<Rightarrow> False | (Inr res, w) \<Rightarrow> res_status res = Completed"
  by code_simp

theorem disable_watermarks_cover_witness:
  "\<exists>res w' ws ms. run_command listing_env demo_disable demo_direct = (Inr res, w')
     \<and> res_result res = Some ms \<and> map_of ms ''disableWatermarks'' = Some (watermark_json ws)
     \<and> (\<forall>b \<in> set (st_batches (w_store w')). covers ws b)"
proof -
  obtain res w' where run: "run_command listing_env demo_disable demo_direct = (Inr res, w')" "res_status res = Completed"
    using demo_disable_runs by (auto split: prod.splits sum.splits)
  have "store_wf (w_store demo_direct)" by (simp add: demo_direct_def newRunner_def ex_store_wf)
  from disable_watermarks_cover [OF demo_unique this run] run(1) show ?thesis
    by (auto simp: demo_disable_def)
qed

end
