(* ===== verification/Transactions.thy ===== *)
theory Transactions
  imports InboundSpec
begin

text \<open>
  The control plane's database code as transactions: a transaction returns a value and the
  changed state, or fails and changes nothing, which is what the database's rollback gives.
  \<open>tkeeps\<close> states that a transaction keeps an invariant, \<open>tensures\<close> what a successful one
  leaves; the rules of \<open>tkeeps_intros\<close> follow a transaction's structure.
\<close>

section \<open>Sequencing\<close>

type_synonym ('s, 'a) tx = "'s \<Rightarrow> (api_error, 'a \<times> 's) result"

definition tret :: "'a \<Rightarrow> ('s, 'a) tx" where
  "tret a s = Inr (a, s)"

definition tthrow :: "api_error \<Rightarrow> ('s, 'a) tx" where
  "tthrow e s = Inl e"

definition tbind :: "('s, 'a) tx \<Rightarrow> ('a \<Rightarrow> ('s, 'b) tx) \<Rightarrow> ('s, 'b) tx" where
  "tbind m f s = (case m s of Inl e \<Rightarrow> Inl e | Inr (a, s') \<Rightarrow> f a s')"

definition tread :: "('s \<Rightarrow> 'a) \<Rightarrow> ('s, 'a) tx" where
  "tread f s = Inr (f s, s)"

definition twrite :: "('s \<Rightarrow> 's) \<Rightarrow> ('s, unit) tx" where
  "twrite f s = Inr ((), f s)"

definition tlift :: "(api_error, 'a) result \<Rightarrow> ('s, 'a) tx" where
  "tlift r s = (case r of Inl e \<Rightarrow> Inl e | Inr a \<Rightarrow> Inr (a, s))"

definition twhen :: "bool \<Rightarrow> ('s, unit) tx \<Rightarrow> ('s, unit) tx" where
  "twhen b m = (if b then m else tret ())"

text \<open>A missing row is an error.\<close>

definition tfound :: "'a option \<Rightarrow> api_error \<Rightarrow> ('s, 'a) tx" where
  "tfound v e = tlift (require_some v e)"

definition tassert :: "bool \<Rightarrow> api_error \<Rightarrow> ('s, unit) tx" where
  "tassert b e = tlift (require b e)"

fun tfor :: "'a list \<Rightarrow> ('a \<Rightarrow> ('s, unit) tx) \<Rightarrow> ('s, unit) tx" where
  "tfor [] f = tret ()"
| "tfor (x # xs) f = tbind (f x) (\<lambda>_. tfor xs f)"

text \<open>A loop that carries a value.\<close>

fun tfold :: "('a \<Rightarrow> 'c \<Rightarrow> ('s, 'c) tx) \<Rightarrow> 'a list \<Rightarrow> 'c \<Rightarrow> ('s, 'c) tx" where
  "tfold f [] c = tret c"
| "tfold f (x # xs) c = tbind (f x c) (tfold f xs)"

section \<open>Reading results\<close>

lemma tbind_Inr: "tbind m f s = Inr r \<longleftrightarrow> (\<exists>a v. m s = Inr (a, v) \<and> f a v = Inr r)"
  by (auto simp: tbind_def split: sum.splits)

lemma tbind_Inl: "tbind m f s = Inl e \<longleftrightarrow> m s = Inl e \<or> (\<exists>a v. m s = Inr (a, v) \<and> f a v = Inl e)"
  by (auto simp: tbind_def split: sum.splits)

lemma tret_eq [simp]: "tret a s = Inr (b, s') \<longleftrightarrow> b = a \<and> s' = s" "tret a s \<noteq> Inl e"
  by (auto simp: tret_def)

lemma tthrow_eq [simp]: "tthrow e s = Inl e' \<longleftrightarrow> e' = e" "tthrow e s \<noteq> Inr r"
  by (auto simp: tthrow_def)

lemma tread_eq [simp]: "tread f s = Inr (b, s') \<longleftrightarrow> b = f s \<and> s' = s" "tread f s \<noteq> Inl e"
  by (auto simp: tread_def)

lemma twrite_eq [simp]: "twrite f s = Inr (b, s') \<longleftrightarrow> s' = f s" "twrite f s \<noteq> Inl e"
  by (auto simp: twrite_def)

lemma tlift_eq [simp]:
  "tlift r s = Inr (b, s') \<longleftrightarrow> r = Inr b \<and> s' = s" "tlift r s = Inl e \<longleftrightarrow> r = Inl e"
  by (auto simp: tlift_def split: sum.splits)

lemma tfound_eq [simp]:
  "tfound v e s = Inr (b, s') \<longleftrightarrow> v = Some b \<and> s' = s" "tfound v e s = Inl e' \<longleftrightarrow> v = None \<and> e' = e"
  by (auto simp: tfound_def)

lemma tassert_eq [simp]:
  "tassert b e s = Inr (u, s') \<longleftrightarrow> b \<and> s' = s" "tassert b e s = Inl e' \<longleftrightarrow> \<not> b \<and> e' = e"
  by (auto simp: tassert_def)

lemma tfold_append: "tfold f (xs @ ys) c s = tbind (tfold f xs c) (tfold f ys) s"
proof (induction xs arbitrary: c s)
  case Nil
  then show ?case by (simp add: tbind_def tret_def)
next
  case (Cons x xs)
  then show ?case by (auto simp: tbind_def split: sum.splits)
qed

lemmas tx_simps = tbind_Inr tbind_Inl

section \<open>Invariants\<close>

named_theorems tkeeps_intros \<open>transactions that keep an invariant\<close>

definition tkeeps :: "('s \<Rightarrow> bool) \<Rightarrow> ('s, 'a) tx \<Rightarrow> bool" where
  "tkeeps I m \<longleftrightarrow> (\<forall>s a s'. I s \<longrightarrow> m s = Inr (a, s') \<longrightarrow> I s')"

lemma tkeepsD: "tkeeps I m \<Longrightarrow> I s \<Longrightarrow> m s = Inr (a, s') \<Longrightarrow> I s'"
  by (auto simp: tkeeps_def)

lemma tkeepsI: "(\<And>s a s'. I s \<Longrightarrow> m s = Inr (a, s') \<Longrightarrow> I s') \<Longrightarrow> tkeeps I m"
  by (auto simp: tkeeps_def)

lemma tkeeps_basic [tkeeps_intros]:
  "tkeeps I (tret a)" "tkeeps I (tthrow e)" "tkeeps I (tread f)" "tkeeps I (tlift r)"
  "tkeeps I (tfound v e)" "tkeeps I (tassert b e)"
  by (auto simp: tkeeps_def)

lemma tkeeps_tbind [tkeeps_intros]:
  "tkeeps I m \<Longrightarrow> (\<And>a. tkeeps I (f a)) \<Longrightarrow> tkeeps I (tbind m f)"
  unfolding tkeeps_def tbind_Inr by blast

lemma tkeeps_twhen [tkeeps_intros]: "(b \<Longrightarrow> tkeeps I m) \<Longrightarrow> tkeeps I (twhen b m)"
  by (simp add: twhen_def tkeeps_basic)

lemma tkeeps_if [tkeeps_intros]:
  "(b \<Longrightarrow> tkeeps I m) \<Longrightarrow> (\<not> b \<Longrightarrow> tkeeps I n) \<Longrightarrow> tkeeps I (if b then m else n)"
  by simp

lemma tkeeps_case_option [tkeeps_intros]:
  "tkeeps I m \<Longrightarrow> (\<And>a. v = Some a \<Longrightarrow> tkeeps I (n a)) \<Longrightarrow> tkeeps I (case v of None \<Rightarrow> m | Some a \<Rightarrow> n a)"
  by (cases v) simp_all

lemma tkeeps_case_prod [tkeeps_intros]:
  "(\<And>a b. tkeeps I (f a b)) \<Longrightarrow> tkeeps I (case p of (a, b) \<Rightarrow> f a b)"
  by (cases p) simp

lemma tkeeps_twrite: "(\<And>s. I s \<Longrightarrow> I (f s)) \<Longrightarrow> tkeeps I (twrite f)"
  by (auto simp: tkeeps_def)

lemma tkeeps_tfor [tkeeps_intros]: "(\<And>x. x \<in> set xs \<Longrightarrow> tkeeps I (f x)) \<Longrightarrow> tkeeps I (tfor xs f)"
  by (induction xs) (auto intro: tkeeps_tbind tkeeps_basic)

lemma tkeeps_tfold [tkeeps_intros]:
  "(\<And>x c. x \<in> set xs \<Longrightarrow> tkeeps I (f x c)) \<Longrightarrow> tkeeps I (tfold f xs c)"
  by (induction xs arbitrary: c) (auto intro: tkeeps_tbind tkeeps_basic)

text \<open>An invariant over the state and the carried value of a loop.\<close>

lemma tfold_invariant:
  assumes "tfold f xs c s = Inr (c', s')" and "I c s"
    and "\<And>x c s c' s'. x \<in> set xs \<Longrightarrow> I c s \<Longrightarrow> f x c s = Inr (c', s') \<Longrightarrow> I c' s'"
  shows "I c' s'"
  using assms
proof (induction xs arbitrary: c s)
  case Nil
  then show ?case by simp
next
  case (Cons x xs)
  from Cons.prems(1) obtain c1 s1 where step: "f x c s = Inr (c1, s1)" "tfold f xs c1 s1 = Inr (c', s')"
    by (auto simp: tx_simps)
  from Cons.prems(3) [of x c s c1 s1] step(1) Cons.prems(2) have "I c1 s1" by simp
  with step(2) show ?case by (rule Cons.IH) (rule Cons.prems(3), auto)
qed

lemma tfor_invariant:
  assumes "tfor xs f s = Inr (u, s')" and "I s"
    and "\<And>x s s' u. x \<in> set xs \<Longrightarrow> I s \<Longrightarrow> f x s = Inr (u, s') \<Longrightarrow> I s'"
  shows "I s'"
  using assms
proof (induction xs arbitrary: s)
  case Nil
  then show ?case by simp
next
  case (Cons x xs)
  then show ?case by (auto simp: tx_simps)
qed

section \<open>Transactions in a row\<close>

text \<open>
  A loop that commits each step on its own: the first failing step ends it, and what the earlier
  steps committed stays.
\<close>

fun commit_each :: "('a \<Rightarrow> ('s, unit) tx) \<Rightarrow> 'a list \<Rightarrow> 's \<Rightarrow> api_error option \<times> 's" where
  "commit_each f [] s = (None, s)"
| "commit_each f (x # xs) s = (case f x s of Inl e \<Rightarrow> (Some e, s) | Inr (_, s') \<Rightarrow> commit_each f xs s')"

lemma commit_each_invariant:
  assumes "\<And>x s s' u. x \<in> set xs \<Longrightarrow> I s \<Longrightarrow> f x s = Inr (u, s') \<Longrightarrow> I s'" and "I s"
  shows "I (snd (commit_each f xs s))"
  using assms
proof (induction xs arbitrary: s)
  case Nil
  then show ?case by simp
next
  case (Cons x xs)
  show ?case
  proof (cases "f x s")
    case (Inl e)
    with Cons.prems show ?thesis by simp
  next
    case (Inr r)
    obtain u s1 where r: "r = (u, s1)" by (cases r)
    have "I s1" by (rule Cons.prems(1) [of x s u s1]) (use Inr r Cons.prems in auto)
    then have "I (snd (commit_each f xs s1))" by (rule Cons.IH [rotated]) (rule Cons.prems(1), auto)
    with Inr r show ?thesis by simp
  qed
qed

lemma commit_each_keeps: "(\<And>x. x \<in> set xs \<Longrightarrow> tkeeps I (f x)) \<Longrightarrow> I s \<Longrightarrow> I (snd (commit_each f xs s))"
  by (rule commit_each_invariant) (auto dest: tkeepsD)

lemma commit_each_None:
  "commit_each f (x # xs) s = (None, s') \<longleftrightarrow> (\<exists>u s1. f x s = Inr (u, s1) \<and> commit_each f xs s1 = (None, s'))"
  by (auto split: sum.splits)

section \<open>Retrying\<close>

text \<open>
  The retry loop around a serializable transaction: \<open>operation n\<close> is what the \<open>n\<close>-th attempt
  yields.  Only an error the caller calls retryable is retried, and at most \<open>limit\<close> attempts
  are made.
\<close>

function retry_loop :: "nat \<Rightarrow> (api_error \<Rightarrow> bool) \<Rightarrow> (nat \<Rightarrow> (api_error, 'a) result) \<Rightarrow> nat \<Rightarrow> (api_error, 'a) result" where
  "retry_loop limit retryable operation attempt = (case operation attempt of
       Inr a \<Rightarrow> Inr a
     | Inl e \<Rightarrow> if attempt \<ge> limit \<or> \<not> retryable e then Inl e
                else retry_loop limit retryable operation (Suc attempt))"
  by pat_completeness auto
termination by (relation "measure (\<lambda>(limit, r, f, attempt). limit - attempt)") auto

declare retry_loop.simps [simp del]

text \<open>The loop's answer is that of its last attempt; all earlier ones failed retryably.\<close>

lemma retry_loop_last:
  assumes "attempt \<le> limit"
  shows "\<exists>k. attempt \<le> k \<and> k \<le> limit \<and> retry_loop limit retryable operation attempt = operation k
    \<and> (\<forall>j. attempt \<le> j \<longrightarrow> j < k \<longrightarrow> (\<exists>e. operation j = Inl e \<and> retryable e))
    \<and> (\<forall>e. operation k = Inl e \<longrightarrow> k = limit \<or> \<not> retryable e)"
  using assms
proof (induction "limit - attempt" arbitrary: attempt)
  case 0
  then show ?case by (intro exI [of _ attempt]) (auto simp: retry_loop.simps [of _ _ _ attempt] split: sum.splits)
next
  case (Suc n)
  show ?case
  proof (cases "\<exists>e. operation attempt = Inl e \<and> retryable e")
    case False
    then show ?thesis using Suc.prems
      by (intro exI [of _ attempt]) (auto simp: retry_loop.simps [of _ _ _ attempt] split: sum.splits)
  next
    case True
    then obtain e where e: "operation attempt = Inl e" "retryable e" by blast
    from Suc.hyps(1) [of "Suc attempt"] Suc.hyps(2) obtain k where
      k: "Suc attempt \<le> k" "k \<le> limit" "retry_loop limit retryable operation (Suc attempt) = operation k"
        "\<forall>j. Suc attempt \<le> j \<longrightarrow> j < k \<longrightarrow> (\<exists>e. operation j = Inl e \<and> retryable e)"
        "\<forall>e. operation k = Inl e \<longrightarrow> k = limit \<or> \<not> retryable e" by force
    have "retry_loop limit retryable operation attempt = operation k"
      using e k(1,2,3) by (simp add: retry_loop.simps [of _ _ _ attempt])
    moreover have "\<exists>e. operation j = Inl e \<and> retryable e" if "attempt \<le> j" "j < k" for j
      using that e k(4) by (cases "j = attempt") auto
    ultimately show ?thesis using k by (intro exI [of _ k]) auto
  qed
qed

end
