(* ===== verification/PanelInbound.thy ===== *)
theory PanelInbound
  imports InboundSpec
begin

text \<open>
  Inbounds that a panel serves and an agent only validates (\<open>agent/panel-inbound.ts\<close>): the
  normalisation of the imported parameters, of a sharing link, and the check of the agent's
  report against them.
\<close>

section \<open>Data\<close>

record PanelInboundSpec =
  ps_inboundTag :: string
  ps_listenPort :: int
  ps_serverHost :: string
  ps_realityPublicKey :: string
  ps_shortId :: string
  ps_serverName :: string
  ps_flow :: flow
  ps_fingerprint :: string
  ps_spiderX :: string
  ps_panelVersion :: string
  ps_tagOverrideConfirmed :: bool

definition panel_json :: "PanelInboundSpec \<Rightarrow> json_object" where
  "panel_json s = [(''mode'', JStr ''validate_panel''), (''inboundTag'', JStr (ps_inboundTag s)),
     (''listenPort'', JNum (of_int (ps_listenPort s))), (''serverHost'', JStr (ps_serverHost s)),
     (''realityPublicKey'', JStr (ps_realityPublicKey s)), (''shortId'', JStr (ps_shortId s)),
     (''serverNames'', JArr [JStr (ps_serverName s)]), (''flow'', JStr (flow_text (ps_flow s))),
     (''fingerprint'', JStr (ps_fingerprint s)), (''spiderX'', JStr (ps_spiderX s)),
     (''panelVersion'', JStr (ps_panelVersion s)), (''tagOverrideConfirmed'', JBool (ps_tagOverrideConfirmed s))]"

section \<open>Checks\<close>

text \<open>A public address or a domain of at least two labels, brackets and blanks removed.\<close>

definition domain_ok :: "string \<Rightarrow> bool" where
  "domain_ok s \<longleftrightarrow> length s \<le> 253 \<and> 2 \<le> length (js_split (CHR ''.'') s)
     \<and> list_all label_ok (js_split (CHR ''.'') s)"

definition panel_host :: "string \<Rightarrow> string \<Rightarrow> (api_error, string) result" where
  "panel_host value label =
     (let normalized = strip_brackets (js_trim value) in
      if isIP normalized \<noteq> 0
      then if api_isPublicUnicastAddress normalized then Inr normalized else Inl (BadRequest label)
      else if domain_ok normalized then Inr normalized else Inl (BadRequest label))"

definition panel_text :: "json_object \<Rightarrow> string \<Rightarrow> string \<Rightarrow> (api_error, string) result" where
  "panel_text input key fallback = (case map_of input key of
       None \<Rightarrow> Inr (js_trim fallback)
     | Some JNull \<Rightarrow> Inr (js_trim fallback)
     | Some (JStr s) \<Rightarrow> Inr (js_trim s)
     | Some _ \<Rightarrow> Inl (BadRequest key))"

text \<open>\<open>/^(\d+)\.(\d+)\.(\d+)$/\<close> with major 3 and minor at least 1, or \<open>auto\<close>.\<close>

definition version_ok :: "string \<Rightarrow> bool" where
  "version_ok v \<longleftrightarrow> v = ''auto'' \<or> (case js_split (CHR ''.'') v of
       [a, b, c] \<Rightarrow> a \<noteq> [] \<and> b \<noteq> [] \<and> c \<noteq> [] \<and> list_all is_digit a \<and> list_all is_digit b \<and> list_all is_digit c
         \<and> digits_val 0 a = 3 \<and> 1 \<le> digits_val 0 b
     | _ \<Rightarrow> False)"

definition strip_v :: "string \<Rightarrow> string" where
  "strip_v s = (if s \<noteq> [] \<and> hd s = CHR ''v'' then tl s else s)"

text \<open>
  43 characters of base64url carry 258 bits, two more than 32 bytes; decoding and encoding gives
  the text back exactly when the two spare bits of the last character are zero.
\<close>

definition base64url_value :: "char \<Rightarrow> nat" where
  "base64url_value c =
     (if is_upper c then of_char c - 65
      else if is_lower c then of_char c - 71
      else if is_digit c then of_char c + 4
      else if c = CHR ''-'' then 62 else 63)"

definition canonical_key :: "string \<Rightarrow> bool" where
  "canonical_key s \<longleftrightarrow> public_key_ok s \<and> base64url_value (last s) mod 4 = 0"

text \<open>\<open>/^(?:[0-9a-f]{2}){0,8}$/\<close>.\<close>

definition panel_short_id_ok :: "string \<Rightarrow> bool" where
  "panel_short_id_ok s \<longleftrightarrow> even (length s) \<and> length s \<le> 16 \<and> list_all lower_hex s"

definition single_name :: "json option \<Rightarrow> (api_error, string) result" where
  "single_name v = (case v of Some (JArr [JStr s]) \<Rightarrow> Inr s | _ \<Rightarrow> Inl (BadRequest ''serverNames''))"

section \<open>Operations\<close>

definition normalizePanelInbound :: "json_object \<Rightarrow> (api_error, PanelInboundSpec) result" where
  "normalizePanelInbound input =
     rbind (require (map_of input ''mode'' = Some (JStr ''validate_panel'')) (BadRequest ''mode'')) (\<lambda>_.
     rbind (require (map_of input ''rotateKeys'' \<noteq> Some (JBool True)) (BadRequest ''rotateKeys'')) (\<lambda>_.
     rbind (require (port_ok (json_number (map_of input ''listenPort''))) (BadRequest ''listenPort'')) (\<lambda>_.
     let listenPort = number_int (json_number (map_of input ''listenPort''));
         derived = ''inbound-'' @ bigint_toString listenPort;
         confirmed = (map_of input ''tagOverrideConfirmed'' = Some (JBool True)) in
     rbind (panel_text input ''inboundTag'' derived) (\<lambda>inboundTag.
     rbind (require (tag_ok inboundTag) (BadRequest ''inboundTag'')) (\<lambda>_.
     rbind (require (inboundTag = derived \<or> confirmed) (BadRequest ''tagOverrideConfirmed'')) (\<lambda>_.
     rbind (panel_text input ''panelVersion'' []) (\<lambda>version.
     let panelVersion = strip_v version in
     rbind (require (version_ok panelVersion) (BadRequest ''panelVersion'')) (\<lambda>_.
     rbind (panel_text input ''realityPublicKey'' []) (\<lambda>realityPublicKey.
     rbind (require (canonical_key realityPublicKey) (BadRequest ''realityPublicKey'')) (\<lambda>_.
     rbind (panel_text input ''shortId'' []) (\<lambda>shortId.
     rbind (require (panel_short_id_ok shortId) (BadRequest ''shortId'')) (\<lambda>_.
     rbind (single_name (map_of input ''serverNames'')) (\<lambda>name.
     rbind (panel_host name ''SNI'') (\<lambda>serverName.
     rbind (panel_text input ''flow'' []) (\<lambda>flow.
     rbind (require_some (text_flow flow) (BadRequest ''flow'')) (\<lambda>flow.
     rbind (panel_text input ''fingerprint'' ''chrome'') (\<lambda>fingerprint.
     rbind (require (fingerprint \<in> set supported_fingerprints) (BadRequest ''fingerprint'')) (\<lambda>_.
     rbind (panel_text input ''spiderX'' ''/'') (\<lambda>spiderX.
     rbind (require (spider_ok spiderX) (BadRequest ''spiderX'')) (\<lambda>_.
     rbind (panel_text input ''serverHost'' []) (\<lambda>host.
     rbind (panel_host host ''serverHost'') (\<lambda>serverHost.
     Inr \<lparr>ps_inboundTag = inboundTag, ps_listenPort = listenPort, ps_serverHost = serverHost,
          ps_realityPublicKey = realityPublicKey, ps_shortId = shortId, ps_serverName = serverName, ps_flow = flow,
          ps_fingerprint = fingerprint, ps_spiderX = spiderX, ps_panelVersion = panelVersion,
          ps_tagOverrideConfirmed = confirmed\<rparr>))))))))))))))))))))))"

text \<open>A sharing link after the platform's URL parser.\<close>

record parsed_url =
  url_protocol :: string
  url_username :: string
  url_password :: string
  url_hostname :: string
  url_port :: string
  url_pathname :: string
  url_search :: "(string \<times> string) list"

definition link_params :: "string list" where
  "link_params = [''security'', ''type'', ''encryption'', ''pbk'', ''sid'', ''sni'', ''flow'', ''fp'', ''spx'']"

definition param_or :: "string option \<Rightarrow> string \<Rightarrow> string" where
  "param_or v fallback = (case v of None \<Rightarrow> fallback | Some s \<Rightarrow> s)"

definition parsePanelLink ::
  "parsed_url option \<Rightarrow> string \<Rightarrow> string option \<Rightarrow> bool \<Rightarrow> (api_error, PanelInboundSpec) result" where
  "parsePanelLink link panelVersion override confirmed =
     rbind (require_some link (BadRequest ''link'')) (\<lambda>url.
     let q = map_of (url_search url) in
     rbind (require (url_protocol url = ''vless:'' \<and> url_username url \<noteq> [] \<and> url_password url = []) (BadRequest ''vless'')) (\<lambda>_.
     rbind (require (url_pathname url = [] \<or> url_pathname url = ''/'') (BadRequest ''path'')) (\<lambda>_.
     rbind (require (list_all (\<lambda>p. fst p \<in> set link_params) (url_search url)
              \<and> distinct (map fst (url_search url))) (BadRequest ''parameter'')) (\<lambda>_.
     rbind (require (q ''security'' = Some ''reality'' \<and> param_or (q ''type'') ''tcp'' \<in> {''tcp'', ''raw''}) (BadRequest ''security'')) (\<lambda>_.
     rbind (require (q ''encryption'' = None \<or> q ''encryption'' = Some ''none'') (BadRequest ''encryption'')) (\<lambda>_.
     normalizePanelInbound ([(''mode'', JStr ''validate_panel''),
       (''listenPort'', case js_Number (url_port url) of Num p \<Rightarrow> JNum p | _ \<Rightarrow> JNull),
       (''serverHost'', JStr (url_hostname url)), (''realityPublicKey'', JStr (param_or (q ''pbk'') [])),
       (''shortId'', JStr (param_or (q ''sid'') [])), (''serverNames'', JArr [JStr (param_or (q ''sni'') [])]),
       (''flow'', JStr (param_or (q ''flow'') [])), (''fingerprint'', JStr (param_or (q ''fp'') ''chrome'')),
       (''spiderX'', JStr (param_or (q ''spx'') ''/'')), (''panelVersion'', JStr panelVersion)]
       @ (case override of Some t \<Rightarrow> if t = [] then [] else [(''inboundTag'', JStr t)] | None \<Rightarrow> [])
       @ [(''tagOverrideConfirmed'', JBool confirmed)])))))))"

definition panel_fields :: "PanelInboundSpec \<Rightarrow> InboundReportFields" where
  "panel_fields s = \<lparr>irf_serverHost = ps_serverHost s, irf_serverPort = ps_listenPort s,
     irf_realityPublicKey = ps_realityPublicKey s, irf_shortId = ps_shortId s, irf_serverName = ps_serverName s,
     irf_flow = ps_flow s, irf_fingerprint = ps_fingerprint s, irf_spiderX = ps_spiderX s\<rparr>"

definition panel_expected :: "PanelInboundSpec \<Rightarrow> json_object" where
  "panel_expected s = [(''serverPort'', JNum (of_int (ps_listenPort s))), (''serverHost'', JStr (ps_serverHost s)),
     (''realityPublicKey'', JStr (ps_realityPublicKey s)), (''shortId'', JStr (ps_shortId s)),
     (''serverName'', JStr (ps_serverName s)), (''flow'', JStr (flow_text (ps_flow s))),
     (''fingerprint'', JStr (ps_fingerprint s)), (''spiderX'', JStr (ps_spiderX s))]"

definition parsePanelReport :: "json \<Rightarrow> PanelInboundSpec \<Rightarrow> (api_error, InboundReportFields) result" where
  "parsePanelReport result spec = (case result of
       JObj ms \<Rightarrow> (case map_of ms ''inbound'' of
           Some (JObj report) \<Rightarrow>
             rbind (require (map_of report ''mode'' = Some (JStr ''validate_panel'')
                      \<and> map_of report ''validated'' = Some (JBool True)) (BadRequest ''validated'')) (\<lambda>_.
             rbind (require (case map_of report ''inboundTag'' of
                        Some (JStr tag) \<Rightarrow> tag_ok tag \<and> (ps_tagOverrideConfirmed spec \<longrightarrow> tag = ps_inboundTag spec)
                      | _ \<Rightarrow> False) (BadRequest ''inboundTag'')) (\<lambda>_.
             rbind (require (list_all (\<lambda>(key, v). map_of report key = Some v) (panel_expected spec))
                      (BadRequest ''report'')) (\<lambda>_.
             Inr (panel_fields spec))))
         | _ \<Rightarrow> Inl (BadRequest ''inbound''))
     | _ \<Rightarrow> Inl (BadRequest ''inbound''))"

section \<open>Normalising twice\<close>

definition host_char :: "char \<Rightarrow> bool" where
  "host_char c \<longleftrightarrow> is_alnum c \<or> c \<in> {CHR ''-'', CHR ''.'', CHR '':'', CHR ''%''}"

lemma split_colons_chars: "split_colons s = (h, t) \<Longrightarrow> set s \<subseteq> insert (CHR '':'') (set h \<union> (case t of None \<Rightarrow> {} | Some u \<Rightarrow> set u))"
  by (induction s arbitrary: h t rule: split_colons.induct) (auto split: if_splits prod.splits option.splits)

lemma hex_alnum: "hex_val c \<noteq> None \<Longrightarrow> is_alnum c"
  by (auto simp: hex_val_def is_alnum_def is_digit_def is_upper_def is_lower_def Let_def split: if_splits)

lemma hextet_chars: "hextet p \<Longrightarrow> x \<in> set p \<Longrightarrow> host_char x"
  using hex_alnum by (auto simp: hextet_def list_all_iff host_char_def)

lemma isIPv4_host_chars: "isIPv4 p \<Longrightarrow> x \<in> set p \<Longrightarrow> host_char x"
  using isIPv4_chars by (fastforce simp: host_char_def is_alnum_def)

lemma v6_groups_chars: "v6_groups ps = Some n \<Longrightarrow> p \<in> set ps \<Longrightarrow> x \<in> set p \<Longrightarrow> host_char x"
  by (induction ps arbitrary: n rule: v6_groups.induct)
    (auto split: if_splits dest: hextet_chars isIPv4_host_chars)

lemma split_pieces_chars:
  assumes "\<And>p x. p \<in> set (js_split c s) \<Longrightarrow> x \<in> set p \<Longrightarrow> host_char x" and "host_char c" and "x \<in> set s"
  shows "host_char x"
  using js_split_chars [of s c] assms by auto

lemma v6_part_chars: "v6_part s = Some n \<Longrightarrow> x \<in> set s \<Longrightarrow> host_char x"
  by (rule split_pieces_chars [where c = "CHR '':''"])
    (auto simp: v6_part_def host_char_def split: if_splits dest: v6_groups_chars)

lemma v6_core_chars:
  assumes "v6_core s" and "x \<in> set s"
  shows "host_char x"
proof -
  obtain h t where ht: "split_colons s = (h, t)" by (cases "split_colons s")
  have colon: "host_char (CHR '':'')" by (simp add: host_char_def)
  have "x = CHR '':'' \<or> x \<in> set h \<or> (\<exists>u. t = Some u \<and> x \<in> set u)"
    using split_colons_chars [OF ht] assms(2) by (auto split: option.splits)
  moreover have "host_char x" if "x \<in> set h"
    using assms(1) that ht colon
    by (cases t) (auto simp: v6_core_def list_all_iff intro: v6_part_chars split_pieces_chars [where c = "CHR '':''"] hextet_chars)
  moreover have "host_char x" if "t = Some u" "x \<in> set u" for u
    using assms(1) that ht by (auto simp: v6_core_def split: option.splits intro: v6_part_chars)
  ultimately show ?thesis using colon by blast
qed

lemma isIPv6_chars:
  assumes "isIPv6 s" and "x \<in> set s"
  shows "host_char x"
proof -
  let ?p = "\<lambda>c. c \<noteq> CHR ''%''"
  have "x \<in> set (takeWhile ?p s) \<or> x \<in> set (dropWhile ?p s)"
    using assms(2) takeWhile_dropWhile_id [of ?p s] by (metis Un_iff set_append)
  then show ?thesis
  proof
    assume "x \<in> set (takeWhile ?p s)"
    then show ?thesis using assms(1) v6_core_chars by (auto simp: isIPv6_def)
  next
    assume x: "x \<in> set (dropWhile ?p s)"
    then obtain c zone where cz: "dropWhile ?p s = c # zone" by (cases "dropWhile ?p s") auto
    then have "c = CHR ''%''" using hd_dropWhile [of ?p s] by (metis list.sel(1) list.distinct(1))
    with x cz assms(1) show ?thesis by (auto simp: isIPv6_def list_all_iff zone_char_def host_char_def)
  qed
qed

lemma host_chars:
  assumes "isIP s \<noteq> 0 \<or> domain_ok s"
  shows "s \<noteq> [] \<and> (\<forall>x \<in> set s. host_char x)"
proof
  show "s \<noteq> []" using assms
    by (auto simp: isIP_def isIPv4_def isIPv6_def v6_core_def v6_part_def domain_ok_def split: if_splits)
  show "\<forall>x \<in> set s. host_char x"
  proof
    fix x assume "x \<in> set s"
    then show "host_char x" using assms
      by (auto simp: isIP_def split: if_splits intro: isIPv4_host_chars isIPv6_chars)
        (rule split_pieces_chars [where c = "CHR ''.''"], auto simp: domain_ok_def list_all_iff label_ok_def host_char_def)
  qed
qed

lemma host_char_plain: "host_char c \<Longrightarrow> \<not> is_space c \<and> c \<noteq> CHR ''['' \<and> c \<noteq> CHR '']''"
  by (auto simp: host_char_def is_alnum_def is_digit_def is_upper_def is_lower_def is_space_def Let_def)

lemma panel_host_idem:
  assumes "panel_host v label = Inr h"
  shows "panel_host h label' = Inr h" and "js_trim h = h"
proof -
  have h: "isIP h \<noteq> 0 \<and> api_isPublicUnicastAddress h \<or> isIP h = 0 \<and> domain_ok h"
    using assms by (auto simp: panel_host_def Let_def split: if_splits)
  then have c: "h \<noteq> []" "\<And>x. x \<in> set h \<Longrightarrow> host_char x" using host_chars [of h] by auto
  have plain: "\<not> is_space x \<and> x \<noteq> CHR ''['' \<and> x \<noteq> CHR '']''" if "x \<in> set h" for x
    using c(2) [OF that] host_char_plain by blast
  show trim: "js_trim h = h" using plain by (intro js_trim_no_space) (auto simp: list_all_iff)
  have "strip_brackets h = h" using c(1) plain by (intro strip_brackets_id) auto
  with trim h show "panel_host h label' = Inr h" by (auto simp: panel_host_def Let_def)
qed

definition panel_wf :: "PanelInboundSpec \<Rightarrow> bool" where
  "panel_wf s \<longleftrightarrow> 1 \<le> ps_listenPort s \<and> ps_listenPort s \<le> 65535 \<and> tag_ok (ps_inboundTag s)
     \<and> (ps_inboundTag s = ''inbound-'' @ bigint_toString (ps_listenPort s) \<or> ps_tagOverrideConfirmed s)
     \<and> version_ok (ps_panelVersion s) \<and> canonical_key (ps_realityPublicKey s) \<and> panel_short_id_ok (ps_shortId s)
     \<and> panel_host (ps_serverName s) ''SNI'' = Inr (ps_serverName s)
     \<and> ps_fingerprint s \<in> set supported_fingerprints \<and> spider_ok (ps_spiderX s)
     \<and> panel_host (ps_serverHost s) ''serverHost'' = Inr (ps_serverHost s) \<and> js_trim (ps_serverHost s) = ps_serverHost s"

lemma normalizePanel_wf: "normalizePanelInbound input = Inr spec \<Longrightarrow> panel_wf spec"
  using panel_host_idem
  by (auto simp: normalizePanelInbound_def Let_def result_simps panel_wf_def port_ok_def number_int_def is_integer_def
      le_floor_iff floor_le_iff split: js_number.splits)

lemma tag_trim: "tag_ok t \<Longrightarrow> js_trim t = t"
  by (rule js_trim_no_space) (use key_char_not_space in \<open>auto simp: tag_ok_def list_all_iff\<close>)

lemma panel_short_trim: "panel_short_id_ok k \<Longrightarrow> js_trim k = k"
  by (rule js_trim_no_space) (use key_char_not_space in \<open>auto simp: panel_short_id_ok_def list_all_iff\<close>)

lemma spider_trim: "spider_ok k \<Longrightarrow> js_trim k = k"
  by (rule js_trim_no_space) (auto simp: spider_ok_def list_all_iff)

lemma version_plain:
  assumes "version_ok v"
  shows "js_trim v = v \<and> strip_v v = v"
proof (cases "v = ''auto''")
  case True
  then show ?thesis by (simp add: js_trim_def is_space_def strip_v_def)
next
  case False
  then obtain a b c where p: "js_split (CHR ''.'') v = [a, b, c]"
    and d: "a \<noteq> []" "list_all is_digit a" "list_all is_digit b" "list_all is_digit c"
    using assms by (auto simp: version_ok_def split: list.splits)
  have ch: "is_digit x \<or> x = CHR ''.''" if "x \<in> set v" for x
    using js_split_chars [of v "CHR ''.''"] that p d by (auto simp: list_all_iff)
  have "js_trim v = v" using ch address_char by (intro js_trim_no_space) (auto simp: list_all_iff)
  moreover have "v = [] \<or> hd v \<noteq> CHR ''v''" using ch [of "hd v"] by (cases v) (auto simp: is_digit_def)
  ultimately show ?thesis by (auto simp: strip_v_def)
qed

lemma map_of_panel [simp]:
  "map_of (panel_json s) ''mode'' = Some (JStr ''validate_panel'')"
  "map_of (panel_json s) ''inboundTag'' = Some (JStr (ps_inboundTag s))"
  "map_of (panel_json s) ''listenPort'' = Some (JNum (of_int (ps_listenPort s)))"
  "map_of (panel_json s) ''serverHost'' = Some (JStr (ps_serverHost s))"
  "map_of (panel_json s) ''realityPublicKey'' = Some (JStr (ps_realityPublicKey s))"
  "map_of (panel_json s) ''shortId'' = Some (JStr (ps_shortId s))"
  "map_of (panel_json s) ''serverNames'' = Some (JArr [JStr (ps_serverName s)])"
  "map_of (panel_json s) ''flow'' = Some (JStr (flow_text (ps_flow s)))"
  "map_of (panel_json s) ''fingerprint'' = Some (JStr (ps_fingerprint s))"
  "map_of (panel_json s) ''spiderX'' = Some (JStr (ps_spiderX s))"
  "map_of (panel_json s) ''panelVersion'' = Some (JStr (ps_panelVersion s))"
  "map_of (panel_json s) ''tagOverrideConfirmed'' = Some (JBool (ps_tagOverrideConfirmed s))"
  "map_of (panel_json s) ''rotateKeys'' = None"
  by (simp_all add: panel_json_def)

lemma normalize_panel_json:
  assumes "panel_wf s"
  shows "normalizePanelInbound (panel_json s) = Inr s"
proof -
  have "js_trim (ps_realityPublicKey s) = ps_realityPublicKey s"
    using assms public_key_trim by (auto simp: panel_wf_def canonical_key_def)
  then show ?thesis
    using assms tag_trim [of "ps_inboundTag s"] panel_short_trim [of "ps_shortId s"] spider_trim [of "ps_spiderX s"]
      version_plain [of "ps_panelVersion s"] fingerprint_supported [of "ps_fingerprint s"]
    by (auto simp: normalizePanelInbound_def panel_text_def panel_wf_def Let_def json_number_def number_int_def
        port_ok_def single_name_def)
qed

section \<open>Properties\<close>

text \<open>
  A specification that was normalised and stored normalises to itself, also with the tag an
  agent has confirmed frozen into it, and the report the agent owes for it is accepted.
\<close>

theorem panel_spec_stable:
  assumes "normalizePanelInbound input = Inr spec" and "tag_ok tag"
    and "frozen = spec\<lparr>ps_inboundTag := tag, ps_tagOverrideConfirmed := True\<rparr>"
  shows "normalizePanelInbound (panel_json spec) = Inr spec \<and> normalizePanelInbound (panel_json frozen) = Inr frozen
    \<and> parsePanelReport (JObj [(''inbound'', JObj ([(''mode'', JStr ''validate_panel''), (''validated'', JBool True),
        (''inboundTag'', JStr tag)] @ panel_expected frozen))]) frozen = Inr (panel_fields spec)"
proof -
  have wf: "panel_wf spec" using assms(1) by (rule normalizePanel_wf)
  then have "panel_wf frozen" using assms(2,3) by (simp add: panel_wf_def)
  moreover have "parsePanelReport (JObj [(''inbound'', JObj ([(''mode'', JStr ''validate_panel''), (''validated'', JBool True),
        (''inboundTag'', JStr tag)] @ panel_expected frozen))]) frozen = Inr (panel_fields frozen)"
    using assms(2,3) by (simp add: parsePanelReport_def panel_expected_def)
  moreover have "panel_fields frozen = panel_fields spec" using assms(3) by (simp add: panel_fields_def)
  ultimately show ?thesis using normalize_panel_json wf by simp
qed

definition demo_panel :: json_object where
  "demo_panel = [(''mode'', JStr ''validate_panel''), (''listenPort'', JNum 443), (''serverHost'', JStr ''vpn.example.com''),
     (''realityPublicKey'', JStr ''AAAAAAAAAAAAAAAAAAAAAAAAAAAAAAAAAAAAAAAAAAA''),
     (''serverNames'', JArr [JStr ''www.microsoft.com'']), (''panelVersion'', JStr ''v3.1.0'')]"

lemma demo_panel_ok: "case normalizePanelInbound demo_panel of Inl e \<Rightarrow> False | Inr s \<Rightarrow> ps_inboundTag s = ''inbound-443''"
  by code_simp

theorem panel_spec_stable_witness:
  "\<exists>spec. normalizePanelInbound demo_panel = Inr spec \<and> normalizePanelInbound (panel_json spec) = Inr spec"
proof -
  obtain spec where "normalizePanelInbound demo_panel = Inr spec"
    using demo_panel_ok by (auto split: sum.splits)
  moreover have "tag_ok ''in-1''" by code_simp
  ultimately show ?thesis using panel_spec_stable [of demo_panel spec "''in-1''"] by blast
qed

end
