(* ===== verification/ControlPlane.thy ===== *)
theory ControlPlane
  imports Transactions PanelInbound "HOL-Library.Product_Lexorder" "HOL-Library.Option_ord"
begin

text \<open>
  The control plane's tables as its agent module reads and writes them
  (\<open>apps/api/prisma/schema.prisma\<close>), one list of rows per table, and what surrounds the
  database: the outbox of published events, a supply of fresh identifiers and, as parameters,
  digests and date parsing.  Instants are milliseconds; one request sees one \<open>now\<close>.
\<close>

section \<open>Rows\<close>

datatype sub_state = Sub_active | Sub_expired | Sub_exhausted | Sub_paused

definition state_text :: "sub_state \<Rightarrow> string" where
  "state_text s = (case s of Sub_active \<Rightarrow> ''active'' | Sub_expired \<Rightarrow> ''expired''
     | Sub_exhausted \<Rightarrow> ''exhausted'' | Sub_paused \<Rightarrow> ''paused'')"

record Subscription =
  sub_id :: string
  sub_userId :: "string option"
  sub_teamId :: "string option"
  sub_totalTrafficGb :: rat
  sub_usedTrafficGb :: rat
  sub_remainingTrafficGb :: rat
  sub_totalTrafficBytes :: int
  sub_usedTrafficBytes :: int
  sub_expireAt :: int
  sub_state :: sub_state
  sub_lastSyncedAt :: int

datatype metering_source = Xui | Direct

record PanelClientBinding =
  pb_id :: string
  pb_subscriptionId :: string
  pb_userId :: "string option"
  pb_teamId :: "string option"
  pb_nodeId :: string
  pb_panelClientEmail :: string
  pb_panelClientId :: string
  pb_lastUplinkBytes :: int
  pb_lastDownlinkBytes :: int
  pb_lastSyncedAt :: "int option"
  pb_status :: string
  pb_source :: metering_source
  pb_directRevision :: int
  pb_directDisabledAt :: "int option"
  pb_directDisableWatermarks :: "json option"

record TrafficSnapshot =
  ts_id :: string
  ts_snapshotKey :: string
  ts_nodeId :: string
  ts_subscriptionId :: string
  ts_userId :: "string option"
  ts_teamId :: "string option"
  ts_uplinkBytes :: int
  ts_downlinkBytes :: int
  ts_totalBytes :: int
  ts_source :: metering_source
  ts_counterGeneration :: string
  ts_sampledAt :: int

record TrafficLedger =
  tl_id :: string
  tl_teamId :: string
  tl_userId :: string
  tl_subscriptionId :: string
  tl_nodeId :: string
  tl_usedTrafficBytes :: int
  tl_usedTrafficGb :: rat
  tl_recordedAt :: int

record Node =
  nd_id :: string
  nd_controlMode :: control_mode
  nd_controlStatus :: string
  nd_registrationStatus :: "string option"
  nd_onboardingSpec :: "json option"
  nd_isActive :: bool
  nd_agentLastSeenAt :: "int option"
  nd_agentConfigRevision :: int
  nd_inboundAppliedRevision :: int
  nd_endpoint :: InboundReportFields

record NodeAgent =
  na_id :: string
  na_agentId :: string
  na_nodeId :: string
  na_tokenHash :: string
  na_tokenPrefix :: string
  na_version :: "string option"
  na_status :: string
  na_bootId :: "string option"
  na_lastSequence :: int
  na_lastAckSequence :: int
  na_configRevision :: int
  na_queueDepth :: nat
  na_xrayStatus :: string
  na_lastSeenAt :: "int option"
  na_revokedAt :: "int option"
  na_createdAt :: int

record NodeUsageBatch =
  nb_id :: string
  nb_nodeId :: string
  nb_agentId :: string
  nb_bootId :: string
  nb_sequence :: int
  nb_payloadHash :: string
  nb_payload :: UsageBatch
  nb_sampledAt :: int
  nb_accountedAt :: "int option"
  nb_createdAt :: int

datatype job_status = Job_pending | Job_running | Job_failed | Job_completed | Job_cancelled

record NodeCommandJob =
  jb_id :: string
  jb_dedupeKey :: string
  jb_nodeId :: string
  jb_agentId :: "string option"
  jb_commandType :: command_type
  jb_targetRevision :: int
  jb_payload :: json_object
  jb_bindingId :: "string option"
  jb_subscriptionId :: "string option"
  jb_userId :: "string option"
  jb_teamId :: "string option"
  jb_status :: job_status
  jb_resolvedAt :: "int option"
  jb_attempts :: nat
  jb_nextRunAt :: int
  jb_result :: "json option"
  jb_lastError :: "string option"
  jb_completedAt :: "int option"
  jb_createdAt :: int

record LeaseRevocationJob =
  lj_id :: string
  lj_dedupeKey :: string
  lj_reason :: string
  lj_subscriptionId :: "string option"
  lj_nodeId :: "string option"
  lj_status :: string
  lj_attempts :: nat
  lj_nextRunAt :: int
  lj_lockedAt :: "int option"
  lj_lastError :: "string option"
  lj_completedAt :: "int option"

record AgentRegisterToken =
  rt_id :: string
  rt_nodeId :: string
  rt_tokenHash :: string
  rt_tokenPrefix :: string
  rt_expiresAt :: int
  rt_usedAt :: "int option"

record SubscriptionTransition =
  tr_subscriptionId :: string
  tr_userId :: "string option"
  tr_teamId :: "string option"
  tr_state :: sub_state

section \<open>State\<close>

text \<open>
  \<open>out_commands\<close> are the commands handed to an agent's event stream, \<open>out_transitions\<close> the
  subscription updates published to clients, \<open>out_admin\<close> the nodes whose access was reported
  to administrators; \<open>fresh\<close> counts the identifiers drawn so far.
\<close>

record control_plane =
  subscriptions :: "Subscription list"
  bindings :: "PanelClientBinding list"
  snapshots :: "TrafficSnapshot list"
  ledger_rows :: "TrafficLedger list"
  nodes :: "Node list"
  agents :: "NodeAgent list"
  usage_batches :: "NodeUsageBatch list"
  command_jobs :: "NodeCommandJob list"
  lease_jobs :: "LeaseRevocationJob list"
  register_tokens :: "AgentRegisterToken list"
  fresh :: nat
  out_commands :: "(string \<times> AgentCommand) list"
  out_transitions :: "SubscriptionTransition list"
  out_admin :: "string list"

text \<open>What the service takes from its platform.\<close>

record platform =
  pf_uuid :: "nat \<Rightarrow> string"
  pf_random :: "nat \<Rightarrow> string"
  pf_pepper :: "string option"
  pf_sha256 :: "string \<Rightarrow> string"
  pf_sha256json :: "json \<Rightarrow> string"
  pf_parseDate :: "string \<Rightarrow> int"
  pf_isoString :: "int \<Rightarrow> string"
  pf_now :: int

definition draw_uuid :: "platform \<Rightarrow> (control_plane, string) tx" where
  "draw_uuid pf db = Inr (pf_uuid pf (fresh db), db\<lparr>fresh := Suc (fresh db)\<rparr>)"

text \<open>\<open>randomBytes\<close> in the encoding the caller asks for.\<close>

definition draw_random :: "platform \<Rightarrow> (control_plane, string) tx" where
  "draw_random pf db = Inr (pf_random pf (fresh db), db\<lparr>fresh := Suc (fresh db)\<rparr>)"

definition set_subscriptions :: "(Subscription \<Rightarrow> bool) \<Rightarrow> (Subscription \<Rightarrow> Subscription) \<Rightarrow> (control_plane, unit) tx" where
  "set_subscriptions p f = twrite (\<lambda>db. db\<lparr>subscriptions := tmodify p f (subscriptions db)\<rparr>)"

definition set_bindings :: "(PanelClientBinding \<Rightarrow> bool) \<Rightarrow> (PanelClientBinding \<Rightarrow> PanelClientBinding) \<Rightarrow> (control_plane, unit) tx" where
  "set_bindings p f = twrite (\<lambda>db. db\<lparr>bindings := tmodify p f (bindings db)\<rparr>)"

definition set_snapshots :: "(TrafficSnapshot \<Rightarrow> bool) \<Rightarrow> (TrafficSnapshot \<Rightarrow> TrafficSnapshot) \<Rightarrow> (control_plane, unit) tx" where
  "set_snapshots p f = twrite (\<lambda>db. db\<lparr>snapshots := tmodify p f (snapshots db)\<rparr>)"

definition set_nodes :: "(Node \<Rightarrow> bool) \<Rightarrow> (Node \<Rightarrow> Node) \<Rightarrow> (control_plane, unit) tx" where
  "set_nodes p f = twrite (\<lambda>db. db\<lparr>nodes := tmodify p f (nodes db)\<rparr>)"

definition set_agents :: "(NodeAgent \<Rightarrow> bool) \<Rightarrow> (NodeAgent \<Rightarrow> NodeAgent) \<Rightarrow> (control_plane, unit) tx" where
  "set_agents p f = twrite (\<lambda>db. db\<lparr>agents := tmodify p f (agents db)\<rparr>)"

definition set_batches :: "(NodeUsageBatch \<Rightarrow> bool) \<Rightarrow> (NodeUsageBatch \<Rightarrow> NodeUsageBatch) \<Rightarrow> (control_plane, unit) tx" where
  "set_batches p f = twrite (\<lambda>db. db\<lparr>usage_batches := tmodify p f (usage_batches db)\<rparr>)"

definition set_jobs :: "(NodeCommandJob \<Rightarrow> bool) \<Rightarrow> (NodeCommandJob \<Rightarrow> NodeCommandJob) \<Rightarrow> (control_plane, unit) tx" where
  "set_jobs p f = twrite (\<lambda>db. db\<lparr>command_jobs := tmodify p f (command_jobs db)\<rparr>)"

definition set_leases :: "(LeaseRevocationJob \<Rightarrow> bool) \<Rightarrow> (LeaseRevocationJob \<Rightarrow> LeaseRevocationJob) \<Rightarrow> (control_plane, unit) tx" where
  "set_leases p f = twrite (\<lambda>db. db\<lparr>lease_jobs := tmodify p f (lease_jobs db)\<rparr>)"

definition set_tokens :: "(AgentRegisterToken \<Rightarrow> bool) \<Rightarrow> (AgentRegisterToken \<Rightarrow> AgentRegisterToken) \<Rightarrow> (control_plane, unit) tx" where
  "set_tokens p f = twrite (\<lambda>db. db\<lparr>register_tokens := tmodify p f (register_tokens db)\<rparr>)"

lemmas set_defs = set_tokens_def set_subscriptions_def set_bindings_def set_snapshots_def set_nodes_def
  set_agents_def set_batches_def set_jobs_def set_leases_def

text \<open>Inserting a command job: its id and its key are unique in the table, a clash aborts with \<open>P2002\<close>.\<close>

definition insert_job :: "NodeCommandJob \<Rightarrow> (control_plane, NodeCommandJob) tx" where
  "insert_job job db =
     (if jb_dedupeKey job \<in> jb_dedupeKey ` set (command_jobs db) \<or> jb_id job \<in> jb_id ` set (command_jobs db)
      then Inl (DbError ''P2002'' ''dedupeKey'')
      else Inr (job, db\<lparr>command_jobs := command_jobs db @ [job]\<rparr>))"

text \<open>\<open>events.publish\<close>, \<open>publishSubscriptionUpdated\<close> and \<open>adminEvents.publish\<close>.\<close>

definition publish_command :: "string \<Rightarrow> AgentCommand \<Rightarrow> (control_plane, unit) tx" where
  "publish_command agentId command = twrite (\<lambda>db. db\<lparr>out_commands := out_commands db @ [(agentId, command)]\<rparr>)"

definition publish_transition :: "SubscriptionTransition \<Rightarrow> (control_plane, unit) tx" where
  "publish_transition t = twrite (\<lambda>db. db\<lparr>out_transitions := out_transitions db @ [t]\<rparr>)"

definition publish_admin :: "string \<Rightarrow> (control_plane, unit) tx" where
  "publish_admin nodeId = twrite (\<lambda>db. db\<lparr>out_admin := out_admin db @ [nodeId]\<rparr>)"

section \<open>Which tables a transaction leaves alone\<close>

text \<open>
  \<open>tframe view m\<close>: \<open>m\<close> does not change what \<open>view\<close> sees.  Each table update frames every view
  of the other tables.
\<close>

definition tframe :: "('s \<Rightarrow> 'v) \<Rightarrow> ('s, 'a) tx \<Rightarrow> bool" where
  "tframe view m \<longleftrightarrow> (\<forall>v. tkeeps (\<lambda>s. view s = v) m)"

lemma tframeD: "tframe view m \<Longrightarrow> m s = Inr (a, s') \<Longrightarrow> view s' = view s"
  unfolding tframe_def tkeeps_def by blast

lemma tframeI: "(\<And>s a s'. m s = Inr (a, s') \<Longrightarrow> view s' = view s) \<Longrightarrow> tframe view m"
  unfolding tframe_def tkeeps_def by auto

named_theorems tframe_intros \<open>transactions that leave a view alone\<close>

lemma tframe_basic [tframe_intros]:
  "tframe view (tret a)" "tframe view (tthrow e)" "tframe view (tread f)" "tframe view (tlift r)"
  "tframe view (tfound v e)" "tframe view (tassert b e)"
  by (auto intro!: tframeI)

lemma tframe_tbind [tframe_intros]:
  "tframe view m \<Longrightarrow> (\<And>a. tframe view (f a)) \<Longrightarrow> tframe view (tbind m f)"
  unfolding tframe_def by (blast intro: tkeeps_tbind)

lemma tframe_twhen [tframe_intros]: "(b \<Longrightarrow> tframe view m) \<Longrightarrow> tframe view (twhen b m)"
  by (simp add: twhen_def tframe_basic)

lemma tframe_if [tframe_intros]:
  "(b \<Longrightarrow> tframe view m) \<Longrightarrow> (\<not> b \<Longrightarrow> tframe view n) \<Longrightarrow> tframe view (if b then m else n)"
  by simp

lemma tframe_case_option [tframe_intros]:
  "tframe view m \<Longrightarrow> (\<And>a. v = Some a \<Longrightarrow> tframe view (n a)) \<Longrightarrow> tframe view (case v of None \<Rightarrow> m | Some a \<Rightarrow> n a)"
  by (cases v) simp_all

lemma tframe_case_prod [tframe_intros]:
  "(\<And>a b. tframe view (f a b)) \<Longrightarrow> tframe view (case p of (a, b) \<Rightarrow> f a b)"
  by (cases p) simp

lemma tframe_tfor [tframe_intros]: "(\<And>x. x \<in> set xs \<Longrightarrow> tframe view (f x)) \<Longrightarrow> tframe view (tfor xs f)"
  unfolding tframe_def by (blast intro: tkeeps_tfor)

lemma tframe_tfold [tframe_intros]:
  "(\<And>x c. x \<in> set xs \<Longrightarrow> tframe view (f x c)) \<Longrightarrow> tframe view (tfold f xs c)"
  unfolding tframe_def by (blast intro: tkeeps_tfold)

lemma tframe_twrite: "(\<And>s. view (f s) = view s) \<Longrightarrow> tframe view (twrite f)"
  by (auto intro!: tframeI)

lemma tframe_draw [tframe_intros]: "(\<And>db n. view (db\<lparr>fresh := n\<rparr>) = view db) \<Longrightarrow> tframe view (draw_uuid pf)"
  by (rule tframeI) (auto simp: draw_uuid_def)

lemma tframe_random [tframe_intros]: "(\<And>db n. view (db\<lparr>fresh := n\<rparr>) = view db) \<Longrightarrow> tframe view (draw_random pf)"
  by (rule tframeI) (auto simp: draw_random_def)

lemma tframe_set [tframe_intros]:
  "(\<And>db t. view (db\<lparr>subscriptions := t\<rparr>) = view db) \<Longrightarrow> tframe view (set_subscriptions p f1)"
  "(\<And>db t. view (db\<lparr>bindings := t\<rparr>) = view db) \<Longrightarrow> tframe view (set_bindings q f2)"
  "(\<And>db t. view (db\<lparr>snapshots := t\<rparr>) = view db) \<Longrightarrow> tframe view (set_snapshots r f3)"
  "(\<And>db t. view (db\<lparr>nodes := t\<rparr>) = view db) \<Longrightarrow> tframe view (set_nodes s f4)"
  "(\<And>db t. view (db\<lparr>agents := t\<rparr>) = view db) \<Longrightarrow> tframe view (set_agents t' f5)"
  "(\<And>db t. view (db\<lparr>usage_batches := t\<rparr>) = view db) \<Longrightarrow> tframe view (set_batches u f6)"
  "(\<And>db t. view (db\<lparr>command_jobs := t\<rparr>) = view db) \<Longrightarrow> tframe view (set_jobs v f7)"
  "(\<And>db t. view (db\<lparr>lease_jobs := t\<rparr>) = view db) \<Longrightarrow> tframe view (set_leases w f8)"
  "(\<And>db t. view (db\<lparr>register_tokens := t\<rparr>) = view db) \<Longrightarrow> tframe view (set_tokens x f9)"
  unfolding set_defs by (rule tframe_twrite, simp)+

lemma tframe_insert_job [tframe_intros]:
  "(\<And>db t. view (db\<lparr>command_jobs := t\<rparr>) = view db) \<Longrightarrow> tframe view (insert_job job)"
  by (rule tframeI) (auto simp: insert_job_def split: if_splits)

lemma tframe_publish [tframe_intros]:
  "(\<And>db t. view (db\<lparr>out_commands := t\<rparr>) = view db) \<Longrightarrow> tframe view (publish_command a c)"
  "(\<And>db t. view (db\<lparr>out_transitions := t\<rparr>) = view db) \<Longrightarrow> tframe view (publish_transition s)"
  "(\<And>db t. view (db\<lparr>out_admin := t\<rparr>) = view db) \<Longrightarrow> tframe view (publish_admin n)"
  unfolding publish_command_def publish_transition_def publish_admin_def by (rule tframe_twrite, simp)+

end
