(* ===== verification/TrafficBytes.thy ===== *)
theory TrafficBytes
  imports ControlPlane
begin

text \<open>
  Traffic in bytes and in floating-point gigabytes
  (\<open>apps/api/src/modules/common/traffic-bytes.utils.ts\<close>).  The byte counters are exact; the
  gigabyte columns are their displayed form, and a byte count survives the way through the
  displayed form as long as it is below four pebibytes.
\<close>

section \<open>Number.prototype.toString\<close>

text \<open>
  The decimal expansion \<open>Number.prototype.toString\<close> prints: the shortest one that reads back as
  the number, as a mantissa and a power of ten.  \<open>decimal_exponent\<close> is the \<open>n\<close> of the language's
  definition, \<open>10 ^ (n - 1) \<le> x < 10 ^ n\<close>.  Seventeen digits always suffice; the exact expansion
  stands in the unreachable last case.
\<close>

definition decimal_exponent :: "rat \<Rightarrow> int" where
  "decimal_exponent x =
     (if x \<ge> 1 then int (floorlog 10 (nat (floor x)))
      else 1 - int (floorlog 10 (nat (ceiling (1 / x) - 1))))"

definition decimal_candidate :: "rat \<Rightarrow> nat \<Rightarrow> (int \<times> int) option" where
  "decimal_candidate x k =
     (let e = decimal_exponent x - int k;
          lo = floor (x / 10 powi e);
          hits = filter (\<lambda>s. fl (of_int s * 10 powi e) = x) [lo, lo + 1]
      in case sort_key (\<lambda>s. \<bar>of_int s * 10 powi e - x\<bar>) hits of
           [] \<Rightarrow> None | s # _ \<Rightarrow> Some (s, e))"

definition max_places :: nat where
  "max_places = 1074"

definition number_decimal :: "rat \<Rightarrow> int \<times> int" where
  "number_decimal x = (case List.map_filter (decimal_candidate x) [1..<18] of
     [] \<Rightarrow> (floor (x * 10 ^ max_places), - int max_places) | p # _ \<Rightarrow> p)"

section \<open>Conversions\<close>

definition GB_IN_BYTES :: int where
  "GB_IN_BYTES = 1024 * 1024 * 1024"

text \<open>
  \<open>trafficGbNumberToBytes\<close> splits the printed number at the exponent and the point; the digits
  and the number of decimal places it recovers are the mantissa and the negated power of ten.
\<close>

definition trafficGbNumberToBytes :: "rat \<Rightarrow> int" where
  "trafficGbNumberToBytes value =
     (if value \<le> 0 then 0
      else case number_decimal value of (digits, exponent) \<Rightarrow>
        let decimalPlaces = - exponent; numerator = digits * GB_IN_BYTES in
        if decimalPlaces \<le> 0 then numerator * 10 ^ nat (- decimalPlaces)
        else let denominator = 10 ^ nat decimalPlaces in (numerator + denominator div 2) div denominator)"

definition trafficBytesToGbNumber :: "int \<Rightarrow> (api_error, rat) result" where
  "trafficBytesToGbNumber value =
     (if value \<le> 0 then Inr 0
      else
        let whole = value div GB_IN_BYTES; remainder = value mod GB_IN_BYTES in
        if whole > 2 ^ 53 - 1 then Inl RangeError
        else Inr (fl (fl (of_int whole) + fl (fl (of_int remainder) / fl (of_int GB_IN_BYTES)))))"

section \<open>Rounding error\<close>

lemma bitlen_bounds_rat: "0 < n \<Longrightarrow> 2 powi (bitlen n - 1) \<le> rat_of_int n \<and> rat_of_int n < 2 powi bitlen n"
proof -
  assume n: "0 < n"
  have b: "2 ^ nat (bitlen n - 1) \<le> n" "n < 2 ^ nat (bitlen n)" using bitlen_bounds [OF n] by auto
  have "0 < bitlen n" using n bitlen_nonneg [of n] bitlen_eq_zero_iff [of n] by linarith
  moreover have "rat_of_int (2 ^ nat (bitlen n - 1)) \<le> rat_of_int n" using b(1) by (simp only: of_int_le_iff)
  moreover have "rat_of_int n < rat_of_int (2 ^ nat (bitlen n))" using b(2) by (simp only: of_int_less_iff)
  ultimately show ?thesis by (simp add: power_int_def)
qed

lemma ilog2_bounds: "0 < q \<Longrightarrow> 2 powi ilog2 q \<le> q \<and> q < 2 powi (ilog2 q + 1)"
proof -
  assume q: "0 < q"
  obtain n d where nd: "quotient_of q = (n, d)" by (cases "quotient_of q")
  have d: "0 < d" using quotient_of_denom_pos [OF nd] .
  have eq: "q = of_int n / of_int d" using quotient_of_div [OF nd] .
  have n: "0 < n" using q d eq by (simp add: zero_less_divide_iff)
  define k where "k = bitlen n - bitlen d"
  note bn = bitlen_bounds_rat [OF n] and bd = bitlen_bounds_rat [OF d]
  have "q \<le> of_int n / 2 powi (bitlen d - 1)" unfolding eq using bd n d by (intro divide_left_mono) auto
  also have "\<dots> < 2 powi bitlen n / 2 powi (bitlen d - 1)" using bn by (intro divide_strict_right_mono) auto
  also have "\<dots> = 2 powi (k + 1)" by (simp add: k_def algebra_simps flip: power_int_diff)
  finally have up: "q < 2 powi (k + 1)" .
  have "2 powi (k - 1) = 2 powi (bitlen n - 1) / (2 powi bitlen d :: rat)" by (simp add: k_def algebra_simps flip: power_int_diff)
  also have "\<dots> \<le> of_int n / 2 powi bitlen d" using bn by (intro divide_right_mono) auto
  also have "\<dots> \<le> q" unfolding eq using bd n d by (intro divide_left_mono) auto
  finally have "2 powi (k - 1) \<le> q" .
  with up show ?thesis by (auto simp: ilog2_def nd Let_def simp flip: k_def)
qed

lemma round_half_even_error: "\<bar>of_int (round_half_even q) - q\<bar> \<le> 1 / 2"
proof -
  have "of_int \<lfloor>q\<rfloor> \<le> q" "q < of_int \<lfloor>q\<rfloor> + 1" by linarith+
  then show ?thesis unfolding round_half_even_def Let_def by (simp add: abs_le_iff)
qed

text \<open>A positive number is rounded by at most half of its last place.\<close>

lemma fl_error:
  assumes "0 < q"
  shows "\<bar>fl q - q\<bar> \<le> 2 powi (max (ilog2 q - 52) (- 1074)) / 2"
proof -
  define e where "e = max (ilog2 q - 52) (- 1074)"
  have "fl q = of_int (round_half_even (q / 2 powi e)) * 2 powi e"
    using assms by (simp add: fl_def Let_def e_def)
  then have "fl q - q = (of_int (round_half_even (q / 2 powi e)) - q / 2 powi e) * 2 powi e"
    by (simp add: field_simps)
  then have "\<bar>fl q - q\<bar> = \<bar>of_int (round_half_even (q / 2 powi e)) - q / 2 powi e\<bar> * 2 powi e"
    by (simp add: abs_mult)
  also have "\<dots> \<le> 1 / 2 * 2 powi e" using round_half_even_error by (intro mult_right_mono) auto
  finally show ?thesis by (simp add: e_def)
qed

lemma ilog2_less: "0 < q \<Longrightarrow> q < 2 powi k \<Longrightarrow> ilog2 q < k"
  using ilog2_bounds [of q] power_int_le_imp_le_exp [of 2 k "ilog2 q"] by (meson leI le_less_trans less_irrefl order_trans power_int_increasing one_le_numeral)

text \<open>A number of at most 53 bits after scaling by a power of two is represented exactly.\<close>

lemma fl_dyadic:
  assumes "0 \<le> v" and "v < 2 ^ 53"
  shows "fl (of_int v / 2 ^ 30) = of_int v / 2 ^ 30"
proof (cases "v = 0")
  case True
  then show ?thesis by (simp add: fl_def)
next
  case False
  define q where "q = rat_of_int v / 2 ^ 30"
  define e where "e = max (ilog2 q - 52) (- 1074)"
  have q: "0 < q" using assms False by (simp add: q_def)
  have "rat_of_int v < rat_of_int (2 ^ 53)" using assms(2) by (simp only: of_int_less_iff)
  then have "q < 2 powi 23" by (simp add: q_def field_simps)
  then have "e \<le> - 30" using ilog2_less [OF q, of 23] by (simp add: e_def)
  then have "q / 2 powi e = of_int (v * 2 ^ nat (- 30 - e))"
  proof -
    have "(2::rat) powi (- e) = 2 powi (- 30 - e) * 2 powi 30"
      using power_int_add [of "2::rat" "- 30 - e" 30] by simp
    moreover have "(2::rat) powi (- 30 - e) = 2 ^ nat (- 30 - e)" using \<open>e \<le> - 30\<close> by (simp add: power_int_def)
    moreover have "q / 2 powi e = q * 2 powi (- e)" by (simp add: power_int_minus divide_inverse)
    ultimately show ?thesis by (simp add: q_def)
  qed
  moreover have "fl q = of_int (round_half_even (q / 2 powi e)) * 2 powi e"
    using q by (simp add: fl_def Let_def e_def)
  ultimately have "fl q = q / 2 powi e * 2 powi e" by (metis round_half_even_int)
  then have "fl q = q" by simp
  then show ?thesis unfolding q_def .
qed

section \<open>The way through the displayed form\<close>

lemma fl_whole: "0 \<le> v \<Longrightarrow> v < 2 ^ 53 \<Longrightarrow> fl (of_int v) = of_int v"
  using fl_nat [of "nat v"] by (simp add: nat_less_iff)

lemma bytes_to_gb:
  assumes "0 \<le> v" and "v < 2 ^ 53"
  shows "trafficBytesToGbNumber v = Inr (of_int v / 2 ^ 30)"
proof (cases "v = 0")
  case True
  then show ?thesis by (simp add: trafficBytesToGbNumber_def)
next
  case False
  define w r where "w = v div GB_IN_BYTES" and "r = v mod GB_IN_BYTES"
  have gb: "GB_IN_BYTES = 2 ^ 30" by (simp add: GB_IN_BYTES_def)
  have v: "v = w * GB_IN_BYTES + r" and r: "0 \<le> r" "r < 2 ^ 30" by (simp_all add: w_def r_def gb)
  have w0: "0 \<le> w" unfolding w_def GB_IN_BYTES_def using assms(1) by (intro div_int_pos_iff [THEN iffD2]) auto
  then have "w \<le> v" using v [unfolded GB_IN_BYTES_def] r(1) by simp
  with w0 assms(2) have w: "0 \<le> w" "w < 2 ^ 53" by auto
  have exact: "fl (of_int w) = of_int w" "fl (of_int r) = of_int r" "fl (of_int GB_IN_BYTES) = 2 ^ 30"
  proof -
    show "fl (of_int w) = of_int w" using w by (rule fl_whole)
    show "fl (of_int r) = of_int r" using r by (intro fl_whole) auto
    have "fl (of_int GB_IN_BYTES) = of_int GB_IN_BYTES" by (rule fl_whole) (simp_all add: gb)
    then show "fl (of_int GB_IN_BYTES) = 2 ^ 30" by (simp only: gb) simp
  qed
  have "fl (of_int r / 2 ^ 30) = of_int r / 2 ^ 30" using r by (intro fl_dyadic) auto
  with exact have "fl (of_int w) + fl (fl (of_int r) / fl (of_int GB_IN_BYTES)) = of_int w + of_int r / 2 ^ 30"
    by (simp only: exact)
  also have "\<dots> = of_int v / 2 ^ 30" by (simp add: v gb)
  finally have "fl (fl (of_int w) + fl (fl (of_int r) / fl (of_int GB_IN_BYTES))) = of_int v / 2 ^ 30"
    using fl_dyadic [OF assms] by (simp only:)
  then show ?thesis
    using False assms w by (auto simp: trafficBytesToGbNumber_def Let_def simp flip: w_def r_def)
qed

lemma candidate_hit:
  assumes "decimal_candidate x k = Some (s, e)"
  shows "e = decimal_exponent x - int k \<and> (s = floor (x / 10 powi e) \<or> s = floor (x / 10 powi e) + 1)
    \<and> fl (of_int s * 10 powi e) = x"
proof -
  define e' lo where "e' = decimal_exponent x - int k" and "lo = floor (x / 10 powi e')"
  define hits where "hits = filter (\<lambda>s. fl (of_int s * 10 powi e') = x) [lo, lo + 1]"
  obtain rest where srt: "sort_key (\<lambda>s. \<bar>of_int s * 10 powi e' - x\<bar>) hits = s # rest" and e: "e = e'"
    using assms by (auto simp: decimal_candidate_def Let_def e'_def lo_def hits_def split: list.splits)
  have "s \<in> set hits" using srt set_sort [of "\<lambda>s. \<bar>of_int s * 10 powi e' - x\<bar>" hits] by (metis list.set_intros(1))
  then show ?thesis by (auto simp: hits_def e e'_def lo_def split: if_splits)
qed

lemma candidate_reads_back: "decimal_candidate x k = Some (s, e) \<Longrightarrow> fl (of_int s * 10 powi e) = x"
  using candidate_hit by blast

lemma decimal_reads_back:
  assumes "number_decimal x = (s, e)" and "fl x = x" and "x * 10 ^ max_places = of_int (floor (x * 10 ^ max_places))"
  shows "fl (of_int s * 10 powi e) = x"
proof (cases "List.map_filter (decimal_candidate x) [1..<18]")
  case Nil
  then have "s = floor (x * 10 ^ max_places)" "e = - int max_places" using assms(1) by (auto simp: number_decimal_def)
  moreover have "of_int (floor (x * 10 ^ max_places)) * 10 powi (- int max_places) = x"
    unfolding assms(3) [symmetric] by (simp add: power_int_minus)
  ultimately show ?thesis using assms(2) by simp
next
  case (Cons p ps)
  then have "p \<in> set (List.map_filter (decimal_candidate x) [1..<18])" by simp
  then obtain k where "decimal_candidate x k = Some p" by (auto simp: List.map_filter_def)
  moreover have "p = (s, e)" using assms(1) Cons by (simp add: number_decimal_def)
  ultimately show ?thesis using candidate_reads_back by simp
qed

text \<open>Rounding half up, as the integer division of the code does it.\<close>

lemma gb_to_bytes:
  assumes "0 < x" and "number_decimal x = (s, e)"
  shows "trafficGbNumberToBytes x = floor (of_int s * 10 powi e * 2 ^ 30 + (1 / 2 :: rat))"
proof -
  have gb: "GB_IN_BYTES = 2 ^ 30" by (simp add: GB_IN_BYTES_def)
  show ?thesis
  proof (cases "e \<ge> 0")
    case True
    then have "of_int s * 10 powi e * 2 ^ 30 = rat_of_int (s * 2 ^ 30 * 10 ^ nat e)" by (simp add: power_int_def)
    moreover have "floor (rat_of_int i + 1 / 2) = i" for i by linarith
    ultimately have "floor (of_int s * 10 powi e * 2 ^ 30 + (1 / 2 :: rat)) = s * 2 ^ 30 * 10 ^ nat e" by (simp only:)
    with True assms show ?thesis by (simp add: trafficGbNumberToBytes_def gb)
  next
    case False
    define d where "d = nat (- e)"
    have d: "0 < d" "e = - int d" using False by (auto simp: d_def)
    then have half: "2 * (10 ^ d div 2) = (10 ^ d :: int)" by (cases d) auto
    then have half': "rat_of_int (10 ^ d div 2) = 10 ^ d / 2"
      by (metis nonzero_mult_div_cancel_left of_int_mult of_int_numeral of_int_power zero_neq_numeral)
    have "of_int s * 10 powi e * 2 ^ 30 + (1 / 2 :: rat) = rat_of_int (s * 2 ^ 30 + 10 ^ d div 2) / rat_of_int (10 ^ d)"
      by (simp add: d(2) power_int_minus half' field_simps)
    then show ?thesis
      using False assms d floor_divide_of_int_eq [of "s * 2 ^ 30 + 10 ^ d div 2" "10 ^ d", where ?'a = rat]
      by (simp add: trafficGbNumberToBytes_def gb Let_def)
  qed
qed

lemma number_decimal_nonneg:
  assumes "0 < x"
  shows "0 \<le> fst (number_decimal x)"
proof (cases "List.map_filter (decimal_candidate x) [1..<18]")
  case Nil
  then show ?thesis using assms by (simp add: number_decimal_def)
next
  case (Cons p ps)
  then have "p \<in> set (List.map_filter (decimal_candidate x) [1..<18])" by simp
  then obtain k where "decimal_candidate x k = Some (fst p, snd p)" by (auto simp: List.map_filter_def)
  then have "fst p = floor (x / 10 powi snd p) \<or> fst p = floor (x / 10 powi snd p) + 1" using candidate_hit by blast
  moreover have "0 \<le> floor (x / 10 powi snd p)" using assms by simp
  ultimately show ?thesis using Cons by (auto simp: number_decimal_def)
qed

lemma gb_bytes_nonneg: "0 \<le> trafficGbNumberToBytes v"
proof (cases "v \<le> 0")
  case False
  obtain s e where d: "number_decimal v = (s, e)" by (cases "number_decimal v")
  with False number_decimal_nonneg [of v] have "0 \<le> rat_of_int s * 10 powi e" by simp
  then have "0 \<le> rat_of_int s * 10 powi e * 2 ^ 30 + 1 / 2" by simp
  with False gb_to_bytes [OF _ d] show ?thesis by (simp only: zero_le_floor)
qed (simp add: trafficGbNumberToBytes_def)

lemma integral_places: "x * 10 ^ max_places = of_int (floor (x * 10 ^ max_places))" if "x = of_int v / 2 ^ 30" for x :: rat
proof -
  have "x * 10 ^ max_places = of_int (v * 5 ^ 30 * 10 ^ (max_places - 30))"
  proof -
    have "max_places = 30 + (max_places - 30)" by (simp add: max_places_def)
    then have "(10 :: rat) ^ max_places = 10 ^ 30 * 10 ^ (max_places - 30)" by (metis power_add)
    then show ?thesis using that by simp
  qed
  then show ?thesis by (metis floor_of_int)
qed

text \<open>Below \<open>2 ^ 22\<close> gigabytes a number that rounds to \<open>x\<close> is within a quarter of a byte of it.\<close>

lemma reads_back_close:
  assumes "fl d = x" and "0 < x" and "x < 2 powi 22" and "0 < d"
  shows "\<bar>d - x\<bar> * 2 ^ 30 \<le> 1 / 4"
proof -
  have "d < 2 powi 22"
  proof (rule ccontr)
    assume big: "\<not> d < 2 powi 22"
    note b = ilog2_bounds [OF assms(4)]
    have "22 \<le> ilog2 d"
    proof (rule ccontr)
      assume "\<not> 22 \<le> ilog2 d"
      then have "(2::rat) powi (ilog2 d + 1) \<le> 2 powi 22" by (intro power_int_increasing) auto
      with b big show False by linarith
    qed
    have "\<bar>fl d - d\<bar> \<le> 2 powi (ilog2 d - 52) / 2"
      using fl_error [OF assms(4)] \<open>22 \<le> ilog2 d\<close> by (simp add: max_def)
    define m where "m = round_half_even (d / 2 powi (ilog2 d - 52))"
    have fl: "fl d = of_int m * 2 powi (ilog2 d - 52)"
      using assms(4) \<open>22 \<le> ilog2 d\<close> by (simp add: fl_def Let_def m_def max_def)
    have "(2::rat) powi 52 \<le> d / 2 powi (ilog2 d - 52)"
      using b power_int_add [of "2::rat" 52 "ilog2 d - 52"] by (simp add: pos_le_divide_eq)
    then have "2 ^ 52 \<le> m" unfolding m_def round_half_even_def Let_def by (auto simp: le_floor_iff)
    then have "(2::rat) ^ 52 * 2 powi (ilog2 d - 52) \<le> fl d"
      unfolding fl by (intro mult_right_mono) (metis of_int_le_iff of_int_numeral of_int_power, simp)
    moreover have "(2::rat) ^ 52 * 2 powi (ilog2 d - 52) = 2 powi ilog2 d"
      using power_int_add [of "2::rat" 52 "ilog2 d - 52"] by simp
    moreover have "(2::rat) powi 22 \<le> 2 powi ilog2 d" using \<open>22 \<le> ilog2 d\<close> by (intro power_int_increasing) auto
    ultimately show False using assms(1,3) by linarith
  qed
  then have "ilog2 d \<le> 21" using ilog2_less [OF assms(4), of 22] by simp
  then have "(2::rat) powi (max (ilog2 d - 52) (- 1074)) \<le> 2 powi (- 31)" by (intro power_int_increasing) auto
  with fl_error [OF assms(4)] have "\<bar>fl d - d\<bar> \<le> 2 powi (- 31) / 2" by linarith
  then have "\<bar>d - x\<bar> \<le> 2 powi (- 31) / 2" using assms(1) by (simp add: abs_minus_commute)
  then have "\<bar>d - x\<bar> * 2 ^ 30 \<le> 2 powi (- 31) / 2 * 2 ^ 30" by (rule mult_right_mono) simp
  then show ?thesis by (simp add: power_int_minus)
qed

lemma floor_close: "\<bar>y - of_int v\<bar> \<le> 1 / 4 \<Longrightarrow> floor (y + (1 / 2 :: rat)) = v"
  by (rule floor_unique) linarith+

lemma number_decimal_positive:
  assumes "fl (of_int s * 10 powi e) = x" and "0 < x"
  shows "0 < of_int s * (10 :: rat) powi e"
proof (rule ccontr)
  assume "\<not> ?thesis"
  then have "fl (of_int s * 10 powi e) \<le> 0"
    by (auto simp: fl_def Let_def mult_le_0_iff round_half_even_def zero_le_mult_iff)
  with assms show False by simp
qed

section \<open>Properties\<close>

text \<open>
  A byte count below four pebibytes is shown in gigabytes without an error, and reading the
  shown number back gives the byte count again.
\<close>

theorem traffic_bytes_roundtrip:
  assumes "0 \<le> v" and "v < 2 ^ 52"
  shows "\<exists>gb. trafficBytesToGbNumber v = Inr gb \<and> gb = of_int v / 2 ^ 30 \<and> trafficGbNumberToBytes gb = v"
proof (cases "v = 0")
  case True
  then show ?thesis by (simp add: trafficBytesToGbNumber_def trafficGbNumberToBytes_def)
next
  case False
  define x where "x = rat_of_int v / 2 ^ 30"
  have v53: "v < 2 ^ 53" using assms(2) by simp
  have x: "0 < x" using assms False by (simp add: x_def)
  have "rat_of_int v < rat_of_int (2 ^ 52)" using assms(2) by (simp only: of_int_less_iff)
  then have x22: "x < 2 powi 22" by (simp add: x_def field_simps)
  obtain s e where d: "number_decimal x = (s, e)" by (cases "number_decimal x")
  have rb: "fl (of_int s * 10 powi e) = x"
    using decimal_reads_back [OF d _ integral_places [OF x_def]] fl_dyadic [OF assms(1) v53] by (simp only: x_def)
  have "\<bar>of_int s * 10 powi e - x\<bar> * 2 ^ 30 \<le> 1 / 4"
    by (rule reads_back_close [OF rb x x22 number_decimal_positive [OF rb x]])
  then have "\<bar>of_int s * 10 powi e * 2 ^ 30 - rat_of_int v\<bar> \<le> 1 / 4"
    by (simp add: x_def abs_le_iff field_simps)
  then have "floor (of_int s * 10 powi e * 2 ^ 30 + (1 / 2 :: rat)) = v" by (rule floor_close)
  then have "trafficGbNumberToBytes x = v" using gb_to_bytes [OF x d] by (simp only:)
  with bytes_to_gb [OF assms(1) v53] show ?thesis by (simp only: x_def) blast
qed

theorem traffic_bytes_roundtrip_witness:
  "\<exists>gb. trafficBytesToGbNumber 123456789 = Inr gb \<and> trafficGbNumberToBytes gb = 123456789"
  using traffic_bytes_roundtrip [of 123456789] by auto

end
