(* ===== verification/CommandJobs.thy ===== *)
theory CommandJobs
  imports TrafficBytes
begin

text \<open>
  The queues the control plane keeps for its agents: which exhausted commands a newer command
  settles (\<open>common/node-command-job.utils.ts\<close>) and how a lease revocation is queued or refreshed
  (\<open>common/lease-revocation-job.utils.ts\<close>).
\<close>

section \<open>What a newer command settles\<close>

definition MOOTED_BY :: "(command_type \<times> command_type list) list" where
  "MOOTED_BY = [(DISABLE_USER, [ENSURE_USER, ENABLE_USER, REFRESH_QUOTA])]"

text \<open>\<open>None\<close> stands for every type.\<close>

definition bindingCommandTypesResolvedBy :: "command_type \<Rightarrow> command_type list option" where
  "bindingCommandTypesResolvedBy t =
     (if t = REMOVE_USER then None
      else Some (t # (case map_of MOOTED_BY t of None \<Rightarrow> [] | Some ts \<Rightarrow> ts)))"

definition bindingCommandTypesSuperseding :: "command_type \<Rightarrow> command_type list" where
  "bindingCommandTypesSuperseding t =
     [t, REMOVE_USER] @ map fst (filter (\<lambda>(_, mooted). t \<in> set mooted) MOOTED_BY)"

definition resolved_type :: "command_type \<Rightarrow> command_type \<Rightarrow> bool" where
  "resolved_type t earlier = (case bindingCommandTypesResolvedBy t of
     None \<Rightarrow> True | Some ts \<Rightarrow> earlier \<in> set ts)"

text \<open>The rows a scope covers: its binding's, or else all of its node and type.\<close>

definition resolve_where :: "string option \<Rightarrow> string \<Rightarrow> command_type \<Rightarrow> NodeCommandJob \<Rightarrow> bool" where
  "resolve_where bindingId nodeId t job =
     (jb_status job = Job_cancelled \<and> jb_resolvedAt job = None \<and>
      (case bindingId of
         Some b \<Rightarrow> jb_bindingId job = Some b \<and> resolved_type t (jb_commandType job)
       | None \<Rightarrow> jb_nodeId job = nodeId \<and> jb_commandType job = t))"

definition resolveExhaustedCommands ::
  "platform \<Rightarrow> string option \<Rightarrow> string \<Rightarrow> command_type \<Rightarrow> (control_plane, unit) tx" where
  "resolveExhaustedCommands pf bindingId nodeId t =
     set_jobs (resolve_where bindingId nodeId t) (\<lambda>job. job\<lparr>jb_resolvedAt := Some (pf_now pf)\<rparr>)"

definition createOrRefreshNodeCommandJob ::
  "platform \<Rightarrow> NodeCommandJob \<Rightarrow> (NodeCommandJob \<Rightarrow> NodeCommandJob) \<Rightarrow> (control_plane, unit) tx" where
  "createOrRefreshNodeCommandJob pf job update =
     tbind (resolveExhaustedCommands pf (jb_bindingId job) (jb_nodeId job) (jb_commandType job)) (\<lambda>_.
     tbind (tread (\<lambda>db. tfind jb_dedupeKey (jb_dedupeKey job) (command_jobs db))) (\<lambda>existing.
     case existing of
       Some _ \<Rightarrow> set_jobs (\<lambda>j. jb_dedupeKey j = jb_dedupeKey job) update
     | None \<Rightarrow> tbind (insert_job job) (\<lambda>_. tret ())))"

definition hasUserTargeting :: "json_object \<Rightarrow> bool" where
  "hasUserTargeting payload = list_ex (\<lambda>key. case map_of payload key of
       Some (JStr s) \<Rightarrow> s \<noteq> [] | _ \<Rightarrow> False) [''bindingId'', ''userKey'', ''email'', ''uuid'']"

section \<open>Lease revocations\<close>

text \<open>
  A running revocation is left alone, any other is refreshed, and a missing one is created; the
  unique key makes the creation beside a running one a no-op.
\<close>

definition createOrRefreshLeaseRevocationJob ::
  "LeaseRevocationJob \<Rightarrow> (LeaseRevocationJob \<Rightarrow> LeaseRevocationJob) \<Rightarrow> (control_plane, unit) tx" where
  "createOrRefreshLeaseRevocationJob job update =
     (let idle = (\<lambda>j. lj_dedupeKey j = lj_dedupeKey job \<and> lj_status j \<noteq> ''running'') in
      tbind (tread (\<lambda>db. list_ex idle (lease_jobs db))) (\<lambda>refreshable.
      if refreshable then set_leases idle update
      else tbind (tread (\<lambda>db. lj_dedupeKey job \<in> lj_dedupeKey ` set (lease_jobs db))) (\<lambda>taken.
        if taken then tret ()
        else twrite (\<lambda>db. db\<lparr>lease_jobs := lease_jobs db @ [job]\<rparr>))))"

section \<open>Keys are unique\<close>

definition jobs_wf :: "control_plane \<Rightarrow> bool" where
  "jobs_wf db \<longleftrightarrow> distinct (map jb_dedupeKey (command_jobs db)) \<and> distinct (map jb_id (command_jobs db))
     \<and> distinct (map lj_dedupeKey (lease_jobs db))"

lemma jobs_wf_set_jobs:
  "(\<And>j. p j \<Longrightarrow> jb_dedupeKey (f j) = jb_dedupeKey j \<and> jb_id (f j) = jb_id j) \<Longrightarrow> tkeeps jobs_wf (set_jobs p f)"
  by (auto simp: jobs_wf_def set_jobs_def map_key_tmodify intro!: tkeeps_twrite)

lemma jobs_wf_insert [tkeeps_intros]: "tkeeps jobs_wf (insert_job job)"
  by (rule tkeepsI) (auto simp: insert_job_def jobs_wf_def split: if_splits)

lemma jobs_wf_resolve [tkeeps_intros]: "tkeeps jobs_wf (resolveExhaustedCommands pf b n t)"
  unfolding resolveExhaustedCommands_def by (rule jobs_wf_set_jobs) simp

lemma jobs_wf_draw [tkeeps_intros]: "tkeeps jobs_wf (draw_uuid pf)"
  by (rule tkeepsI) (auto simp: draw_uuid_def jobs_wf_def)

lemma jobs_wf_set_leases: "(\<And>j. p j \<Longrightarrow> lj_dedupeKey (f j) = lj_dedupeKey j) \<Longrightarrow> tkeeps jobs_wf (set_leases p f)"
  by (auto simp: jobs_wf_def set_leases_def map_key_tmodify intro!: tkeeps_twrite)

lemma jobs_wf_lease [tkeeps_intros]:
  assumes "\<And>j. lj_dedupeKey j = lj_dedupeKey job \<Longrightarrow> lj_dedupeKey (update j) = lj_dedupeKey job"
  shows "tkeeps jobs_wf (createOrRefreshLeaseRevocationJob job update)"
proof (rule tkeepsI)
  fix db u db' assume wf: "jobs_wf db" and run: "createOrRefreshLeaseRevocationJob job update db = Inr (u, db')"
  let ?idle = "\<lambda>j. lj_dedupeKey j = lj_dedupeKey job \<and> lj_status j \<noteq> ''running''"
  show "jobs_wf db'"
  proof (cases "list_ex ?idle (lease_jobs db)")
    case True
    then have "set_leases ?idle update db = Inr (u, db')"
      using run by (auto simp: createOrRefreshLeaseRevocationJob_def Let_def tx_simps)
    moreover have "tkeeps jobs_wf (set_leases ?idle update)" using assms by (intro jobs_wf_set_leases) simp
    ultimately show ?thesis using wf by (blast dest: tkeepsD)
  next
    case False
    then show ?thesis using run wf
      by (auto simp: createOrRefreshLeaseRevocationJob_def Let_def tx_simps jobs_wf_def split: if_splits)
  qed
qed

lemma jobs_wf_frame: "tframe command_jobs m \<Longrightarrow> tframe lease_jobs m \<Longrightarrow> tkeeps jobs_wf m"
  unfolding tkeeps_def jobs_wf_def by (metis tframeD)

section \<open>Properties\<close>

text \<open>
  The table used when a command is queued and the table used when an exhausted command is
  swept agree: a newer command supersedes an exhausted one of its binding exactly when queueing
  it resolves that one.
\<close>

theorem supersession_tables_agree:
  "t \<in> set (bindingCommandTypesSuperseding earlier) \<longleftrightarrow>
     (bindingCommandTypesResolvedBy t = None \<or> (\<exists>ts. bindingCommandTypesResolvedBy t = Some ts \<and> earlier \<in> set ts))"
  by (cases t; cases earlier)
    (simp_all add: bindingCommandTypesSuperseding_def bindingCommandTypesResolvedBy_def MOOTED_BY_def)

end
