(* ===== verification/DirectMetering.thy ===== *)
theory DirectMetering
  imports CommandJobs
begin

text \<open>
  Accounting of an agent's usage batch (\<open>agent/agent-direct-metering.ts\<close>): the bytes each
  binding used since its last snapshot are charged to its subscription, and a subscription that
  stops being active has all its direct bindings disabled, on every node.
\<close>

section \<open>Reading a batch\<close>

definition buildSnapshotKey :: "string \<Rightarrow> string \<Rightarrow> string option \<Rightarrow> string" where
  "buildSnapshotKey nodeId subscriptionId userId =
     nodeId @ '':'' @ subscriptionId @ '':'' @ (case userId of None \<Rightarrow> ''subscription'' | Some u \<Rightarrow> u)"

definition parseUsageBigInt :: "string \<Rightarrow> string \<Rightarrow> (api_error, int) result" where
  "parseUsageBigInt value field =
     (if decimal_pattern value then Inr (int (dec_val value)) else Inl (BadRequest field))"

fun parse_watermark_items :: "json list \<Rightarrow> (string \<times> int) list option" where
  "parse_watermark_items [] = Some []"
| "parse_watermark_items (JObj ms # items) =
     (case (map_of ms ''bootId'', map_of ms ''sequenceThrough'') of
        (Some (JStr boot), Some (JStr n)) \<Rightarrow>
          if decimal_pattern n
          then map_option (\<lambda>ws. (boot, int (dec_val n)) # ws) (parse_watermark_items items) else None
      | _ \<Rightarrow> None)"
| "parse_watermark_items (_ # items) = None"

definition parseDisableWatermarks :: "json option \<Rightarrow> (string \<times> int) list option" where
  "parseDisableWatermarks v = (case v of Some (JArr items) \<Rightarrow> parse_watermark_items items | _ \<Rightarrow> None)"

text \<open>One sample with its binding, the binding's subscription and the parsed counters.\<close>

record entry =
  en_sample :: UsageSample
  en_binding :: PanelClientBinding
  en_subscription :: Subscription
  en_key :: string
  en_uplinkBytes :: int
  en_downlinkBytes :: int

text \<open>
  A binding that was disabled still accounts the batches up to the watermark its agent reported,
  and everything while the agent has not reported one; later samples are dropped.
\<close>

definition prepare_sample ::
  "control_plane \<Rightarrow> string \<Rightarrow> string \<Rightarrow> int \<Rightarrow> UsageSample \<Rightarrow> (api_error, entry option) result" where
  "prepare_sample db nodeId bootId sequence sample =
     (let invalid = ConflictError (us_bindingId sample) in
      case tfind pb_id (us_bindingId sample) (bindings db) of
        None \<Rightarrow> Inl invalid
      | Some binding \<Rightarrow>
          if pb_nodeId binding \<noteq> nodeId \<or> pb_source binding \<noteq> Direct then Inl invalid
          else
            rbind
              (if pb_status binding = ''disabled'' \<or> pb_status binding = ''deleted''
               then Inr (case parseDisableWatermarks (pb_directDisableWatermarks binding) of
                   None \<Rightarrow> True
                 | Some ws \<Rightarrow> list_ex (\<lambda>(boot, through). boot = bootId \<and> sequence \<le> through) ws)
               else if pb_status binding \<noteq> ''active'' then Inl invalid else Inr True) (\<lambda>counted.
            if \<not> counted then Inr None
            else
              rbind (require_some (tfind sub_id (pb_subscriptionId binding) (subscriptions db))
                       (DbError ''P2025'' ''subscription'')) (\<lambda>subscription.
              rbind (parseUsageBigInt (us_uplinkBytes sample) ''uplinkBytes'') (\<lambda>up.
              rbind (parseUsageBigInt (us_downlinkBytes sample) ''downlinkBytes'') (\<lambda>down.
              Inr (Some \<lparr>en_sample = sample, en_binding = binding, en_subscription = subscription,
                en_key = buildSnapshotKey nodeId (pb_subscriptionId binding) (pb_userId binding),
                en_uplinkBytes = up, en_downlinkBytes = down\<rparr>))))))"

definition prepare_samples ::
  "control_plane \<Rightarrow> string \<Rightarrow> string \<Rightarrow> int \<Rightarrow> UsageSample list \<Rightarrow> (api_error, entry list) result" where
  "prepare_samples db nodeId bootId sequence samples =
     rbind (mapR (prepare_sample db nodeId bootId sequence) samples) (\<lambda>es. Inr (List.map_filter id es))"

section \<open>Deltas\<close>

definition entry_delta :: "TrafficSnapshot option \<Rightarrow> entry \<Rightarrow> (api_error, int) result" where
  "entry_delta snapshot e = (case snapshot of
       None \<Rightarrow> Inr 0
     | Some s \<Rightarrow>
         if ts_counterGeneration s = us_counterGeneration (en_sample e)
         then if en_uplinkBytes e < ts_uplinkBytes s \<or> en_downlinkBytes e < ts_downlinkBytes s
              then Inl (ConflictError (pb_panelClientEmail (en_binding e)))
              else Inr (en_uplinkBytes e - ts_uplinkBytes s + (en_downlinkBytes e - ts_downlinkBytes s))
         else Inr (en_uplinkBytes e + en_downlinkBytes e))"

definition entry_unchanged :: "TrafficSnapshot option \<Rightarrow> entry \<Rightarrow> bool" where
  "entry_unchanged snapshot e = (case snapshot of
       None \<Rightarrow> False
     | Some s \<Rightarrow> ts_counterGeneration s = us_counterGeneration (en_sample e)
         \<and> ts_uplinkBytes s = en_uplinkBytes e \<and> ts_downlinkBytes s = en_downlinkBytes e
         \<and> pb_lastUplinkBytes (en_binding e) = en_uplinkBytes e
         \<and> pb_lastDownlinkBytes (en_binding e) = en_downlinkBytes e)"

text \<open>What the loop over the entries collects.\<close>

record tally =
  ta_unchanged :: "entry list"
  ta_changed :: "entry list"
  ta_deltas :: "(string \<times> entry \<times> int) list"
  ta_ledger :: "TrafficLedger list"

definition add_delta :: "entry \<Rightarrow> int \<Rightarrow> (string \<times> entry \<times> int) list \<Rightarrow> (string \<times> entry \<times> int) list" where
  "add_delta e delta deltas =
     (let sid = pb_subscriptionId (en_binding e) in
      case map_of deltas sid of
        None \<Rightarrow> mput sid (e, delta) deltas
      | Some (first, d) \<Rightarrow> mput sid (first, d + delta) deltas)"

definition tally_entry ::
  "platform \<Rightarrow> string \<Rightarrow> int \<Rightarrow> TrafficSnapshot list \<Rightarrow> entry \<Rightarrow> tally \<Rightarrow> (control_plane, tally) tx" where
  "tally_entry pf nodeId sampledAt snaps e acc =
     (let snapshot = tfind ts_snapshotKey (en_key e) snaps in
      tbind (tlift (entry_delta snapshot e)) (\<lambda>delta.
      let acc = (if entry_unchanged snapshot e then acc\<lparr>ta_unchanged := ta_unchanged acc @ [e]\<rparr>
                 else acc\<lparr>ta_changed := ta_changed acc @ [e]\<rparr>)
      in if delta \<le> 0 then tret acc
         else
           let acc = acc\<lparr>ta_deltas := add_delta e delta (ta_deltas acc)\<rparr> in
           case (pb_teamId (en_binding e), pb_userId (en_binding e)) of
             (Some team, Some user) \<Rightarrow>
               if team = [] \<or> user = [] then tret acc
               else
                 tbind (draw_uuid pf) (\<lambda>u.
                 tbind (tlift (trafficBytesToGbNumber delta)) (\<lambda>gb.
                 tret (acc\<lparr>ta_ledger := ta_ledger acc @ [\<lparr>tl_id = u, tl_teamId = team, tl_userId = user,
                   tl_subscriptionId = pb_subscriptionId (en_binding e), tl_nodeId = nodeId,
                   tl_usedTrafficBytes = delta, tl_usedTrafficGb = gb, tl_recordedAt = sampledAt\<rparr>]\<rparr>)))
           | _ \<Rightarrow> tret acc))"

section \<open>Writing the readings\<close>

definition write_unchanged :: "int \<Rightarrow> entry list \<Rightarrow> (control_plane, unit) tx" where
  "write_unchanged sampledAt es =
     tbind (set_snapshots (\<lambda>s. ts_snapshotKey s \<in> en_key ` set es) (\<lambda>s. s\<lparr>ts_sampledAt := sampledAt\<rparr>)) (\<lambda>_.
     set_bindings (\<lambda>b. pb_id b \<in> (\<lambda>e. pb_id (en_binding e)) ` set es) (\<lambda>b. b\<lparr>pb_lastSyncedAt := Some sampledAt\<rparr>))"

definition upsert_snapshot :: "platform \<Rightarrow> string \<Rightarrow> int \<Rightarrow> entry \<Rightarrow> (control_plane, unit) tx" where
  "upsert_snapshot pf nodeId sampledAt e =
     tbind (draw_uuid pf) (\<lambda>u.
     tbind (tread (\<lambda>db. en_key e \<in> ts_snapshotKey ` set (snapshots db))) (\<lambda>exists.
     if exists
     then set_snapshots (\<lambda>s. ts_snapshotKey s = en_key e)
            (\<lambda>s. s\<lparr>ts_uplinkBytes := en_uplinkBytes e, ts_downlinkBytes := en_downlinkBytes e,
                   ts_totalBytes := en_uplinkBytes e + en_downlinkBytes e, ts_sampledAt := sampledAt,
                   ts_source := Direct, ts_counterGeneration := us_counterGeneration (en_sample e)\<rparr>)
     else twrite (\<lambda>db. db\<lparr>snapshots := snapshots db @
            [\<lparr>ts_id = u, ts_snapshotKey = en_key e, ts_nodeId = nodeId,
              ts_subscriptionId = pb_subscriptionId (en_binding e), ts_userId = pb_userId (en_binding e),
              ts_teamId = pb_teamId (en_binding e), ts_uplinkBytes = en_uplinkBytes e,
              ts_downlinkBytes = en_downlinkBytes e, ts_totalBytes = en_uplinkBytes e + en_downlinkBytes e,
              ts_source = Direct, ts_counterGeneration = us_counterGeneration (en_sample e),
              ts_sampledAt = sampledAt\<rparr>]\<rparr>)))"

definition write_changed :: "platform \<Rightarrow> string \<Rightarrow> int \<Rightarrow> entry \<Rightarrow> (control_plane, unit) tx" where
  "write_changed pf nodeId sampledAt e =
     tbind (upsert_snapshot pf nodeId sampledAt e) (\<lambda>_.
     set_bindings (\<lambda>b. pb_id b = pb_id (en_binding e))
       (\<lambda>b. b\<lparr>pb_lastUplinkBytes := en_uplinkBytes e, pb_lastDownlinkBytes := en_downlinkBytes e,
              pb_lastSyncedAt := Some sampledAt\<rparr>))"

section \<open>Charging subscriptions\<close>

definition total_bytes :: "Subscription \<Rightarrow> int" where
  "total_bytes s = (if sub_totalTrafficBytes s > 0 then sub_totalTrafficBytes s
     else trafficGbNumberToBytes (sub_totalTrafficGb s))"

definition used_bytes :: "Subscription \<Rightarrow> int" where
  "used_bytes s = (if sub_usedTrafficBytes s > 0 then sub_usedTrafficBytes s
     else trafficGbNumberToBytes (sub_usedTrafficGb s))"

definition next_state :: "Subscription \<Rightarrow> int \<Rightarrow> int \<Rightarrow> sub_state" where
  "next_state s remainingBytes sampledAt =
     (if sub_state s \<noteq> Sub_active then sub_state s
      else if sub_expireAt s \<le> sampledAt then Sub_expired
      else if remainingBytes = 0 then Sub_exhausted else Sub_active)"

record charge_acc =
  ch_transitions :: "SubscriptionTransition list"
  ch_disabled :: "(string \<times> sub_state) list"

definition charge_subscription ::
  "int \<Rightarrow> string \<times> entry \<times> int \<Rightarrow> charge_acc \<Rightarrow> (control_plane, charge_acc) tx" where
  "charge_subscription sampledAt usage acc = (case usage of (sid, e, delta) \<Rightarrow>
     let s = en_subscription e;
         total = total_bytes s;
         nextUsed = used_bytes s + delta;
         remaining = (if total > nextUsed then total - nextUsed else 0);
         state = next_state s remaining sampledAt
     in tbind (tlift (trafficBytesToGbNumber nextUsed)) (\<lambda>usedGb.
        tbind (tlift (trafficBytesToGbNumber remaining)) (\<lambda>remainingGb.
        tbind (set_subscriptions (\<lambda>s. sub_id s = sid)
          (\<lambda>s. s\<lparr>sub_totalTrafficBytes := total, sub_usedTrafficBytes := nextUsed, sub_usedTrafficGb := usedGb,
                 sub_remainingTrafficGb := remainingGb, sub_state := state, sub_lastSyncedAt := sampledAt\<rparr>)) (\<lambda>_.
        tret \<lparr>ch_transitions = (if sub_state s \<noteq> state
                 then ch_transitions acc @ [\<lparr>tr_subscriptionId = sid, tr_userId = pb_userId (en_binding e),
                        tr_teamId = pb_teamId (en_binding e), tr_state = state\<rparr>]
                 else ch_transitions acc),
              ch_disabled = (if state \<noteq> Sub_active then mput sid state (ch_disabled acc) else ch_disabled acc)\<rparr>))))"

section \<open>Disabling bindings\<close>

text \<open>\<open>orderBy: [{ lastSeenAt: "desc" }, { createdAt: "desc" }]\<close>; a descending order puts an
  agent that was never seen first.\<close>

definition agent_order :: "NodeAgent \<Rightarrow> int \<times> int \<times> int" where
  "agent_order a = (case na_lastSeenAt a of None \<Rightarrow> (0, 0, - na_createdAt a) | Some t \<Rightarrow> (1, - t, - na_createdAt a))"

definition newest_agents :: "(NodeAgent \<Rightarrow> bool) \<Rightarrow> NodeAgent list \<Rightarrow> NodeAgent list" where
  "newest_agents p rows = sort_key agent_order (filter (\<lambda>a. p a \<and> na_revokedAt a = None) rows)"

definition agent_for_node :: "control_plane \<Rightarrow> string \<Rightarrow> string \<Rightarrow> string \<Rightarrow> string option" where
  "agent_for_node db currentNodeId currentAgentId nodeId =
     (if nodeId = currentNodeId then Some currentAgentId
      else case newest_agents (\<lambda>a. na_nodeId a = nodeId) (agents db) of [] \<Rightarrow> None | a # _ \<Rightarrow> Some (na_id a))"

definition group_by_node :: "PanelClientBinding list \<Rightarrow> (string \<times> PanelClientBinding list) list" where
  "group_by_node rows = foldl (\<lambda>groups b.
     mput (pb_nodeId b) ((case map_of groups (pb_nodeId b) of None \<Rightarrow> [] | Some g \<Rightarrow> g) @ [b]) groups) [] rows"

text \<open>\<open>tx.node.update\<close> with an increment; the new revision is returned.\<close>

definition bump_revision :: "string \<Rightarrow> (Node \<Rightarrow> Node) \<Rightarrow> (control_plane, int) tx" where
  "bump_revision nodeId f =
     tbind (tread (\<lambda>db. tfind nd_id nodeId (nodes db))) (\<lambda>row.
     tbind (tfound row (DbError ''P2025'' ''node'')) (\<lambda>node.
     tbind (set_nodes (\<lambda>n. nd_id n = nodeId)
              (\<lambda>n. (f n)\<lparr>nd_agentConfigRevision := nd_agentConfigRevision n + 1\<rparr>)) (\<lambda>_.
     tret (nd_agentConfigRevision node + 1))))"

definition auto_disable_key :: "string \<Rightarrow> int \<Rightarrow> string" where
  "auto_disable_key bindingId revision = ''auto-disable:'' @ bindingId @ '':'' @ bigint_toString revision"

definition queue_disable ::
  "platform \<Rightarrow> string \<Rightarrow> string \<Rightarrow> int \<Rightarrow> sub_state \<Rightarrow> PanelClientBinding \<Rightarrow> (control_plane, unit) tx" where
  "queue_disable pf nodeId agentId revision state b =
     tbind (tread (\<lambda>db. tfind jb_dedupeKey (auto_disable_key (pb_id b) revision) (command_jobs db))) (\<lambda>replayed.
     if replayed \<noteq> None then tret ()
     else
       tbind (resolveExhaustedCommands pf (Some (pb_id b)) nodeId DISABLE_USER) (\<lambda>_.
       tbind (draw_uuid pf) (\<lambda>u.
       tbind (insert_job \<lparr>jb_id = u, jb_dedupeKey = auto_disable_key (pb_id b) revision, jb_nodeId = nodeId,
         jb_agentId = Some agentId, jb_commandType = DISABLE_USER, jb_targetRevision = revision,
         jb_payload = [(''bindingId'', JStr (pb_id b)), (''email'', JStr (pb_panelClientEmail b)),
           (''uuid'', JStr (pb_panelClientId b)), (''reason'', JStr (''subscription_'' @ state_text state))],
         jb_bindingId = Some (pb_id b), jb_subscriptionId = Some (pb_subscriptionId b),
         jb_userId = pb_userId b, jb_teamId = pb_teamId b, jb_status = Job_pending, jb_resolvedAt = None,
         jb_attempts = 0, jb_nextRunAt = pf_now pf, jb_result = None, jb_lastError = None,
         jb_completedAt = None, jb_createdAt = pf_now pf\<rparr>) (\<lambda>_.
       tret ()))))"

definition disable_node_bindings ::
  "platform \<Rightarrow> string \<Rightarrow> string \<Rightarrow> (string \<times> sub_state) list \<Rightarrow>
    string \<times> PanelClientBinding list \<Rightarrow> string list \<Rightarrow> (control_plane, string list) tx" where
  "disable_node_bindings pf currentNodeId currentAgentId disabled node_group commandAgentIds =
     (case node_group of (nodeId, rows) \<Rightarrow>
      tbind (tread (\<lambda>db. agent_for_node db currentNodeId currentAgentId nodeId)) (\<lambda>target.
      tbind (bump_revision nodeId (\<lambda>n. if target = None then n\<lparr>nd_controlStatus := ''degraded''\<rparr> else n)) (\<lambda>revision.
      tbind (set_bindings (\<lambda>b. pb_id b \<in> pb_id ` set rows)
        (\<lambda>b. b\<lparr>pb_status := ''disabled'', pb_directRevision := revision,
               pb_directDisabledAt := Some (pf_now pf), pb_directDisableWatermarks := None\<rparr>)) (\<lambda>_.
      case target of
        None \<Rightarrow> tret commandAgentIds
      | Some agentId \<Rightarrow>
          tbind (tfor rows (\<lambda>b. queue_disable pf nodeId agentId revision
                   (case map_of disabled (pb_subscriptionId b) of Some s \<Rightarrow> s | None \<Rightarrow> Sub_active) b)) (\<lambda>_.
          tret (if agentId \<in> set commandAgentIds then commandAgentIds else commandAgentIds @ [agentId]))))))"

definition disableDirectBindingsForSubscriptions ::
  "platform \<Rightarrow> string \<Rightarrow> string \<Rightarrow> (string \<times> sub_state) list \<Rightarrow> (control_plane, string list) tx" where
  "disableDirectBindingsForSubscriptions pf currentNodeId currentAgentId disabled =
     (if disabled = [] then tret []
      else
        tbind (tread (\<lambda>db. filter (\<lambda>b. pb_subscriptionId b \<in> fst ` set disabled \<and> pb_source b = Direct
                                        \<and> pb_status b = ''active'') (bindings db))) (\<lambda>rows.
        tfold (disable_node_bindings pf currentNodeId currentAgentId disabled) (group_by_node rows) []))"

definition revoke_leases :: "platform \<Rightarrow> string \<Rightarrow> string \<times> sub_state \<Rightarrow> (control_plane, unit) tx" where
  "revoke_leases pf nodeId d = (case d of (sid, state) \<Rightarrow>
     tbind (draw_uuid pf) (\<lambda>u.
     createOrRefreshLeaseRevocationJob
       \<lparr>lj_id = u, lj_dedupeKey = ''direct-metering:'' @ sid @ '':'' @ state_text state,
        lj_reason = ''subscription_'' @ state_text state, lj_subscriptionId = Some sid, lj_nodeId = Some nodeId,
        lj_status = ''pending'', lj_attempts = 0, lj_nextRunAt = pf_now pf, lj_lockedAt = None,
        lj_lastError = None, lj_completedAt = None\<rparr>
       (\<lambda>j. j\<lparr>lj_reason := ''subscription_'' @ state_text state, lj_subscriptionId := Some sid,
              lj_nodeId := Some nodeId, lj_status := ''pending'', lj_attempts := 0, lj_nextRunAt := pf_now pf,
              lj_lockedAt := None, lj_lastError := None, lj_completedAt := None\<rparr>)))"

section \<open>A whole batch\<close>

record DirectBatchApplication =
  da_transitions :: "SubscriptionTransition list"
  da_commandAgentIds :: "string list"

definition empty_tally :: tally where
  "empty_tally = \<lparr>ta_unchanged = [], ta_changed = [], ta_deltas = [], ta_ledger = []\<rparr>"

definition charge_tally :: "int \<Rightarrow> tally \<Rightarrow> (control_plane, charge_acc) tx" where
  "charge_tally sampledAt t =
     tbind (tfold (charge_subscription sampledAt) (ta_deltas t) \<lparr>ch_transitions = [], ch_disabled = []\<rparr>) (\<lambda>acc.
     tbind (twrite (\<lambda>db. db\<lparr>ledger_rows := ledger_rows db @ ta_ledger t\<rparr>)) (\<lambda>_.
     tret acc))"

definition applyDirectBatch ::
  "platform \<Rightarrow> string \<Rightarrow> string \<Rightarrow> int \<Rightarrow> string \<Rightarrow> int \<Rightarrow> UsageSample list \<Rightarrow>
    (control_plane, DirectBatchApplication) tx" where
  "applyDirectBatch pf agentRecordId nodeId sampledAt bootId sequence samples =
     (if samples = [] then tret \<lparr>da_transitions = [], da_commandAgentIds = []\<rparr>
      else if \<not> distinct (map us_bindingId samples) then tthrow (ConflictError ''bindingId'')
      else
        tbind (tread (\<lambda>db. db)) (\<lambda>db.
        tbind (tlift (prepare_samples db nodeId bootId sequence samples)) (\<lambda>prepared.
        tbind (tfold (tally_entry pf nodeId sampledAt (snapshots db)) prepared empty_tally) (\<lambda>t.
        tbind (write_unchanged sampledAt (ta_unchanged t)) (\<lambda>_.
        tbind (tfor (ta_changed t) (write_changed pf nodeId sampledAt)) (\<lambda>_.
        tbind (charge_tally sampledAt t) (\<lambda>acc.
        if ch_disabled acc = [] then tret \<lparr>da_transitions = ch_transitions acc, da_commandAgentIds = []\<rparr>
        else
          tbind (disableDirectBindingsForSubscriptions pf nodeId agentRecordId (ch_disabled acc)) (\<lambda>ids.
          tbind (tfor (ch_disabled acc) (revoke_leases pf nodeId)) (\<lambda>_.
          tret \<lparr>da_transitions = ch_transitions acc, da_commandAgentIds = ids\<rparr>)))))))))"

end
