(* ===== verification/MeteringSpec.thy ===== *)
theory MeteringSpec
  imports DirectMetering
begin

text \<open>
  What accounting a batch does to the tables, in closed form: which bytes are charged to which
  subscription, what the snapshots hold afterwards, and who is disabled.
\<close>

section \<open>Entries\<close>

text \<open>
  The bytes an entry adds, as a specification: a first reading adds none, a reading of the
  snapshot's generation what both directions grew by, one of another generation all it shows.
\<close>

definition entry_bytes :: "TrafficSnapshot list \<Rightarrow> entry \<Rightarrow> int" where
  "entry_bytes snaps e = (case tfind ts_snapshotKey (en_key e) snaps of
       None \<Rightarrow> 0
     | Some s \<Rightarrow> en_uplinkBytes e + en_downlinkBytes e
         - (if ts_counterGeneration s = us_counterGeneration (en_sample e) then ts_uplinkBytes s + ts_downlinkBytes s else 0))"

lemma entry_delta_bytes: "entry_delta (tfind ts_snapshotKey (en_key e) snaps) e = Inr d \<Longrightarrow> entry_bytes snaps e = d"
  by (auto simp: entry_bytes_def entry_delta_def split: option.splits if_splits)

definition entry_wf :: "control_plane \<Rightarrow> string \<Rightarrow> entry \<Rightarrow> bool" where
  "entry_wf db nodeId e \<longleftrightarrow> 0 \<le> en_uplinkBytes e \<and> 0 \<le> en_downlinkBytes e
     \<and> tfind pb_id (us_bindingId (en_sample e)) (bindings db) = Some (en_binding e)
     \<and> pb_nodeId (en_binding e) = nodeId \<and> pb_source (en_binding e) = Direct
     \<and> tfind sub_id (pb_subscriptionId (en_binding e)) (subscriptions db) = Some (en_subscription e)
     \<and> en_key e = buildSnapshotKey nodeId (pb_subscriptionId (en_binding e)) (pb_userId (en_binding e))"

lemma prepare_sample_wf: "prepare_sample db nodeId boot n sample = Inr (Some e) \<Longrightarrow> entry_wf db nodeId e \<and> en_sample e = sample"
  by (auto simp: prepare_sample_def Let_def result_simps parseUsageBigInt_def entry_wf_def
      split: option.splits if_splits)

lemma map_filter_id: "List.map_filter id xs = map the (filter (\<lambda>x. x \<noteq> None) xs)"
  by (induction xs) (auto split: option.splits)

lemma prepare_samples_wf:
  "prepare_samples db nodeId boot n samples = Inr es \<Longrightarrow> e \<in> set es \<Longrightarrow> entry_wf db nodeId e \<and> en_sample e \<in> set samples"
  unfolding prepare_samples_def rbind_eq_Inr map_filter_id
  using mapR_set prepare_sample_wf by fastforce

lemma entry_delta_nonneg: "0 \<le> en_uplinkBytes e \<Longrightarrow> 0 \<le> en_downlinkBytes e \<Longrightarrow> entry_delta snap e = Inr d \<Longrightarrow> 0 \<le> d"
  by (auto simp: entry_delta_def split: option.splits if_splits)

section \<open>The tally\<close>

definition delta_of :: "string \<Rightarrow> (string \<times> entry \<times> int) list \<Rightarrow> int" where
  "delta_of sid deltas = (case map_of deltas sid of None \<Rightarrow> 0 | Some (e, d) \<Rightarrow> d)"

text \<open>The bytes a list of entries adds to one subscription.\<close>

definition usage_of :: "TrafficSnapshot list \<Rightarrow> string \<Rightarrow> entry list \<Rightarrow> int" where
  "usage_of snaps sid es = sum_list (map (entry_bytes snaps)
     (filter (\<lambda>e. pb_subscriptionId (en_binding e) = sid) es))"

lemma usage_of_snoc: "usage_of snaps sid (es @ [e]) =
    usage_of snaps sid es + (if pb_subscriptionId (en_binding e) = sid then entry_bytes snaps e else 0)"
  by (simp add: usage_of_def)

lemma delta_of_add: "delta_of sid (add_delta e d ds) =
    delta_of sid ds + (if pb_subscriptionId (en_binding e) = sid then d else 0)"
  by (auto simp: delta_of_def add_delta_def Let_def split: option.splits)

definition tally_wf :: "TrafficSnapshot list \<Rightarrow> entry list \<Rightarrow> tally \<Rightarrow> bool" where
  "tally_wf snaps es t \<longleftrightarrow>
     (\<forall>sid. delta_of sid (ta_deltas t) = usage_of snaps sid es)
   \<and> distinct (map fst (ta_deltas t))
   \<and> (\<forall>(sid, e, d) \<in> set (ta_deltas t). e \<in> set es \<and> pb_subscriptionId (en_binding e) = sid \<and> 0 < d)
   \<and> (\<forall>e. e \<in> set es \<longleftrightarrow> e \<in> set (ta_unchanged t) \<or> e \<in> set (ta_changed t))
   \<and> (\<forall>e \<in> set (ta_unchanged t). entry_unchanged (tfind ts_snapshotKey (en_key e) snaps) e)"

lemma set_add_delta:
  assumes "distinct (map fst ds)" and "(sid, f, d') \<in> set (add_delta e d ds)"
  shows "(sid, f, d') \<in> set ds \<or> (sid = pb_subscriptionId (en_binding e)
    \<and> (f = e \<and> d' = d \<or> (\<exists>d0. (sid, f, d0) \<in> set ds \<and> d' = d0 + d)))"
proof -
  let ?k = "pb_subscriptionId (en_binding e)"
  have dist: "distinct (map fst (add_delta e d ds))"
    using assms(1) by (auto simp: add_delta_def Let_def distinct_mput split: option.splits)
  have "map_of (add_delta e d ds) sid = Some (f, d')" using dist assms(2) by simp
  then show ?thesis
    using map_of_SomeD [of ds] by (auto simp: add_delta_def Let_def split: option.splits if_splits) blast+
qed

lemma tally_deltas_step:
  assumes "tally_wf snaps es t" and "0 < d" and "entry_bytes snaps e = d"
  shows "(\<forall>sid. delta_of sid (add_delta e d (ta_deltas t)) = usage_of snaps sid (es @ [e]))
    \<and> distinct (map fst (add_delta e d (ta_deltas t)))
    \<and> (\<forall>(sid, f, d') \<in> set (add_delta e d (ta_deltas t)). f \<in> set (es @ [e]) \<and> pb_subscriptionId (en_binding f) = sid \<and> 0 < d')"
proof (intro conjI)
  note t = assms(1) [unfolded tally_wf_def]
  show "\<forall>sid. delta_of sid (add_delta e d (ta_deltas t)) = usage_of snaps sid (es @ [e])"
    using t assms(3) by (simp add: delta_of_add usage_of_snoc)
  show "distinct (map fst (add_delta e d (ta_deltas t)))"
    using t by (auto simp: add_delta_def Let_def distinct_mput split: option.splits)
  show "\<forall>(sid, f, d') \<in> set (add_delta e d (ta_deltas t)).
      f \<in> set (es @ [e]) \<and> pb_subscriptionId (en_binding f) = sid \<and> 0 < d'"
    using t assms(2) by (fastforce dest!: set_add_delta [rotated])
qed

lemma tally_entry_ok:
  assumes "tally_entry pf nodeId tm snaps e t db = Inr (t', db')" and "tally_wf snaps es t"
    and "0 \<le> en_uplinkBytes e" and "0 \<le> en_downlinkBytes e"
  shows "tally_wf snaps (es @ [e]) t'"
proof -
  let ?snap = "tfind ts_snapshotKey (en_key e) snaps"
  from assms(1) obtain d where d: "entry_delta ?snap e = Inr d"
    by (auto simp: tally_entry_def Let_def tx_simps)
  then have bytes: "entry_bytes snaps e = d" by (rule entry_delta_bytes)
  have "0 \<le> d" by (rule entry_delta_nonneg [OF assms(3,4) d])
  define t1 where "t1 = (if entry_unchanged ?snap e then t\<lparr>ta_unchanged := ta_unchanged t @ [e]\<rparr>
     else t\<lparr>ta_changed := ta_changed t @ [e]\<rparr>)"
  have sorted: "(\<forall>x. x \<in> set (es @ [e]) \<longleftrightarrow> x \<in> set (ta_unchanged t1) \<or> x \<in> set (ta_changed t1))
      \<and> (\<forall>x \<in> set (ta_unchanged t1). entry_unchanged (tfind ts_snapshotKey (en_key x) snaps) x)"
    using assms(2) by (auto simp: tally_wf_def t1_def)
  have same: "ta_deltas t1 = ta_deltas t" by (simp add: t1_def)
  show ?thesis
  proof (cases "d = 0")
    case True
    then have "t' = t1" using assms(1) d by (auto simp: tally_entry_def Let_def tx_simps t1_def)
    then show ?thesis using assms(2) sorted same bytes True
      by (fastforce simp: tally_wf_def usage_of_snoc)
  next
    case False
    then have "\<not> d \<le> 0" using \<open>0 \<le> d\<close> by simp
    then have "ta_deltas t' = add_delta e d (ta_deltas t) \<and> ta_unchanged t' = ta_unchanged t1
        \<and> ta_changed t' = ta_changed t1"
      using assms(1) d by (auto simp: tally_entry_def Let_def tx_simps t1_def split: option.splits if_splits)
    then show ?thesis
      using tally_deltas_step [OF assms(2) _ bytes] False \<open>0 \<le> d\<close> sorted unfolding tally_wf_def by auto
  qed
qed

lemma tally_fold_ok:
  assumes "tfold (tally_entry pf nodeId tm snaps) es t db = Inr (t', db')" and "tally_wf snaps done t"
    and "\<And>e. e \<in> set es \<Longrightarrow> 0 \<le> en_uplinkBytes e \<and> 0 \<le> en_downlinkBytes e"
  shows "tally_wf snaps (done @ es) t'"
  using assms
proof (induction es arbitrary: t db "done")
  case Nil
  then show ?case by simp
next
  case (Cons e es)
  from Cons.prems(1) obtain t1 db1 where s: "tally_entry pf nodeId tm snaps e t db = Inr (t1, db1)"
    "tfold (tally_entry pf nodeId tm snaps) es t1 db1 = Inr (t', db')" by (auto simp: tx_simps)
  have "tally_wf snaps (done @ [e]) t1" by (rule tally_entry_ok [OF s(1) Cons.prems(2)]) (use Cons.prems(3) in auto)
  from Cons.IH [OF s(2) this] Cons.prems(3) show ?case by simp
qed

lemma tally_frame: "(\<And>db n. view (db\<lparr>fresh := n\<rparr>) = view db) \<Longrightarrow> tframe view (tally_entry pf nodeId tm snaps e t)"
  unfolding tally_entry_def Let_def by (auto intro!: tframe_intros split: option.splits)

lemma empty_tally_wf: "tally_wf snaps [] empty_tally"
  by (simp add: tally_wf_def empty_tally_def delta_of_def usage_of_def)

section \<open>Charging in closed form\<close>

definition shown_gb :: "int \<Rightarrow> rat" where
  "shown_gb v = (case trafficBytesToGbNumber v of Inr gb \<Rightarrow> gb | Inl _ \<Rightarrow> 0)"

text \<open>The row of a subscription after it was charged.\<close>

definition charged :: "int \<Rightarrow> Subscription \<Rightarrow> int \<Rightarrow> Subscription \<Rightarrow> Subscription" where
  "charged tm s delta row =
     (let total = total_bytes s; nextUsed = used_bytes s + delta;
          remaining = (if total > nextUsed then total - nextUsed else 0)
      in row\<lparr>sub_totalTrafficBytes := total, sub_usedTrafficBytes := nextUsed, sub_usedTrafficGb := shown_gb nextUsed,
             sub_remainingTrafficGb := shown_gb remaining, sub_state := next_state s remaining tm,
             sub_lastSyncedAt := tm\<rparr>)"

lemma charged_id [simp]: "sub_id (charged tm s d row) = sub_id row"
  by (simp add: charged_def Let_def)

lemma charge_one:
  assumes "charge_subscription tm (sid, e, d) acc db = Inr (acc', db')"
  shows "db' = db\<lparr>subscriptions := tmodify (\<lambda>s. sub_id s = sid) (charged tm (en_subscription e) d) (subscriptions db)\<rparr>"
proof -
  have "charged tm (en_subscription e) d = (\<lambda>row. charged tm (en_subscription e) d row)" by simp
  then show ?thesis using assms
    by (auto simp: charge_subscription_def Let_def tx_simps set_subscriptions_def charged_def shown_gb_def)
qed

definition charge_row :: "int \<Rightarrow> (string \<times> entry \<times> int) list \<Rightarrow> Subscription \<Rightarrow> Subscription" where
  "charge_row tm deltas s = (case map_of deltas (sub_id s) of None \<Rightarrow> s | Some (e, d) \<Rightarrow> charged tm (en_subscription e) d s)"

lemma charge_all:
  assumes "tfold (charge_subscription tm) deltas acc db = Inr (acc', db')" and "distinct (map fst deltas)"
  shows "db' = db\<lparr>subscriptions := map (charge_row tm deltas) (subscriptions db)\<rparr>"
  using assms
proof (induction deltas arbitrary: acc db)
  case Nil
  then show ?case by (simp add: charge_row_def [abs_def])
next
  case (Cons u deltas)
  obtain sid e d where u: "u = (sid, e, d)" by (cases u)
  from Cons.prems(1) obtain acc1 db1 where s: "charge_subscription tm u acc db = Inr (acc1, db1)"
    "tfold (charge_subscription tm) deltas acc1 db1 = Inr (acc', db')" by (auto simp: tx_simps)
  have "db' = db1\<lparr>subscriptions := map (charge_row tm deltas) (subscriptions db1)\<rparr>"
    using Cons.IH [OF s(2)] Cons.prems(2) by simp
  moreover have "map_of deltas sid = None" using Cons.prems(2) u by (simp add: map_of_eq_None_iff)
  ultimately show ?case
    using charge_one [OF s(1) [unfolded u]] u by (auto simp: tmodify_def charge_row_def)
qed

section \<open>What each stage leaves alone\<close>

lemma write_unchanged_frame:
  "(\<And>db t. view (db\<lparr>snapshots := t\<rparr>) = view db) \<Longrightarrow> (\<And>db t. view (db\<lparr>bindings := t\<rparr>) = view db) \<Longrightarrow>
   tframe view (write_unchanged tm es)"
  unfolding write_unchanged_def by (intro tframe_intros)

lemma upsert_snapshot_frame:
  "(\<And>db t. view (db\<lparr>snapshots := t\<rparr>) = view db) \<Longrightarrow> (\<And>db n. view (db\<lparr>fresh := n\<rparr>) = view db) \<Longrightarrow>
   tframe view (upsert_snapshot pf nodeId tm e)"
  unfolding upsert_snapshot_def by (intro tframe_intros tframe_twrite)

lemma write_changed_frame:
  "(\<And>db t. view (db\<lparr>snapshots := t\<rparr>) = view db) \<Longrightarrow> (\<And>db t. view (db\<lparr>bindings := t\<rparr>) = view db) \<Longrightarrow>
   (\<And>db n. view (db\<lparr>fresh := n\<rparr>) = view db) \<Longrightarrow> tframe view (write_changed pf nodeId tm e)"
  unfolding write_changed_def by (intro tframe_intros upsert_snapshot_frame)

lemma queue_disable_frame:
  "(\<And>db t. view (db\<lparr>command_jobs := t\<rparr>) = view db) \<Longrightarrow> (\<And>db n. view (db\<lparr>fresh := n\<rparr>) = view db) \<Longrightarrow>
   tframe view (queue_disable pf nodeId agentId revision state b)"
  unfolding queue_disable_def resolveExhaustedCommands_def by (intro tframe_intros)

lemma bump_frame: "(\<And>db t. view (db\<lparr>nodes := t\<rparr>) = view db) \<Longrightarrow> tframe view (bump_revision nodeId f)"
  unfolding bump_revision_def by (intro tframe_intros)

lemma disable_frame:
  assumes "\<And>db t. view (db\<lparr>command_jobs := t\<rparr>) = view db" "\<And>db n. view (db\<lparr>fresh := n\<rparr>) = view db"
    "\<And>db t. view (db\<lparr>nodes := t\<rparr>) = view db" "\<And>db t. view (db\<lparr>bindings := t\<rparr>) = view db"
  shows "tframe view (disableDirectBindingsForSubscriptions pf n a disabled)"
  unfolding disableDirectBindingsForSubscriptions_def disable_node_bindings_def
  by (intro tframe_intros bump_frame queue_disable_frame assms)

lemma revoke_frame:
  "(\<And>db t. view (db\<lparr>lease_jobs := t\<rparr>) = view db) \<Longrightarrow> (\<And>db n. view (db\<lparr>fresh := n\<rparr>) = view db) \<Longrightarrow>
   tframe view (revoke_leases pf nodeId d)"
  unfolding revoke_leases_def createOrRefreshLeaseRevocationJob_def Let_def
  by (intro tframe_intros tframe_twrite)

text \<open>The stages of a successful accounting.\<close>

definition finish_batch :: "platform \<Rightarrow> string \<Rightarrow> string \<Rightarrow> charge_acc \<Rightarrow> (control_plane, DirectBatchApplication) tx" where
  "finish_batch pf nodeId agentRecordId acc =
     (if ch_disabled acc = [] then tret \<lparr>da_transitions = ch_transitions acc, da_commandAgentIds = []\<rparr>
      else
        tbind (disableDirectBindingsForSubscriptions pf nodeId agentRecordId (ch_disabled acc)) (\<lambda>ids.
        tbind (tfor (ch_disabled acc) (revoke_leases pf nodeId)) (\<lambda>_.
        tret \<lparr>da_transitions = ch_transitions acc, da_commandAgentIds = ids\<rparr>)))"

lemma finish_frame:
  assumes "\<And>db t. view (db\<lparr>command_jobs := t\<rparr>) = view db" "\<And>db n. view (db\<lparr>fresh := n\<rparr>) = view db"
    "\<And>db t. view (db\<lparr>nodes := t\<rparr>) = view db" "\<And>db t. view (db\<lparr>bindings := t\<rparr>) = view db"
    "\<And>db t. view (db\<lparr>lease_jobs := t\<rparr>) = view db"
  shows "tframe view (finish_batch pf n a acc)"
  unfolding finish_batch_def by (intro tframe_intros disable_frame revoke_frame assms)

lemma applyDirectBatch_stages:
  assumes "applyDirectBatch pf a n tm boot sq samples db = Inr (r, db')" and "samples \<noteq> []"
  obtains es t acc db1 db2 db3 db4 where
    "distinct (map us_bindingId samples)"
    "prepare_samples db n boot sq samples = Inr es"
    "tfold (tally_entry pf n tm (snapshots db)) es empty_tally db = Inr (t, db1)"
    "write_unchanged tm (ta_unchanged t) db1 = Inr ((), db2)"
    "tfor (ta_changed t) (write_changed pf n tm) db2 = Inr ((), db3)"
    "charge_tally tm t db3 = Inr (acc, db4)"
    "finish_batch pf n a acc db4 = Inr (r, db')"
  using assms by (auto simp: applyDirectBatch_def tx_simps finish_batch_def split: if_splits)

lemma tally_of:
  assumes "prepare_samples db n boot sq samples = Inr es"
    and "tfold (tally_entry pf n tm (snapshots db)) es empty_tally db = Inr (t, db1)"
  shows "tally_wf (snapshots db) es t"
  using tally_fold_ok [OF assms(2) empty_tally_wf] prepare_samples_wf [OF assms(1)] by (simp add: entry_wf_def)

text \<open>The subscriptions after a batch, row by row.\<close>

lemma batch_subscriptions:
  assumes "applyDirectBatch pf a n tm boot sq samples db = Inr (r, db')" and "samples \<noteq> []"
  obtains es t where "prepare_samples db n boot sq samples = Inr es" "tally_wf (snapshots db) es t"
    "subscriptions db' = map (charge_row tm (ta_deltas t)) (subscriptions db)"
proof -
  from assms obtain es t acc db1 db2 db3 db4 where st:
    "prepare_samples db n boot sq samples = Inr es"
    "tfold (tally_entry pf n tm (snapshots db)) es empty_tally db = Inr (t, db1)"
    "write_unchanged tm (ta_unchanged t) db1 = Inr ((), db2)"
    "tfor (ta_changed t) (write_changed pf n tm) db2 = Inr ((), db3)"
    "charge_tally tm t db3 = Inr (acc, db4)" "finish_batch pf n a acc db4 = Inr (r, db')"
    by (rule applyDirectBatch_stages)
  have wf: "tally_wf (snapshots db) es t" by (rule tally_of [OF st(1,2)])
  have "tframe subscriptions (tfold (tally_entry pf n tm (snapshots db)) es empty_tally)"
    by (intro tframe_intros tally_frame) simp
  moreover have "tframe subscriptions (write_unchanged tm (ta_unchanged t))" by (rule write_unchanged_frame) simp_all
  moreover have "tframe subscriptions (tfor (ta_changed t) (write_changed pf n tm))"
    by (intro tframe_intros write_changed_frame) simp_all
  ultimately have "subscriptions db3 = subscriptions db" using st(2-4) by (metis tframeD)
  moreover have "subscriptions db4 = map (charge_row tm (ta_deltas t)) (subscriptions db3)"
    using st(5) charge_all wf unfolding charge_tally_def tally_wf_def by (fastforce simp: tx_simps)
  moreover have "subscriptions db' = subscriptions db4"
    by (rule tframeD [OF finish_frame st(6)]) simp_all
  ultimately show ?thesis using that st(1) wf by simp
qed

lemma used_bytes_nonneg: "0 \<le> used_bytes s"
  by (simp add: used_bytes_def gb_bytes_nonneg)

lemma used_bytes_charged: "0 < d \<Longrightarrow> used_bytes (charged tm s d row) = used_bytes s + d"
proof -
  assume "0 < d"
  moreover have "sub_usedTrafficBytes (charged tm s d row) = used_bytes s + d" by (simp add: charged_def Let_def)
  ultimately show ?thesis using used_bytes_nonneg [of s] by (simp add: used_bytes_def [of "charged tm s d row"])
qed

lemma charge_row_cases:
  assumes "tally_wf snaps es t" and "\<And>e. e \<in> set es \<Longrightarrow> entry_wf db n e"
    and "distinct (map sub_id (subscriptions db))" and "s \<in> set (subscriptions db)"
  shows "charge_row tm (ta_deltas t) s =
    (if usage_of snaps (sub_id s) es = 0 then s else charged tm s (usage_of snaps (sub_id s) es) s)
    \<and> 0 \<le> usage_of snaps (sub_id s) es"
proof -
  have sum: "delta_of (sub_id s) (ta_deltas t) = usage_of snaps (sub_id s) es" using assms(1) by (simp add: tally_wf_def)
  show ?thesis
  proof (cases "map_of (ta_deltas t) (sub_id s)")
    case None
    then have "usage_of snaps (sub_id s) es = 0" using sum by (simp add: delta_of_def)
    with None show ?thesis by (simp add: charge_row_def)
  next
    case (Some p)
    obtain e d where p: "p = (e, d)" by (cases p)
    have "(sub_id s, e, d) \<in> set (ta_deltas t)" using Some p by (auto dest: map_of_SomeD)
    then have e: "e \<in> set es" "pb_subscriptionId (en_binding e) = sub_id s" "0 < d"
      using assms(1) by (auto simp: tally_wf_def)
    have "usage_of snaps (sub_id s) es = d" using sum Some p by (simp add: delta_of_def)
    moreover have "en_subscription e = s"
      using assms(2) [OF e(1)] e(2) tfind_distinct [OF assms(3,4)] by (simp add: entry_wf_def)
    ultimately show ?thesis using Some p e(3) by (simp add: charge_row_def)
  qed
qed

lemma batch_rows:
  assumes "applyDirectBatch pf a n tm boot sq samples db = Inr (r, db')"
    and "distinct (map sub_id (subscriptions db))"
  obtains es where "prepare_samples db n boot sq samples = Inr es"
    "subscriptions db' = map (\<lambda>s. if usage_of (snapshots db) (sub_id s) es = 0 then s
       else charged tm s (usage_of (snapshots db) (sub_id s) es) s) (subscriptions db)"
    "\<forall>s \<in> set (subscriptions db). 0 \<le> usage_of (snapshots db) (sub_id s) es"
proof (cases "samples = []")
  case True
  then have "db' = db" using assms(1) by (simp add: applyDirectBatch_def)
  moreover have "prepare_samples db n boot sq samples = Inr []" using True by (simp add: prepare_samples_def List.map_filter_def)
  ultimately show ?thesis using that [of "[]"] by (simp add: usage_of_def)
next
  case False
  from batch_subscriptions [OF assms(1) False] obtain es t where
    st: "prepare_samples db n boot sq samples = Inr es" "tally_wf (snapshots db) es t"
      "subscriptions db' = map (charge_row tm (ta_deltas t)) (subscriptions db)" .
  have wf: "entry_wf db n e" if "e \<in> set es" for e using prepare_samples_wf [OF st(1) that] by simp
  note rows = charge_row_cases [OF st(2) wf assms(2)]
  show ?thesis by (rule that [OF st(1)]) (use rows st(3) in auto)
qed

end
