(* ===== verification/MeteringDemo.thy ===== *)
theory MeteringDemo
  imports MeteringSpec
begin

text \<open>
  A small control plane on which the properties of accounting are applied: one subscription of
  1000 bytes, one direct binding with a snapshot, one node and its agent.
\<close>

definition demo_platform :: platform where
  "demo_platform = \<lparr>pf_uuid = (\<lambda>n. ''id-'' @ show_nat n),
     pf_random = (\<lambda>n. ''rnd-'' @ show_nat n), pf_pepper = None, pf_sha256 = (\<lambda>s. s), pf_sha256json = (\<lambda>j. ''digest''),
     pf_parseDate = (\<lambda>s. 100), pf_isoString = bigint_toString, pf_now = 200\<rparr>"

definition demo_endpoint :: InboundReportFields where
  "demo_endpoint = \<lparr>irf_serverHost = ''8.8.8.8'', irf_serverPort = 443, irf_realityPublicKey = [],
     irf_shortId = [], irf_serverName = [], irf_flow = No_flow, irf_fingerprint = ''chrome'', irf_spiderX = ''/''\<rparr>"

definition demo_sub :: Subscription where
  "demo_sub = \<lparr>sub_id = ''s1'', sub_userId = Some ''u1'', sub_teamId = None, sub_totalTrafficGb = 0,
     sub_usedTrafficGb = 0, sub_remainingTrafficGb = 0, sub_totalTrafficBytes = 1000, sub_usedTrafficBytes = 900,
     sub_expireAt = 1000, sub_state = Sub_active, sub_lastSyncedAt = 0\<rparr>"

definition demo_binding :: PanelClientBinding where
  "demo_binding = \<lparr>pb_id = ''b1'', pb_subscriptionId = ''s1'', pb_userId = Some ''u1'', pb_teamId = None,
     pb_nodeId = ''n1'', pb_panelClientEmail = ''u1@x'', pb_panelClientId = ''uuid-1'', pb_lastUplinkBytes = 10,
     pb_lastDownlinkBytes = 20, pb_lastSyncedAt = None, pb_status = ''active'', pb_source = Direct,
     pb_directRevision = 1, pb_directDisabledAt = None, pb_directDisableWatermarks = None\<rparr>"

definition demo_snapshot_row :: TrafficSnapshot where
  "demo_snapshot_row = \<lparr>ts_id = ''t1'', ts_snapshotKey = ''n1:s1:u1'', ts_nodeId = ''n1'', ts_subscriptionId = ''s1'',
     ts_userId = Some ''u1'', ts_teamId = None, ts_uplinkBytes = 10, ts_downlinkBytes = 20, ts_totalBytes = 30,
     ts_source = Direct, ts_counterGeneration = ''0'', ts_sampledAt = 50\<rparr>"

definition demo_node :: Node where
  "demo_node = \<lparr>nd_id = ''n1'', nd_controlMode = Direct_primary, nd_controlStatus = ''online'',
     nd_registrationStatus = None, nd_onboardingSpec = None, nd_isActive = True, nd_agentLastSeenAt = None,
     nd_agentConfigRevision = 5, nd_inboundAppliedRevision = 0, nd_endpoint = demo_endpoint\<rparr>"

definition demo_agent :: NodeAgent where
  "demo_agent = \<lparr>na_id = ''a1'', na_agentId = ''agent-1'', na_nodeId = ''n1'', na_tokenHash = ''h'', na_tokenPrefix = [],
     na_version = None, na_status = ''online'', na_bootId = Some ''boot-1'', na_lastSequence = 0, na_lastAckSequence = 0,
     na_configRevision = 0, na_queueDepth = 0, na_xrayStatus = ''healthy'', na_lastSeenAt = Some 10,
     na_revokedAt = None, na_createdAt = 0\<rparr>"

definition demo_db :: control_plane where
  "demo_db = \<lparr>subscriptions = [demo_sub], bindings = [demo_binding], snapshots = [demo_snapshot_row], ledger_rows = [],
     nodes = [demo_node], agents = [demo_agent], usage_batches = [], command_jobs = [], lease_jobs = [], register_tokens = [], fresh = 0,
     out_commands = [], out_transitions = [], out_admin = []\<rparr>"

definition demo_sample :: "string \<Rightarrow> string \<Rightarrow> UsageSample" where
  "demo_sample up down = \<lparr>us_bindingId = ''b1'', us_counterGeneration = ''0'', us_uplinkBytes = up,
     us_downlinkBytes = down, us_uplinkDeltaBytes = ''0'', us_downlinkDeltaBytes = ''0''\<rparr>"

lemma demo_applies:
  "case applyDirectBatch demo_platform ''a1'' ''n1'' 100 ''boot-1'' 1 [demo_sample ''60'' ''80''] demo_db of
     Inl e \<Rightarrow> False
   | Inr (r, db) \<Rightarrow> map sub_usedTrafficBytes (subscriptions db) = [1010] \<and> map sub_state (subscriptions db) = [Sub_exhausted]
       \<and> map pb_status (bindings db) = [''disabled''] \<and> da_commandAgentIds r = [''a1''] \<and> length (command_jobs db) = 1"
  by code_simp

end
