(* ===== verification/BatchAccounting.thy ===== *)
theory BatchAccounting
  imports MeteringDemo
begin

text \<open>
  The correctness of accounting a batch: the bytes charged, the readings kept, and that a
  subscription which stops being active is cut off everywhere.
\<close>

section \<open>The readings after a batch\<close>

definition reads :: "control_plane \<Rightarrow> entry \<Rightarrow> bool" where
  "reads db e \<longleftrightarrow> (\<exists>s. tfind ts_snapshotKey (en_key e) (snapshots db) = Some s
     \<and> ts_uplinkBytes s = en_uplinkBytes e \<and> ts_downlinkBytes s = en_downlinkBytes e
     \<and> ts_counterGeneration s = us_counterGeneration (en_sample e))"

lemma reads_no_bytes: "reads db e \<Longrightarrow> entry_bytes (snapshots db) e = 0"
  by (auto simp: reads_def entry_bytes_def)

lemma reads_unchanged: "entry_unchanged (tfind ts_snapshotKey (en_key e) (snapshots db)) e \<Longrightarrow> reads db e"
  by (auto simp: entry_unchanged_def reads_def split: option.splits)

lemma tfind_snoc: "tfind key k (rows @ [r]) = (case tfind key k rows of
    Some x \<Rightarrow> Some x | None \<Rightarrow> if key r = k then Some r else None)"
  by (induction rows) auto

lemma upsert_writes:
  assumes "upsert_snapshot pf n tm e db = Inr (u, db')"
  shows "reads db' e"
proof (cases "en_key e \<in> ts_snapshotKey ` set (snapshots db)")
  case True
  then obtain s where "tfind ts_snapshotKey (en_key e) (snapshots db) = Some s"
    by (metis not_None_eq tfind_None_iff)
  with True assms show ?thesis
    by (auto simp: upsert_snapshot_def tx_simps draw_uuid_def set_snapshots_def reads_def tfind_tmodify
        dest: tfind_Some_in)
next
  case False
  then have "tfind ts_snapshotKey (en_key e) (snapshots db) = None" by (simp add: tfind_None_iff)
  with False assms show ?thesis
    by (auto simp: upsert_snapshot_def tx_simps draw_uuid_def reads_def tfind_snoc)
qed

lemma upsert_keeps:
  assumes "upsert_snapshot pf n tm e db = Inr (u, db')" and "en_key f \<noteq> en_key e"
  shows "tfind ts_snapshotKey (en_key f) (snapshots db') = tfind ts_snapshotKey (en_key f) (snapshots db)"
  using assms
  by (auto simp: upsert_snapshot_def tx_simps draw_uuid_def set_snapshots_def tfind_tmodify tfind_snoc
      split: if_splits option.splits dest: tfind_Some_in intro!: option.map_ident_strong)

lemma changed_snapshots:
  assumes "write_changed pf n tm e db = Inr (u, db')"
  obtains u' db1 where "upsert_snapshot pf n tm e db = Inr (u', db1)" "snapshots db' = snapshots db1"
  using assms by (auto simp: write_changed_def tx_simps set_bindings_def)

lemma write_changed_writes: "write_changed pf n tm e db = Inr (u, db') \<Longrightarrow> reads db' e"
  by (elim changed_snapshots) (auto dest!: upsert_writes simp: reads_def)

lemma write_changed_keeps:
  assumes "write_changed pf n tm e db = Inr (u, db')" and "reads db f" and "en_key f = en_key e \<Longrightarrow> f = e"
  shows "reads db' f"
proof (cases "f = e")
  case True
  then show ?thesis using write_changed_writes [OF assms(1)] by simp
next
  case False
  obtain u' db1 where w: "upsert_snapshot pf n tm e db = Inr (u', db1)" "snapshots db' = snapshots db1"
    by (rule changed_snapshots [OF assms(1)])
  from False assms(3) have "en_key f \<noteq> en_key e" by blast
  from upsert_keeps [OF w(1) this] show ?thesis using assms(2) w(2) by (simp add: reads_def)
qed

lemma write_all_keeps:
  assumes "tfor es (write_changed pf n tm) db = Inr (u, db')" and "reads db f" and "inj_on en_key (insert f (set es))"
  shows "reads db' f"
  using assms(1,2)
proof (rule tfor_invariant [where I = "\<lambda>db. reads db f"])
  fix x s s' u assume "x \<in> set es" "reads s f" "write_changed pf n tm x s = Inr (u, s')"
  then show "reads s' f" using write_changed_keeps assms(3) by (metis inj_on_eq_iff insertI1 insertI2)
qed

lemma write_all_writes:
  assumes "tfor es (write_changed pf n tm) db = Inr (u, db')" and "f \<in> set es" and "inj_on en_key (set es)"
  shows "reads db' f"
  using assms
proof (induction es arbitrary: db)
  case (Cons e es)
  from Cons.prems(1) obtain v db1 where s: "write_changed pf n tm e db = Inr (v, db1)"
    "tfor es (write_changed pf n tm) db1 = Inr (u, db')" by (auto simp: tx_simps)
  show ?case
  proof (cases "f = e")
    case True
    with write_all_keeps [OF s(2)] write_changed_writes [OF s(1)] Cons.prems(3) show ?thesis by simp
  next
    case False
    with Cons.IH [OF s(2)] Cons.prems(2,3) show ?thesis by (simp add: inj_on_def)
  qed
qed simp

lemma unchanged_reads:
  assumes "write_unchanged tm es db = Inr (u, db')"
  shows "reads db' f = reads db f"
proof -
  have "snapshots db' = tmodify (\<lambda>s. ts_snapshotKey s \<in> en_key ` set es) (\<lambda>s. s\<lparr>ts_sampledAt := tm\<rparr>) (snapshots db)"
    using assms by (auto simp: write_unchanged_def tx_simps set_defs)
  then show ?thesis
    by (cases "tfind ts_snapshotKey (en_key f) (snapshots db)") (auto simp: reads_def tfind_tmodify)
qed

lemma batch_reads:
  assumes "applyDirectBatch pf a n tm boot sq samples db = Inr (r, db')"
    and "prepare_samples db n boot sq samples = Inr es" and "inj_on en_key (set es)" and "e \<in> set es"
  shows "reads db' e"
proof -
  have "samples \<noteq> []" using assms(2,4) by (auto simp: prepare_samples_def List.map_filter_def)
  with assms(1) obtain es' t acc db1 db2 db3 db4 where st:
    "prepare_samples db n boot sq samples = Inr es'"
    "tfold (tally_entry pf n tm (snapshots db)) es' empty_tally db = Inr (t, db1)"
    "write_unchanged tm (ta_unchanged t) db1 = Inr ((), db2)"
    "tfor (ta_changed t) (write_changed pf n tm) db2 = Inr ((), db3)"
    "charge_tally tm t db3 = Inr (acc, db4)" "finish_batch pf n a acc db4 = Inr (r, db')"
    by (rule applyDirectBatch_stages)
  have wf: "tally_wf (snapshots db) es t" using tally_of [OF st(1,2)] assms(2) st(1) by simp
  have "tframe snapshots (tfold (tally_entry pf n tm (snapshots db)) es' empty_tally)"
    by (intro tframe_intros tally_frame) simp
  then have same: "snapshots db1 = snapshots db" using st(2) by (metis tframeD)
  have inj: "inj_on en_key (insert e (set (ta_changed t)))"
  proof (rule inj_on_subset [OF assms(3)])
    show "insert e (set (ta_changed t)) \<subseteq> set es" using assms(4) wf by (auto simp: tally_wf_def)
  qed
  have "reads db3 e"
  proof (cases "e \<in> set (ta_changed t)")
    case True
    then show ?thesis using write_all_writes [OF st(4)] inj by (simp add: insert_absorb)
  next
    case False
    then have "e \<in> set (ta_unchanged t)" using assms(4) wf by (auto simp: tally_wf_def)
    then have "reads db1 e" using wf same by (intro reads_unchanged) (auto simp: tally_wf_def)
    then have "reads db2 e" using unchanged_reads [OF st(3)] by simp
    then show ?thesis by (rule write_all_keeps [OF st(4) _ inj])
  qed
  moreover have "snapshots db4 = snapshots db3"
  proof -
    have "tframe snapshots (charge_subscription tm u c)" for u c
      unfolding charge_subscription_def Let_def by (intro tframe_intros) simp
    then have "tframe snapshots (charge_tally tm t)"
      unfolding charge_tally_def by (intro tframe_intros tframe_twrite) simp_all
    then show ?thesis using st(5) by (rule tframeD)
  qed
  moreover have "snapshots db' = snapshots db4" by (rule tframeD [OF finish_frame st(6)]) simp_all
  ultimately show ?thesis by (simp add: reads_def)
qed

section \<open>Cutting off a subscription\<close>

text \<open>A binding is served while it is a direct one and active.\<close>

definition served :: "PanelClientBinding \<Rightarrow> bool" where
  "served b \<longleftrightarrow> pb_source b = Direct \<and> pb_status b = ''active''"

text \<open>Row by row, a disabling step keeps a binding or disables it, and never serves it anew.\<close>

definition only_disables :: "control_plane \<Rightarrow> control_plane \<Rightarrow> bool" where
  "only_disables db db' \<longleftrightarrow> list_all2 (\<lambda>b b'. pb_id b' = pb_id b \<and> pb_subscriptionId b' = pb_subscriptionId b
     \<and> pb_source b' = pb_source b \<and> (b' = b \<or> pb_status b' = ''disabled'')) (bindings db) (bindings db')"

lemma only_disables_refl: "bindings db' = bindings db \<Longrightarrow> only_disables db db'"
  by (simp add: only_disables_def list_all2_refl)

lemma only_disables_trans: "only_disables db db1 \<Longrightarrow> only_disables db1 db2 \<Longrightarrow> only_disables db db2"
  unfolding only_disables_def by (erule (1) list_all2_trans [rotated]) auto

lemma only_disables_served:
  assumes "only_disables db db'" and "b' \<in> set (bindings db')" and "served b'"
  shows "b' \<in> set (bindings db)"
  using assms unfolding only_disables_def served_def
  by (fastforce simp: in_set_conv_nth list_all2_conv_all_nth)

lemma group_member: "b \<in> set rows \<Longrightarrow> \<exists>g. (pb_nodeId b, g) \<in> set (group_by_node rows) \<and> b \<in> set g"
proof (induction rows rule: rev_induct)
  case (snoc r rows)
  let ?m = "group_by_node rows"
  have eq: "group_by_node (rows @ [r]) = mput (pb_nodeId r)
      ((case map_of ?m (pb_nodeId r) of None \<Rightarrow> [] | Some g \<Rightarrow> g) @ [r]) ?m"
    by (simp add: group_by_node_def)
  have dist: "distinct (map fst (group_by_node xs))" for xs
    by (induction xs rule: rev_induct) (simp_all add: group_by_node_def distinct_mput)
  have "\<exists>g. map_of (group_by_node (rows @ [r])) (pb_nodeId b) = Some g \<and> b \<in> set g"
  proof (cases "b = r")
    case False
    with snoc obtain g where "(pb_nodeId b, g) \<in> set ?m" "b \<in> set g" by auto
    then have "map_of ?m (pb_nodeId b) = Some g" using dist by simp
    with \<open>b \<in> set g\<close> show ?thesis by (auto simp: eq)
  qed (simp add: eq)
  then show ?case by (auto dest: map_of_SomeD)
qed simp

lemma disable_group:
  assumes "disable_node_bindings pf n a disabled (node, rows) ids db = Inr (ids', db')"
  obtains revision where "bindings db' = tmodify (\<lambda>b. pb_id b \<in> pb_id ` set rows)
      (\<lambda>b. b\<lparr>pb_status := ''disabled'', pb_directRevision := revision,
             pb_directDisabledAt := Some (pf_now pf), pb_directDisableWatermarks := None\<rparr>) (bindings db)"
proof -
  from assms obtain target revision db1 db2 where
    b: "bump_revision node (\<lambda>n. if target = None then n\<lparr>nd_controlStatus := ''degraded''\<rparr> else n) db = Inr (revision, db1)"
    and s: "set_bindings (\<lambda>b. pb_id b \<in> pb_id ` set rows)
        (\<lambda>b. b\<lparr>pb_status := ''disabled'', pb_directRevision := revision,
               pb_directDisabledAt := Some (pf_now pf), pb_directDisableWatermarks := None\<rparr>) db1 = Inr ((), db2)"
    and f: "(case target of
        None \<Rightarrow> tret ids
      | Some agentId \<Rightarrow>
          tbind (tfor rows (\<lambda>b. queue_disable pf node agentId revision
                   (case map_of disabled (pb_subscriptionId b) of Some s \<Rightarrow> s | None \<Rightarrow> Sub_active) b)) (\<lambda>_.
          tret (if agentId \<in> set ids then ids else ids @ [agentId]))) db2 = Inr (ids', db')"
    by (auto simp: disable_node_bindings_def tx_simps)
  have "bindings db1 = bindings db" by (rule tframeD [OF bump_frame b]) simp
  moreover have "bindings db' = bindings db2"
  proof -
    have "tframe bindings (case target of
        None \<Rightarrow> tret ids
      | Some agentId \<Rightarrow>
          tbind (tfor rows (\<lambda>b. queue_disable pf node agentId revision
                   (case map_of disabled (pb_subscriptionId b) of Some s \<Rightarrow> s | None \<Rightarrow> Sub_active) b)) (\<lambda>_.
          tret (if agentId \<in> set ids then ids else ids @ [agentId])))"
      by (intro tframe_intros queue_disable_frame) simp_all
    then show ?thesis using f unfolding tframe_def tkeeps_def by blast
  qed
  ultimately show ?thesis using s that by (auto simp: set_bindings_def)
qed

lemma disable_group_only:
  assumes "disable_node_bindings pf n a disabled g ids db = Inr (ids', db')"
  shows "only_disables db db' \<and> (\<forall>b \<in> set (snd g). \<forall>b' \<in> set (bindings db'). pb_id b' = pb_id b \<longrightarrow> pb_status b' = ''disabled'')"
proof -
  obtain node rows where g: "g = (node, rows)" by (cases g)
  from disable_group [OF assms [unfolded g]] show ?thesis
    by (rule) (auto simp: g only_disables_def list_all2_conv_all_nth tmodify_def)
qed

lemma disable_groups_only:
  assumes "tfold (disable_node_bindings pf n a disabled) gs ids db = Inr (ids', db')"
  shows "only_disables db db' \<and> (\<forall>g \<in> set gs. \<forall>b \<in> set (snd g). \<forall>b' \<in> set (bindings db').
    pb_id b' = pb_id b \<longrightarrow> pb_status b' = ''disabled'')"
  using assms
proof (induction gs arbitrary: ids db)
  case Nil
  then show ?case by (simp add: only_disables_refl)
next
  case (Cons g gs)
  from Cons.prems obtain i1 db1 where s: "disable_node_bindings pf n a disabled g ids db = Inr (i1, db1)"
    "tfold (disable_node_bindings pf n a disabled) gs i1 db1 = Inr (ids', db')" by (auto simp: tx_simps)
  note first = disable_group_only [OF s(1)] and rest = Cons.IH [OF s(2)]
  have "pb_status b' = ''disabled''" if "b \<in> set (snd g)" "b' \<in> set (bindings db')" "pb_id b' = pb_id b" for b b'
  proof -
    from rest that(2) obtain c where "c \<in> set (bindings db1)" "pb_id b' = pb_id c" "b' = c \<or> pb_status b' = ''disabled''"
      by (fastforce simp: only_disables_def in_set_conv_nth list_all2_conv_all_nth)
    with first that show ?thesis by metis
  qed
  with first rest show ?case by (auto intro: only_disables_trans)
qed

lemma disable_cuts_off:
  assumes "disableDirectBindingsForSubscriptions pf n a disabled db = Inr (ids, db')"
    and "b' \<in> set (bindings db')" and "pb_subscriptionId b' \<in> fst ` set disabled"
  shows "\<not> served b'"
proof
  assume served: "served b'"
  define rows where "rows = filter (\<lambda>b. pb_subscriptionId b \<in> fst ` set disabled \<and> pb_source b = Direct
      \<and> pb_status b = ''active'') (bindings db)"
  have "disabled \<noteq> []" using assms(3) by auto
  then have run: "tfold (disable_node_bindings pf n a disabled) (group_by_node rows) [] db = Inr (ids, db')"
    using assms(1) by (auto simp: disableDirectBindingsForSubscriptions_def tx_simps rows_def)
  note groups = disable_groups_only [OF run]
  have "b' \<in> set (bindings db)" using only_disables_served groups assms(2) served by blast
  then have "b' \<in> set rows" using served assms(3) by (simp add: rows_def served_def)
  then obtain g where "(pb_nodeId b', g) \<in> set (group_by_node rows)" "b' \<in> set g" using group_member by blast
  with groups assms(2) have "pb_status b' = ''disabled''" by fastforce
  with served show False by (simp add: served_def)
qed

lemma charge_marks:
  assumes "tfold (charge_subscription tm) deltas acc db = Inr (acc', db')"
  shows "fst ` set (ch_disabled acc) \<subseteq> fst ` set (ch_disabled acc')
    \<and> (\<forall>(sid, e, d) \<in> set deltas. sub_state (charged tm (en_subscription e) d (en_subscription e)) \<noteq> Sub_active
         \<longrightarrow> sid \<in> fst ` set (ch_disabled acc'))"
  using assms
proof (induction deltas arbitrary: acc db)
  case Nil
  then show ?case by simp
next
  case (Cons u deltas)
  obtain sid e d where u: "u = (sid, e, d)" by (cases u)
  from Cons.prems obtain acc1 db1 where s: "charge_subscription tm u acc db = Inr (acc1, db1)"
    "tfold (charge_subscription tm) deltas acc1 db1 = Inr (acc', db')" by (auto simp: tx_simps)
  have one: "fst ` set (ch_disabled acc) \<subseteq> fst ` set (ch_disabled acc1)
      \<and> (sub_state (charged tm (en_subscription e) d (en_subscription e)) \<noteq> Sub_active \<longrightarrow> sid \<in> fst ` set (ch_disabled acc1))"
  proof -
    let ?st = "sub_state (charged tm (en_subscription e) d (en_subscription e))"
    have "ch_disabled acc1 = (if ?st \<noteq> Sub_active then mput sid ?st (ch_disabled acc) else ch_disabled acc)"
      using s(1) by (auto simp: u charge_subscription_def Let_def tx_simps charged_def)
    then show ?thesis by (simp add: subset_insertI)
  qed
  show ?case using one Cons.IH [OF s(2)] by (auto simp: u)
qed

lemma finish_cuts_off:
  assumes "finish_batch pf n a acc db = Inr (r, db')" and "b' \<in> set (bindings db')"
    and "pb_subscriptionId b' \<in> fst ` set (ch_disabled acc)"
  shows "\<not> served b'"
proof -
  have "ch_disabled acc \<noteq> []" using assms(3) by auto
  with assms(1) obtain ids db1 u where s: "disableDirectBindingsForSubscriptions pf n a (ch_disabled acc) db = Inr (ids, db1)"
    "tfor (ch_disabled acc) (revoke_leases pf n) db1 = Inr (u, db')"
    by (auto simp: finish_batch_def tx_simps)
  have "tframe bindings (tfor (ch_disabled acc) (revoke_leases pf n))"
    by (intro tframe_intros revoke_frame) simp_all
  then have "bindings db' = bindings db1" using s(2) by (rule tframeD)
  then show ?thesis using disable_cuts_off [OF s(1)] assms(2,3) by simp
qed

lemma batch_cuts_off:
  assumes run: "applyDirectBatch pf a n tm boot sq samples db = Inr (r, db')"
    and dist: "distinct (map sub_id (subscriptions db))"
    and prep: "prepare_samples db n boot sq samples = Inr es"
    and s: "s \<in> set (subscriptions db)" and used: "usage_of (snapshots db) (sub_id s) es \<noteq> 0"
    and off: "sub_state (charged tm s (usage_of (snapshots db) (sub_id s) es) s) \<noteq> Sub_active"
    and b': "b' \<in> set (bindings db')" "pb_subscriptionId b' = sub_id s"
  shows "\<not> served b'"
proof -
  have "samples \<noteq> []" using prep used by (auto simp: prepare_samples_def List.map_filter_def usage_of_def)
  with run obtain es' t acc db1 db2 db3 db4 where st:
    "prepare_samples db n boot sq samples = Inr es'"
    "tfold (tally_entry pf n tm (snapshots db)) es' empty_tally db = Inr (t, db1)"
    "charge_tally tm t db3 = Inr (acc, db4)" "finish_batch pf n a acc db4 = Inr (r, db')"
    by (rule applyDirectBatch_stages)
  have wf: "tally_wf (snapshots db) es t" using tally_of [OF st(1,2)] prep st(1) by simp
  have "delta_of (sub_id s) (ta_deltas t) = usage_of (snapshots db) (sub_id s) es" using wf by (simp add: tally_wf_def)
  with used obtain e where m: "map_of (ta_deltas t) (sub_id s) = Some (e, usage_of (snapshots db) (sub_id s) es)"
    by (auto simp: delta_of_def split: option.splits)
  then have mem: "(sub_id s, e, usage_of (snapshots db) (sub_id s) es) \<in> set (ta_deltas t)" by (rule map_of_SomeD)
  then have "e \<in> set es" "pb_subscriptionId (en_binding e) = sub_id s" using wf by (auto simp: tally_wf_def)
  then have "en_subscription e = s"
    using prepare_samples_wf [OF prep, of e] tfind_distinct [OF dist s] by (simp add: entry_wf_def)
  moreover obtain c db5 where "tfold (charge_subscription tm) (ta_deltas t) c db3 = Inr (acc, db5)"
    using st(3) by (auto simp: charge_tally_def tx_simps)
  ultimately have "sub_id s \<in> fst ` set (ch_disabled acc)" using charge_marks mem off by fastforce
  then show ?thesis using finish_cuts_off [OF st(4) b'(1)] b'(2) by simp
qed

section \<open>Properties\<close>

text \<open>
  C24: accounting a batch charges every subscription exactly the bytes its samples add over the
  stored snapshots.  One that is charged keeps its state unless it was active, and then expires
  when the sample is past its end, is exhausted when nothing remains, and otherwise stays active;
  one that is not charged keeps its row.
\<close>

theorem batch_charges_exactly:
  assumes "applyDirectBatch pf a n tm boot sq samples db = Inr (r, db')"
    and "distinct (map sub_id (subscriptions db))" and "s \<in> set (subscriptions db)"
  shows "\<exists>es s'. prepare_samples db n boot sq samples = Inr es \<and> s' \<in> set (subscriptions db') \<and> sub_id s' = sub_id s
    \<and> used_bytes s' = used_bytes s + usage_of (snapshots db) (sub_id s) es
    \<and> (if usage_of (snapshots db) (sub_id s) es = 0 then s' = s
       else sub_state s' = (if sub_state s \<noteq> Sub_active then sub_state s
         else if sub_expireAt s \<le> tm then Sub_expired
         else if total_bytes s \<le> used_bytes s' then Sub_exhausted else Sub_active))"
proof -
  obtain es where es: "prepare_samples db n boot sq samples = Inr es"
    "subscriptions db' = map (\<lambda>s. if usage_of (snapshots db) (sub_id s) es = 0 then s
       else charged tm s (usage_of (snapshots db) (sub_id s) es) s) (subscriptions db)"
    "\<forall>s \<in> set (subscriptions db). 0 \<le> usage_of (snapshots db) (sub_id s) es"
    by (rule batch_rows [OF assms(1,2)])
  let ?u = "usage_of (snapshots db) (sub_id s) es"
  define s' where "s' = (if ?u = 0 then s else charged tm s ?u s)"
  have "s' \<in> set (subscriptions db')" unfolding es(2) using assms(3) by (auto simp: s'_def)
  moreover have used: "used_bytes s' = used_bytes s + ?u"
    using used_bytes_charged [of ?u tm s s] es(3) assms(3) by (auto simp: s'_def)
  moreover have "sub_state s' = (if sub_state s \<noteq> Sub_active then sub_state s
         else if sub_expireAt s \<le> tm then Sub_expired
         else if total_bytes s \<le> used_bytes s' then Sub_exhausted else Sub_active)" if "?u \<noteq> 0"
    unfolding used using that by (auto simp: s'_def charged_def Let_def next_state_def)
  ultimately show ?thesis using es(1) by (intro exI [of _ es] exI [of _ s']) (auto simp: s'_def)
qed

lemma demo_sub_row: "demo_sub \<in> set (subscriptions demo_db)" "distinct (map sub_id (subscriptions demo_db))"
  by (simp_all add: demo_db_def)

theorem batch_charges_exactly_witness:
  "\<exists>r db' es s'. applyDirectBatch demo_platform ''a1'' ''n1'' 100 ''boot-1'' 1 [demo_sample ''60'' ''80''] demo_db = Inr (r, db')
     \<and> s' \<in> set (subscriptions db') \<and> used_bytes s' = used_bytes demo_sub + usage_of (snapshots demo_db) ''s1'' es"
proof -
  obtain r db' where run: "applyDirectBatch demo_platform ''a1'' ''n1'' 100 ''boot-1'' 1 [demo_sample ''60'' ''80''] demo_db = Inr (r, db')"
    using demo_applies by (auto split: sum.splits)
  from batch_charges_exactly [OF run demo_sub_row(2,1)] run show ?thesis by (auto simp: demo_sub_def)
qed

text \<open>
  C25: after a batch is accounted the snapshots hold its readings, so accounting the same readings
  again would charge nothing.
\<close>

theorem batch_readings_kept:
  assumes "applyDirectBatch pf a n tm boot sq samples db = Inr (r, db')"
    and "prepare_samples db n boot sq samples = Inr es" and "inj_on en_key (set es)" and "e \<in> set es"
  shows "entry_bytes (snapshots db') e = 0
    \<and> (\<exists>s. tfind ts_snapshotKey (en_key e) (snapshots db') = Some s \<and> ts_uplinkBytes s = en_uplinkBytes e
         \<and> ts_downlinkBytes s = en_downlinkBytes e)"
  using batch_reads [OF assms] reads_no_bytes by (auto simp: reads_def)

theorem batch_readings_kept_witness:
  "\<exists>r db' e. applyDirectBatch demo_platform ''a1'' ''n1'' 100 ''boot-1'' 1 [demo_sample ''60'' ''80''] demo_db = Inr (r, db')
     \<and> prepare_samples demo_db ''n1'' ''boot-1'' 1 [demo_sample ''60'' ''80''] = Inr [e] \<and> entry_bytes (snapshots db') e = 0"
proof -
  obtain r db' where run: "applyDirectBatch demo_platform ''a1'' ''n1'' 100 ''boot-1'' 1 [demo_sample ''60'' ''80''] demo_db = Inr (r, db')"
    using demo_applies by (auto split: sum.splits)
  have "case prepare_samples demo_db ''n1'' ''boot-1'' 1 [demo_sample ''60'' ''80''] of Inr es \<Rightarrow> length es = 1 | Inl e \<Rightarrow> False"
    by code_simp
  then obtain e where es: "prepare_samples demo_db ''n1'' ''boot-1'' 1 [demo_sample ''60'' ''80''] = Inr [e]"
    by (auto simp: length_Suc_conv split: sum.splits)
  from batch_readings_kept [OF run es] run es show ?thesis by auto
qed



end
