(* ===== verification/AgentService.thy ===== *)
theory AgentService
  imports BatchAccounting
begin

text \<open>
  The control plane's agent service (\<open>agent/agent.service.ts\<close>): credentials, heartbeats,
  configuration, the intake of usage batches with their acknowledgement, and the command queue.
  A request runs in one transaction; the locks around it are the subject of \<open>UsageLocks\<close>.
\<close>

section \<open>Tokens\<close>

definition default_pepper :: string where
  "default_pepper = ''chordv-development-agent-token-pepper''"

definition hashAgentToken :: "platform \<Rightarrow> string \<Rightarrow> string" where
  "hashAgentToken pf token =
     (let configured = (case pf_pepper pf of None \<Rightarrow> [] | Some p \<Rightarrow> js_trim p);
          pepper = (if configured = [] then default_pepper else configured)
      in pf_sha256 pf (pepper @ '':'' @ token))"

text \<open>\<open>assertAgentTokenPepperReadyForProduction\<close>; \<open>nodeEnv\<close> is the variable \<open>NODE_ENV\<close>.\<close>

definition is_hex :: "char \<Rightarrow> bool" where
  "is_hex c \<longleftrightarrow> hex_val c \<noteq> None"

definition pepper_ready :: "platform \<Rightarrow> string \<Rightarrow> bool" where
  "pepper_ready pf nodeEnv \<longleftrightarrow> nodeEnv \<noteq> ''production'' \<or>
     (let pepper = (case pf_pepper pf of None \<Rightarrow> [] | Some p \<Rightarrow> js_trim p)
      in length pepper = 64 \<and> list_all is_hex pepper)"

text \<open>\<open>/^Bearer\s+([^\s]+)$/i\<close>.\<close>

definition readBearerToken :: "string option \<Rightarrow> string option" where
  "readBearerToken authorization = (case authorization of
       None \<Rightarrow> None
     | Some h \<Rightarrow>
         if toLowerCase (take 6 h) \<noteq> ''bearer'' then None
         else let rest = drop 6 h; token = dropWhile is_space rest in
           if rest = [] \<or> \<not> is_space (hd rest) \<or> token = [] \<or> list_ex is_space token then None else Some token)"

definition authenticate :: "platform \<Rightarrow> control_plane \<Rightarrow> string option \<Rightarrow> NodeAgent option" where
  "authenticate pf db authorization = (case readBearerToken authorization of
       None \<Rightarrow> None
     | Some token \<Rightarrow> find (\<lambda>a. na_tokenHash a = hashAgentToken pf token \<and> na_revokedAt a = None) (agents db))"

section \<open>Credentials\<close>

record AdminNodeAgentDto =
  ad_id :: string
  ad_agentId :: string
  ad_nodeId :: string
  ad_tokenPrefix :: string
  ad_version :: "string option"
  ad_status :: string
  ad_xrayStatus :: string
  ad_bootId :: "string option"
  ad_configRevision :: string
  ad_lastSequence :: string
  ad_lastAckSequence :: string
  ad_queueDepth :: nat
  ad_lastSeenAt :: "string option"
  ad_revokedAt :: "string option"

definition serializeAgent :: "platform \<Rightarrow> NodeAgent \<Rightarrow> AdminNodeAgentDto" where
  "serializeAgent pf a = \<lparr>ad_id = na_id a, ad_agentId = na_agentId a, ad_nodeId = na_nodeId a,
     ad_tokenPrefix = na_tokenPrefix a, ad_version = na_version a, ad_status = na_status a,
     ad_xrayStatus = na_xrayStatus a, ad_bootId = na_bootId a,
     ad_configRevision = bigint_toString (na_configRevision a), ad_lastSequence = bigint_toString (na_lastSequence a),
     ad_lastAckSequence = bigint_toString (na_lastAckSequence a), ad_queueDepth = na_queueDepth a,
     ad_lastSeenAt = map_option (pf_isoString pf) (na_lastSeenAt a),
     ad_revokedAt = map_option (pf_isoString pf) (na_revokedAt a)\<rparr>"

text \<open>An agent's row id, its identifier and the hash of its token are unique.\<close>

definition insert_agent :: "NodeAgent \<Rightarrow> (control_plane, NodeAgent) tx" where
  "insert_agent a db =
     (if na_id a \<in> na_id ` set (agents db) \<or> na_agentId a \<in> na_agentId ` set (agents db)
         \<or> na_tokenHash a \<in> na_tokenHash ` set (agents db)
      then Inl (DbError ''P2002'' ''nodeAgent'')
      else Inr (a, db\<lparr>agents := agents db @ [a]\<rparr>))"

definition new_agent :: "platform \<Rightarrow> string \<Rightarrow> string \<Rightarrow> string \<Rightarrow> string \<Rightarrow> NodeAgent" where
  "new_agent pf u agentId nodeId token =
     \<lparr>na_id = u, na_agentId = agentId, na_nodeId = nodeId, na_tokenHash = hashAgentToken pf token,
      na_tokenPrefix = take 20 token, na_version = None, na_status = ''offline'', na_bootId = None,
      na_lastSequence = 0, na_lastAckSequence = 0, na_configRevision = 0, na_queueDepth = 0,
      na_xrayStatus = ''unknown'', na_lastSeenAt = None, na_revokedAt = None, na_createdAt = pf_now pf\<rparr>"

definition createCredential ::
  "platform \<Rightarrow> string \<Rightarrow> string option \<Rightarrow> (control_plane, AdminNodeAgentDto \<times> string) tx" where
  "createCredential pf nodeId requestedAgentId =
     tbind (tread (\<lambda>db. tfind nd_id nodeId (nodes db))) (\<lambda>node.
     tbind (tfound node (NotFound ''node'')) (\<lambda>_.
     tbind (draw_random pf) (\<lambda>secret.
     let token = ''chordv_agent_'' @ secret;
         requested = (case requestedAgentId of None \<Rightarrow> [] | Some s \<Rightarrow> js_trim s) in
     tbind (if requested = [] then tbind (draw_random pf) (\<lambda>suffix. tret (nodeId @ ''-'' @ suffix)) else tret requested) (\<lambda>agentId.
     tbind (set_agents (\<lambda>a. na_nodeId a = nodeId \<and> na_revokedAt a = None)
              (\<lambda>a. a\<lparr>na_revokedAt := Some (pf_now pf), na_status := ''revoked''\<rparr>)) (\<lambda>_.
     tbind (draw_uuid pf) (\<lambda>u.
     tbind (insert_agent (new_agent pf u agentId nodeId token)) (\<lambda>agent.
     tret (serializeAgent pf agent, token))))))))"

definition listAgents :: "platform \<Rightarrow> control_plane \<Rightarrow> string \<Rightarrow> AdminNodeAgentDto list" where
  "listAgents pf db nodeId =
     map (serializeAgent pf) (sort_key (\<lambda>a. - na_createdAt a) (filter (\<lambda>a. na_nodeId a = nodeId) (agents db)))"

definition revokeCredential :: "platform \<Rightarrow> string \<Rightarrow> string \<Rightarrow> (control_plane, bool) tx" where
  "revokeCredential pf nodeId agentRecordId =
     (let live = (\<lambda>a. na_id a = agentRecordId \<and> na_nodeId a = nodeId \<and> na_revokedAt a = None) in
      tbind (tread (\<lambda>db. list_ex live (agents db))) (\<lambda>found.
      tbind (tassert found (NotFound ''credential'')) (\<lambda>_.
      tbind (set_agents live (\<lambda>a. a\<lparr>na_revokedAt := Some (pf_now pf), na_status := ''revoked''\<rparr>)) (\<lambda>_.
      tret True))))"

section \<open>Heartbeats\<close>

definition parseDecimalBigInt :: "string \<Rightarrow> string \<Rightarrow> (api_error, int) result" where
  "parseDecimalBigInt value field =
     (if decimal_pattern value then Inr (int (dec_val value)) else Inl (BadRequest field))"

record AgentHeartbeatDto =
  hd_bootId :: string
  hd_version :: string
  hd_configRevision :: string
  hd_queueDepth :: nat
  hd_xrayStatus :: string

record HeartbeatResult =
  hr_serverTime :: string
  hr_configRevision :: string
  hr_ackThrough :: string

text \<open>The live row of the authenticated agent; a revoked credential is refused.\<close>

definition live_agent :: "string \<Rightarrow> (control_plane, NodeAgent) tx" where
  "live_agent agentRecordId =
     tbind (tread (\<lambda>db. tfind na_id agentRecordId (agents db))) (\<lambda>row.
     tbind (tfound row (NotFound ''credential'')) (\<lambda>agent.
     tbind (tassert (na_revokedAt agent = None) (NotFound ''credential'')) (\<lambda>_.
     tret agent)))"

definition heartbeat :: "platform \<Rightarrow> NodeAgent \<Rightarrow> AgentHeartbeatDto \<Rightarrow> (control_plane, HeartbeatResult) tx" where
  "heartbeat pf agent input =
     tbind (tlift (parseDecimalBigInt (hd_configRevision input) ''configRevision'')) (\<lambda>configRevision.
     tbind (tread (\<lambda>db. tfind nd_id (na_nodeId agent) (nodes db))) (\<lambda>node.
     tbind (tfound node (NotFound ''node'')) (\<lambda>node.
     tbind (live_agent (na_id agent)) (\<lambda>current.
     let bootChanged = (na_bootId current \<noteq> Some (hd_bootId input));
         ack = (if bootChanged then 0 else na_lastAckSequence current) in
     tbind (set_agents (\<lambda>a. na_id a = na_id agent)
       (\<lambda>a. a\<lparr>na_bootId := Some (hd_bootId input), na_version := Some (hd_version input), na_status := ''online'',
              na_xrayStatus := hd_xrayStatus input, na_queueDepth := hd_queueDepth input,
              na_configRevision := configRevision, na_lastSeenAt := Some (pf_now pf),
              na_lastSequence := (if bootChanged then 0 else na_lastSequence a),
              na_lastAckSequence := (if bootChanged then 0 else na_lastAckSequence a)\<rparr>)) (\<lambda>_.
     tbind (set_nodes (\<lambda>n. nd_id n = na_nodeId agent)
       (\<lambda>n. n\<lparr>nd_agentLastSeenAt := Some (pf_now pf),
              nd_controlStatus := (if nd_controlMode node = Rollback_pending \<or> nd_controlStatus node = ''direct_cutover_pending''
                then nd_controlStatus n
                else if hd_xrayStatus input = ''healthy'' then ''online'' else hd_xrayStatus input)\<rparr>)) (\<lambda>_.
     tbind (twhen (na_xrayStatus current \<noteq> hd_xrayStatus input \<or>
              (hd_xrayStatus input = ''awaiting_inbound'' \<and>
               (case na_lastSeenAt current of None \<Rightarrow> True | Some t \<Rightarrow> pf_now pf - t \<ge> 60000)))
              (publish_admin (na_nodeId agent))) (\<lambda>_.
     tret \<lparr>hr_serverTime = pf_isoString pf (pf_now pf),
           hr_configRevision = bigint_toString (nd_agentConfigRevision node),
           hr_ackThrough = bigint_toString ack\<rparr>)))))))"

section \<open>Configuration\<close>

definition OFFLINE_ALLOWANCE_BYTES :: int where
  "OFFLINE_ALLOWANCE_BYTES = 64 * 1024 * 1024"

definition remaining_quota :: "Subscription \<Rightarrow> int" where
  "remaining_quota s =
     (if sub_totalTrafficBytes s > 0
      then if sub_totalTrafficBytes s > sub_usedTrafficBytes s then sub_totalTrafficBytes s - sub_usedTrafficBytes s else 0
      else trafficGbNumberToBytes (sub_remainingTrafficGb s))"

definition desired_user :: "Node \<Rightarrow> PanelClientBinding \<times> Subscription \<Rightarrow> DesiredUser" where
  "desired_user node p = (case p of (b, s) \<Rightarrow>
     \<lparr>du_bindingId = pb_id b, du_revision = bigint_toString (pb_directRevision b), du_email = pb_panelClientEmail b,
      du_uuid = pb_panelClientId b,
      du_flow = Some (if irf_flow (nd_endpoint node) = Xtls_rprx_vision then Xtls_rprx_vision else No_flow),
      du_enabled = (pb_status b = ''active'' \<and> sub_state s = Sub_active),
      du_quotaRemainingBytes = bigint_toString (remaining_quota s),
      du_offlineAllowanceBytes = bigint_toString OFFLINE_ALLOWANCE_BYTES\<rparr>)"

text \<open>A binding with the subscription its foreign key names.\<close>

definition with_subscription :: "control_plane \<Rightarrow> PanelClientBinding \<Rightarrow> (PanelClientBinding \<times> Subscription) option" where
  "with_subscription db b = map_option (Pair b) (tfind sub_id (pb_subscriptionId b) (subscriptions db))"

definition getConfig :: "control_plane \<Rightarrow> NodeAgent \<Rightarrow> (api_error, AgentConfigSnapshot) result" where
  "getConfig db agent = (case tfind nd_id (na_nodeId agent) (nodes db) of
       None \<Rightarrow> Inl (NotFound ''node'')
     | Some node \<Rightarrow>
         let rows = sort_key pb_id (filter (\<lambda>b. pb_nodeId b = nd_id node \<and> pb_status b = ''active'') (bindings db));
             shown = filter (\<lambda>b. nd_controlMode node \<noteq> Direct_primary \<or> pb_source b = Direct) rows
         in Inr \<lparr>snap_nodeId = nd_id node, snap_revision = bigint_toString (nd_agentConfigRevision node),
                 snap_controlMode = nd_controlMode node,
                 snap_users = map (desired_user node) (List.map_filter (with_subscription db) shown)\<rparr>)"

end
