(* ===== verification/AgentDto.thy ===== *)
theory AgentDto
  imports AgentService
begin

text \<open>
  The request bodies of the agent's endpoints with their validation
  (\<open>agent/agent.dto.ts\<close>), the guard in front of them (\<open>agent/agent-auth.guard.ts\<close>) and the
  address an agent is told (\<open>agent/agent.controller.ts\<close>).  A body that fails validation is
  refused before a handler sees it.
\<close>

section \<open>Validation\<close>

definition short_text :: "nat \<Rightarrow> string \<Rightarrow> bool" where
  "short_text limit s \<longleftrightarrow> s \<noteq> [] \<and> length s \<le> limit"

text \<open>\<open>@Matches(DECIMAL_INTEGER) @MaxLength(30)\<close>.\<close>

definition bytes_text :: "string \<Rightarrow> bool" where
  "bytes_text s \<longleftrightarrow> decimal_pattern s \<and> length s \<le> 30"

definition xray_statuses :: "string list" where
  "xray_statuses = [''unknown'', ''healthy'', ''degraded'', ''offline'', ''awaiting_inbound'']"

definition valid_heartbeat :: "AgentHeartbeatDto \<Rightarrow> bool" where
  "valid_heartbeat h \<longleftrightarrow> short_text 128 (hd_bootId h) \<and> short_text 64 (hd_version h)
     \<and> decimal_pattern (hd_configRevision h) \<and> hd_queueDepth h \<le> 10000000
     \<and> hd_xrayStatus h \<in> set xray_statuses"

definition valid_sample :: "UsageSample \<Rightarrow> bool" where
  "valid_sample s \<longleftrightarrow> short_text 128 (us_bindingId s) \<and> decimal_pattern (us_counterGeneration s)
     \<and> bytes_text (us_uplinkBytes s) \<and> bytes_text (us_downlinkBytes s)
     \<and> bytes_text (us_uplinkDeltaBytes s) \<and> bytes_text (us_downlinkDeltaBytes s)"

text \<open>A batch number is a positive decimal; \<open>isDate\<close> stands for the validator's ISO 8601 test.\<close>

definition valid_batch :: "(string \<Rightarrow> bool) \<Rightarrow> UsageBatch \<Rightarrow> bool" where
  "valid_batch isDate b \<longleftrightarrow> short_text 128 (ub_bootId b)
     \<and> decimal_pattern (ub_sequence b) \<and> ub_sequence b \<noteq> ''0'' \<and> isDate (ub_sampledAt b)
     \<and> length (ub_samples b) \<le> 5000 \<and> list_all valid_sample (ub_samples b)"

record AgentCommandResultDto =
  cr_status :: command_status
  cr_output :: "json_object option"
  cr_error :: "string option"

definition valid_result :: "AgentCommandResultDto \<Rightarrow> bool" where
  "valid_result r \<longleftrightarrow> (case cr_error r of None \<Rightarrow> True | Some e \<Rightarrow> length e \<le> 4000)"

record AgentRegisterDto =
  rg_xrayInboundTag :: "string option"
  rg_registerToken :: string
  rg_agentToken :: string
  rg_hostname :: string
  rg_arch :: string
  rg_agentVersion :: string
  rg_xrayVersion :: "string option"
  rg_bootId :: string

text \<open>\<open>/^chordv_agent_[A-Za-z0-9_-]{43,128}$/\<close>.\<close>

definition token_char :: "char \<Rightarrow> bool" where
  "token_char c \<longleftrightarrow> is_alnum c \<or> c = CHR ''_'' \<or> c = CHR ''-''"

definition agent_token_ok :: "string \<Rightarrow> bool" where
  "agent_token_ok s \<longleftrightarrow> take 13 s = ''chordv_agent_'' \<and>
     (let secret = drop 13 s in 43 \<le> length secret \<and> length secret \<le> 128 \<and> list_all token_char secret)"

definition valid_register :: "AgentRegisterDto \<Rightarrow> bool" where
  "valid_register r \<longleftrightarrow>
     (case rg_xrayInboundTag r of None \<Rightarrow> True | Some t \<Rightarrow> tag_ok t)
     \<and> short_text 128 (rg_registerToken r) \<and> agent_token_ok (rg_agentToken r)
     \<and> short_text 255 (rg_hostname r) \<and> rg_arch r \<in> set [''linux-x64'', ''linux-arm64'']
     \<and> short_text 64 (rg_agentVersion r)
     \<and> (case rg_xrayVersion r of None \<Rightarrow> True | Some v \<Rightarrow> length v \<le> 64)
     \<and> short_text 128 (rg_bootId r)"

record QueueAgentCommandDto =
  qc_type :: command_type
  qc_targetRevision :: "string option"
  qc_payload :: json_object
  qc_dedupeKey :: "string option"
  qc_expectedInboundAppliedRevision :: "string option"

definition optional_decimal :: "string option \<Rightarrow> bool" where
  "optional_decimal v = (case v of None \<Rightarrow> True | Some s \<Rightarrow> decimal_pattern s)"

definition valid_queue :: "QueueAgentCommandDto \<Rightarrow> bool" where
  "valid_queue q \<longleftrightarrow> optional_decimal (qc_targetRevision q)
     \<and> (case qc_dedupeKey q of None \<Rightarrow> True | Some k \<Rightarrow> short_text 256 k)
     \<and> optional_decimal (qc_expectedInboundAppliedRevision q)"

section \<open>The guard\<close>

record AgentAuthenticatedRequest =
  rq_authorization :: "string option"
  rq_agentId :: "string option"
  rq_nodeId :: "string option"
  rq_ip :: "string option"

definition canActivate :: "platform \<Rightarrow> control_plane \<Rightarrow> AgentAuthenticatedRequest \<Rightarrow> (api_error, NodeAgent) result" where
  "canActivate pf db request = (case authenticate pf db (rq_authorization request) of
       None \<Rightarrow> Inl (Unauthorized ''agent'')
     | Some a \<Rightarrow>
         if rq_agentId request \<noteq> Some (na_agentId a) \<or> rq_nodeId request \<noteq> Some (na_nodeId a)
         then Inl (Unauthorized ''agent'') else Inr a)"

text \<open>An IPv4 peer of a dual-stack socket is reported as IPv4.\<close>

definition normalizeObservedIp :: "string option \<Rightarrow> string" where
  "normalizeObservedIp v =
     (let address = (case v of None \<Rightarrow> [] | Some s \<Rightarrow> js_trim s)
      in if take 7 address = ''::ffff:'' then drop 7 address else address)"

definition whoami :: "platform \<Rightarrow> control_plane \<Rightarrow> AgentAuthenticatedRequest \<Rightarrow> (api_error, string) result" where
  "whoami pf db request = rbind (canActivate pf db request) (\<lambda>_. Inr (normalizeObservedIp (rq_ip request)))"

section \<open>Laws\<close>

lemma valid_batch_sequence:
  assumes "valid_batch isDate b"
  shows "js_BigInt (ub_sequence b) = Some (int (dec_val (ub_sequence b)))" and "1 \<le> dec_val (ub_sequence b)"
proof -
  from assms have "decimal_pattern (ub_sequence b)" and nz: "ub_sequence b \<noteq> ''0''"
    by (simp_all add: valid_batch_def)
  then show "js_BigInt (ub_sequence b) = Some (int (dec_val (ub_sequence b)))" by (simp add: js_BigInt_decimal)
  have "show_nat (dec_val (ub_sequence b)) = ub_sequence b"
    using \<open>decimal_pattern (ub_sequence b)\<close> by (rule show_nat_dec_val)
  with nz show "1 \<le> dec_val (ub_sequence b)" by (cases "dec_val (ub_sequence b)") auto
qed

text \<open>
  C34: whoever passes the guard is the unrevoked agent whose stored hash is that of the presented
  token, on the node the request names; a revoked credential passes no request.
\<close>

theorem guard_admits_only_live_agents:
  assumes "canActivate pf db request = Inr a"
  shows "a \<in> set (agents db) \<and> na_revokedAt a = None \<and> rq_agentId request = Some (na_agentId a)
    \<and> rq_nodeId request = Some (na_nodeId a)
    \<and> (\<exists>token. readBearerToken (rq_authorization request) = Some token \<and> na_tokenHash a = hashAgentToken pf token)"
  using assms by (auto simp: canActivate_def authenticate_def find_Some_iff split: option.splits if_splits)

definition demo_request :: AgentAuthenticatedRequest where
  "demo_request = \<lparr>rq_authorization = Some ''Bearer t1'', rq_agentId = Some ''agent-1'', rq_nodeId = Some ''n1'',
     rq_ip = Some ''::ffff:8.8.8.8''\<rparr>"

definition demo_credential :: NodeAgent where
  "demo_credential = demo_agent\<lparr>na_tokenHash := hashAgentToken demo_platform ''t1''\<rparr>"

lemma demo_admitted:
  "canActivate demo_platform (demo_db\<lparr>agents := [demo_credential]\<rparr>) demo_request = Inr demo_credential"
  by code_simp

theorem guard_admits_only_live_agents_witness:
  "canActivate demo_platform (demo_db\<lparr>agents := [demo_credential]\<rparr>) demo_request = Inr demo_credential
    \<and> na_revokedAt demo_credential = None"
  using demo_admitted guard_admits_only_live_agents [OF demo_admitted] by simp

end
