(* ===== verification/BatchIntake.thy ===== *)
theory BatchIntake
  imports AgentDto
begin

text \<open>
  The intake of usage batches (\<open>agent/agent.service.ts\<close>): an upload is stored once under its
  node, boot and number, the contiguous run of stored batches is accounted in order, and the
  acknowledgement names the last number of that run.  The transaction is retried on a database
  fault; events are published after it committed.
\<close>

section \<open>Retrying a transaction\<close>

fun contains_text :: "string \<Rightarrow> string \<Rightarrow> bool" where
  "contains_text p [] = (p = [])"
| "contains_text p (c # s) = (take (length p) (c # s) = p \<or> contains_text p s)"

definition transient_messages :: "string list" where
  "transient_messages = [''transaction already closed'', ''unable to start a transaction'', ''transaction not found'',
     ''write conflict'', ''deadlock'', ''timeout expired'']"

definition error_message :: "api_error \<Rightarrow> string" where
  "error_message e = (case e of BadRequest s \<Rightarrow> s | NotFound s \<Rightarrow> s | ConflictError s \<Rightarrow> s | RangeError \<Rightarrow> [] | Forbidden s \<Rightarrow> s
     | Unauthorized s \<Rightarrow> s | DbError _ s \<Rightarrow> s)"

text \<open>A \<open>DbError\<close> carries the code of a known request error; an empty code is any other error.\<close>

definition isRetryableAgentTransactionError :: "api_error \<Rightarrow> bool" where
  "isRetryableAgentTransactionError e =
     (let message = list_ex (\<lambda>p. contains_text p (toLowerCase (error_message e))) transient_messages in
      case e of
        DbError code _ \<Rightarrow>
          if code = ''P2034'' \<or> code = ''P1008'' then True
          else if code \<noteq> [] \<and> code \<noteq> ''P2028'' then False else message
      | _ \<Rightarrow> message)"

definition MAX_SERIALIZABLE_RETRIES :: nat where
  "MAX_SERIALIZABLE_RETRIES = 3"

text \<open>\<open>fault n\<close> is the error the database raises in the \<open>n\<close>-th attempt, if it raises one.\<close>

type_synonym db_faults = "nat \<Rightarrow> api_error option"

definition attempt_tx :: "db_faults \<Rightarrow> ('s, 'a) tx \<Rightarrow> 's \<Rightarrow> nat \<Rightarrow> (api_error, 'a \<times> 's) result" where
  "attempt_tx fault m s n = (case fault n of Some e \<Rightarrow> Inl e | None \<Rightarrow> m s)"

definition withSerializableRetry :: "db_faults \<Rightarrow> ('s, 'a) tx \<Rightarrow> ('s, 'a) tx" where
  "withSerializableRetry fault m s =
     retry_loop MAX_SERIALIZABLE_RETRIES isRetryableAgentTransactionError (attempt_tx fault m s) 1"

section \<open>Acknowledging\<close>

definition MAX_CONTIGUOUS_BATCHES_PER_TRANSACTION :: nat where
  "MAX_CONTIGUOUS_BATCHES_PER_TRANSACTION = 4"

text \<open>The stored batches of one agent and boot after a number, in order.\<close>

definition batches_after :: "nat \<Rightarrow> string \<Rightarrow> string \<Rightarrow> string \<Rightarrow> int \<Rightarrow> control_plane \<Rightarrow> NodeUsageBatch list" where
  "batches_after limit agentId nodeId bootId ack db =
     take limit (sort_key nb_sequence (filter (\<lambda>b. nb_agentId b = agentId \<and> nb_nodeId b = nodeId
       \<and> nb_bootId b = bootId \<and> nb_sequence b > ack) (usage_batches db)))"

fun contiguous_ack :: "NodeUsageBatch list \<Rightarrow> int \<Rightarrow> int" where
  "contiguous_ack [] ack = ack"
| "contiguous_ack (b # bs) ack = (if nb_sequence b \<noteq> ack + 1 then ack else contiguous_ack bs (nb_sequence b))"

definition advanceAck :: "string \<Rightarrow> string \<Rightarrow> string \<Rightarrow> int \<Rightarrow> (control_plane, int) tx" where
  "advanceAck agentId nodeId bootId currentAck =
     tread (\<lambda>db. contiguous_ack (batches_after 10000 agentId nodeId bootId currentAck db) currentAck)"

record intake =
  in_ackThrough :: int
  in_transitions :: "SubscriptionTransition list"
  in_commandAgentIds :: "string list"

definition account_batch :: "platform \<Rightarrow> string \<Rightarrow> string \<Rightarrow> string \<Rightarrow> NodeUsageBatch \<Rightarrow> intake \<Rightarrow> (control_plane, intake) tx" where
  "account_batch pf agentId nodeId bootId b acc =
     tbind (applyDirectBatch pf agentId nodeId (nb_sampledAt b) bootId (nb_sequence b) (ub_samples (nb_payload b))) (\<lambda>applied.
     tbind (set_batches (\<lambda>r. nb_id r = nb_id b) (\<lambda>r. r\<lparr>nb_accountedAt := Some (pf_now pf)\<rparr>)) (\<lambda>_.
     tret (acc\<lparr>in_transitions := in_transitions acc @ da_transitions applied,
               in_commandAgentIds := remdups (in_commandAgentIds acc @ da_commandAgentIds applied)\<rparr>)))"

fun account_loop :: "platform \<Rightarrow> string \<Rightarrow> string \<Rightarrow> string \<Rightarrow> NodeUsageBatch list \<Rightarrow> intake \<Rightarrow> (control_plane, intake) tx" where
  "account_loop pf agentId nodeId bootId [] acc = tret acc"
| "account_loop pf agentId nodeId bootId (b # bs) acc =
     (if nb_sequence b \<noteq> in_ackThrough acc + 1 then tret acc
      else
        tbind (if nb_accountedAt b = None then account_batch pf agentId nodeId bootId b acc else tret acc) (\<lambda>acc.
        account_loop pf agentId nodeId bootId bs (acc\<lparr>in_ackThrough := nb_sequence b\<rparr>)))"

definition accountContiguousBatches ::
  "platform \<Rightarrow> string \<Rightarrow> string \<Rightarrow> string \<Rightarrow> int \<Rightarrow> (control_plane, intake) tx" where
  "accountContiguousBatches pf agentId nodeId bootId currentAck =
     tbind (tread (batches_after MAX_CONTIGUOUS_BATCHES_PER_TRANSACTION agentId nodeId bootId currentAck)) (\<lambda>bs.
     account_loop pf agentId nodeId bootId bs
       \<lparr>in_ackThrough = currentAck, in_transitions = [], in_commandAgentIds = []\<rparr>)"

section \<open>One upload\<close>

definition sample_json :: "UsageSample \<Rightarrow> json" where
  "sample_json s = JObj [(''bindingId'', JStr (us_bindingId s)), (''counterGeneration'', JStr (us_counterGeneration s)),
     (''uplinkBytes'', JStr (us_uplinkBytes s)), (''downlinkBytes'', JStr (us_downlinkBytes s)),
     (''uplinkDeltaBytes'', JStr (us_uplinkDeltaBytes s)), (''downlinkDeltaBytes'', JStr (us_downlinkDeltaBytes s))]"

definition canonicalBatchPayload :: "UsageBatch \<Rightarrow> json" where
  "canonicalBatchPayload b = JObj [(''bootId'', JStr (ub_bootId b)), (''sequence'', JStr (ub_sequence b)),
     (''sampledAt'', JStr (ub_sampledAt b)), (''samples'', JArr (map sample_json (ub_samples b)))]"

text \<open>The unique key \<open>nodeId_bootId_sequence\<close> of the table.\<close>

definition batch_key :: "NodeUsageBatch \<Rightarrow> string \<times> string \<times> int" where
  "batch_key b = (nb_nodeId b, nb_bootId b, nb_sequence b)"

definition insert_batch :: "NodeUsageBatch \<Rightarrow> (control_plane, unit) tx" where
  "insert_batch b db =
     (if batch_key b \<in> batch_key ` set (usage_batches db) \<or> nb_id b \<in> nb_id ` set (usage_batches db)
      then Inl (DbError ''P2002'' ''nodeUsageBatch'')
      else Inr ((), db\<lparr>usage_batches := usage_batches db @ [b]\<rparr>))"

record AgentUsageBatchAckDto =
  au_accepted :: bool
  au_duplicate :: bool
  au_ackThrough :: string

record intake_outcome =
  io_ack :: AgentUsageBatchAckDto
  io_transitions :: "SubscriptionTransition list"
  io_commandAgentIds :: "string list"

definition store_batch :: "platform \<Rightarrow> NodeAgent \<Rightarrow> UsageBatch \<Rightarrow> int \<Rightarrow> (control_plane, unit) tx" where
  "store_batch pf agent input sequence =
     tbind (draw_uuid pf) (\<lambda>u.
     insert_batch \<lparr>nb_id = u, nb_nodeId = na_nodeId agent, nb_agentId = na_id agent, nb_bootId = ub_bootId input,
       nb_sequence = sequence, nb_payloadHash = pf_sha256json pf (canonicalBatchPayload input), nb_payload = input,
       nb_sampledAt = pf_parseDate pf (ub_sampledAt input), nb_accountedAt = None, nb_createdAt = pf_now pf\<rparr>)"

text \<open>Whether the batch is already stored; another content under its number is a conflict.\<close>

definition already_stored :: "platform \<Rightarrow> NodeAgent \<Rightarrow> UsageBatch \<Rightarrow> int \<Rightarrow> (control_plane, bool) tx" where
  "already_stored pf agent input sequence =
     tbind (tread (\<lambda>db. tfind batch_key (na_nodeId agent, ub_bootId input, sequence) (usage_batches db))) (\<lambda>existing.
     case existing of
       None \<Rightarrow> tret False
     | Some b \<Rightarrow>
         tbind (tassert (nb_payloadHash b = pf_sha256json pf (canonicalBatchPayload input)) (ConflictError ''sequence'')) (\<lambda>_.
         tret True))"

text \<open>A boot other than the recorded one starts its numbers over.\<close>

definition switch_boot :: "NodeAgent \<Rightarrow> string \<Rightarrow> (control_plane, int \<times> int) tx" where
  "switch_boot current bootId =
     (case na_bootId current of
        None \<Rightarrow> tret (na_lastSequence current, na_lastAckSequence current)
      | Some boot \<Rightarrow>
          if boot = [] \<or> boot = bootId then tret (na_lastSequence current, na_lastAckSequence current)
          else
            tbind (set_agents (\<lambda>a. na_id a = na_id current)
              (\<lambda>a. a\<lparr>na_bootId := Some bootId, na_lastSequence := 0, na_lastAckSequence := 0\<rparr>)) (\<lambda>_.
            tret (0, 0)))"

definition process_stored :: "platform \<Rightarrow> NodeAgent \<Rightarrow> Node \<Rightarrow> string \<Rightarrow> int \<Rightarrow> (control_plane, intake) tx" where
  "process_stored pf agent node bootId ack =
     (if nd_controlMode node = Direct_primary
      then accountContiguousBatches pf (na_id agent) (na_nodeId agent) bootId ack
      else tbind (advanceAck (na_id agent) (na_nodeId agent) bootId ack) (\<lambda>n.
        tret \<lparr>in_ackThrough = n, in_transitions = [], in_commandAgentIds = []\<rparr>))"

definition record_ack :: "platform \<Rightarrow> NodeAgent \<Rightarrow> string \<Rightarrow> int \<Rightarrow> int \<Rightarrow> (control_plane, unit) tx" where
  "record_ack pf agent bootId lastSequence ack =
     set_agents (\<lambda>a. na_id a = na_id agent)
       (\<lambda>a. a\<lparr>na_bootId := Some bootId, na_lastSequence := lastSequence, na_lastAckSequence := ack,
              na_lastSeenAt := Some (pf_now pf), na_status := ''online''\<rparr>)"

definition ingest_tx :: "platform \<Rightarrow> NodeAgent \<Rightarrow> UsageBatch \<Rightarrow> int \<Rightarrow> (control_plane, intake_outcome) tx" where
  "ingest_tx pf agent input sequence =
     tbind (live_agent (na_id agent)) (\<lambda>current.
     tbind (already_stored pf agent input sequence) (\<lambda>existing.
     tbind (tread (\<lambda>db. tfind nd_id (na_nodeId agent) (nodes db))) (\<lambda>row.
     tbind (tfound row (NotFound ''node'')) (\<lambda>node.
     tbind (switch_boot current (ub_bootId input)) (\<lambda>(lastSequence, lastAck).
     tbind (twhen (\<not> existing) (store_batch pf agent input sequence)) (\<lambda>_.
     tbind (process_stored pf agent node (ub_bootId input) lastAck) (\<lambda>processed.
     tbind (record_ack pf agent (ub_bootId input) (if sequence > lastSequence then sequence else lastSequence)
              (in_ackThrough processed)) (\<lambda>_.
     tret \<lparr>io_ack = \<lparr>au_accepted = True, au_duplicate = existing, au_ackThrough = bigint_toString (in_ackThrough processed)\<rparr>,
           io_transitions = in_transitions processed,
           io_commandAgentIds = in_commandAgentIds processed\<rparr>))))))))"

definition serializeCommand :: "platform \<Rightarrow> NodeCommandJob \<Rightarrow> AgentCommand" where
  "serializeCommand pf job = \<lparr>cmd_id = jb_id job, cmd_type = jb_commandType job,
     cmd_targetRevision = bigint_toString (jb_targetRevision job), cmd_payload = jb_payload job,
     cmd_createdAt = pf_isoString pf (jb_createdAt job)\<rparr>"

definition publish_job :: "platform \<Rightarrow> NodeCommandJob \<Rightarrow> (control_plane, unit) tx" where
  "publish_job pf job = (case jb_agentId job of
       None \<Rightarrow> tret () | Some a \<Rightarrow> twhen (a \<noteq> []) (publish_command a (serializeCommand pf job)))"

definition publish_pending :: "platform \<Rightarrow> string list \<Rightarrow> (control_plane, unit) tx" where
  "publish_pending pf agentIds =
     tbind (tread (\<lambda>db. take 100 (sort_key jb_createdAt (filter (\<lambda>j. jb_status j = Job_pending
              \<and> (\<exists>a \<in> set agentIds. jb_agentId j = Some a)) (command_jobs db))))) (\<lambda>pending.
     tfor pending (publish_job pf))"

definition ingestUsageBatch ::
  "platform \<Rightarrow> db_faults \<Rightarrow> NodeAgent \<Rightarrow> UsageBatch \<Rightarrow> (control_plane, AgentUsageBatchAckDto) tx" where
  "ingestUsageBatch pf fault agent input =
     tbind (tfound (js_BigInt (ub_sequence input)) (BadRequest ''sequence'')) (\<lambda>sequence.
     tbind (withSerializableRetry fault (ingest_tx pf agent input sequence)) (\<lambda>outcome.
     tbind (tfor (io_transitions outcome) publish_transition) (\<lambda>_.
     tbind (publish_pending pf (na_id agent # io_commandAgentIds outcome)) (\<lambda>_.
     tret (io_ack outcome)))))"

text \<open>The endpoint: the body is validated first.\<close>

definition usageBatches ::
  "platform \<Rightarrow> (string \<Rightarrow> bool) \<Rightarrow> db_faults \<Rightarrow> NodeAgent \<Rightarrow> UsageBatch \<Rightarrow> (control_plane, AgentUsageBatchAckDto) tx" where
  "usageBatches pf isDate fault agent body =
     tbind (tassert (valid_batch isDate body) (BadRequest ''body'')) (\<lambda>_. ingestUsageBatch pf fault agent body)"

definition demo_batch :: "string \<Rightarrow> string \<Rightarrow> string \<Rightarrow> UsageBatch" where
  "demo_batch n up down = \<lparr>ub_bootId = ''boot-1'', ub_sequence = n, ub_sampledAt = ''2026'',
     ub_samples = [demo_sample up down]\<rparr>"

lemma demo_intake:
  "case usageBatches demo_platform (\<lambda>_. True) (\<lambda>n. if n = 1 then Some (DbError ''P2034'' []) else None)
      demo_agent (demo_batch ''1'' ''60'' ''80'') demo_db of
     Inl e \<Rightarrow> False
   | Inr (ack, db) \<Rightarrow> ack = \<lparr>au_accepted = True, au_duplicate = False, au_ackThrough = ''1''\<rparr>
       \<and> map sub_usedTrafficBytes (subscriptions db) = [1010] \<and> length (out_commands db) = 1
       \<and> length (out_transitions db) = 1"
  by code_simp

end
