(* ===== verification/IntakeSpec.thy ===== *)
theory IntakeSpec
  imports BatchIntake
begin

text \<open>
  What an upload does, in closed form: which stored batches the contiguous run takes, that each
  of them is accounted once, and that the acknowledged numbers are exactly those of the run.
\<close>

section \<open>The run\<close>

text \<open>The batches numbered from \<open>ack + 1\<close> on without a gap.\<close>

fun taken :: "NodeUsageBatch list \<Rightarrow> int \<Rightarrow> NodeUsageBatch list" where
  "taken [] ack = []"
| "taken (b # bs) ack = (if nb_sequence b \<noteq> ack + 1 then [] else b # taken bs (ack + 1))"

lemma taken_subset: "set (taken bs ack) \<subseteq> set bs"
  by (induction bs ack rule: taken.induct) auto

lemma taken_length: "length (taken bs ack) \<le> length bs"
  by (induction bs ack rule: taken.induct) auto

lemma contiguous_ack_taken: "contiguous_ack bs ack = ack + int (length (taken bs ack))"
  by (induction bs ack rule: taken.induct) auto

lemma taken_numbers: "map nb_sequence (taken bs ack) = [ack + 1 .. ack + int (length (taken bs ack))]"
proof (induction bs ack rule: taken.induct)
  case (1 ack)
  then show ?case by simp
next
  case (2 b bs ack)
  show ?case
  proof (cases "nb_sequence b = ack + 1")
    case True
    have "[ack + 1 .. ack + int (Suc (length (taken bs (ack + 1))))] =
        (ack + 1) # [ack + 2 .. ack + 1 + int (length (taken bs (ack + 1)))]"
      by (subst upto.simps) (auto simp: algebra_simps)
    with True 2 show ?thesis by (simp add: algebra_simps)
  next
    case False
    then show ?thesis by simp
  qed
qed

lemma taken_covers:
  assumes "ack < k" and "k \<le> ack + int (length (taken bs ack))"
  shows "\<exists>b \<in> set (taken bs ack). nb_sequence b = k"
proof -
  from assms have "k \<in> set (map nb_sequence (taken bs ack))" unfolding taken_numbers by simp
  then show ?thesis by auto
qed

lemma taken_sequence: "b \<in> set (taken bs ack) \<Longrightarrow> ack < nb_sequence b \<and> nb_sequence b \<le> ack + int (length (taken bs ack))"
proof -
  assume "b \<in> set (taken bs ack)"
  then have "nb_sequence b \<in> set (map nb_sequence (taken bs ack))" by simp
  then show ?thesis unfolding taken_numbers by simp
qed

section \<open>Frames\<close>

lemma applyDirectBatch_frame:
  assumes "\<And>db t. view (db\<lparr>command_jobs := t\<rparr>) = view db" "\<And>db n. view (db\<lparr>fresh := n\<rparr>) = view db"
    "\<And>db t. view (db\<lparr>nodes := t\<rparr>) = view db" "\<And>db t. view (db\<lparr>bindings := t\<rparr>) = view db"
    "\<And>db t. view (db\<lparr>lease_jobs := t\<rparr>) = view db" "\<And>db t. view (db\<lparr>snapshots := t\<rparr>) = view db"
    "\<And>db t. view (db\<lparr>subscriptions := t\<rparr>) = view db" "\<And>db t. view (db\<lparr>ledger_rows := t\<rparr>) = view db"
  shows "tframe view (applyDirectBatch pf a n tm boot sq samples)"
  unfolding applyDirectBatch_def charge_tally_def charge_subscription_def Let_def
  by (intro tframe_intros disable_frame revoke_frame write_changed_frame write_unchanged_frame tally_frame
      tframe_twrite assms)

lemma batch_leaves: "tframe usage_batches (applyDirectBatch pf a n tm boot sq samples)"
  "tframe agents (applyDirectBatch pf a n tm boot sq samples)"
  by (rule applyDirectBatch_frame; simp)+

text \<open>The tables accounting writes; publishing and storing leave them alone.\<close>

definition metering :: "control_plane \<Rightarrow> Subscription list \<times> PanelClientBinding list \<times> TrafficSnapshot list \<times> TrafficLedger list" where
  "metering db = (subscriptions db, bindings db, snapshots db, ledger_rows db)"

lemma metering_update [simp]:
  "metering (db\<lparr>usage_batches := b\<rparr>) = metering db" "metering (db\<lparr>agents := a\<rparr>) = metering db"
  "metering (db\<lparr>fresh := n\<rparr>) = metering db" "metering (db\<lparr>nodes := x\<rparr>) = metering db"
  "metering (db\<lparr>command_jobs := j\<rparr>) = metering db" "metering (db\<lparr>lease_jobs := l\<rparr>) = metering db"
  "metering (db\<lparr>out_commands := oc\<rparr>) = metering db" "metering (db\<lparr>out_transitions := ot\<rparr>) = metering db"
  "metering (db\<lparr>out_admin := oa\<rparr>) = metering db"
  by (simp_all add: metering_def)

section \<open>The loop\<close>

definition due :: "NodeUsageBatch list \<Rightarrow> int \<Rightarrow> NodeUsageBatch list" where
  "due bs ack = filter (\<lambda>b. nb_accountedAt b = None) (taken bs ack)"

definition mark_accounted :: "platform \<Rightarrow> NodeUsageBatch list \<Rightarrow> NodeUsageBatch list \<Rightarrow> NodeUsageBatch list" where
  "mark_accounted pf bs rows = tmodify (\<lambda>r. nb_id r \<in> nb_id ` set bs) (\<lambda>r. r\<lparr>nb_accountedAt := Some (pf_now pf)\<rparr>) rows"

lemma mark_accounted_Nil [simp]: "mark_accounted pf [] rows = rows"
  by (simp add: mark_accounted_def tmodify_id)

lemma mark_accounted_Cons:
  "mark_accounted pf bs (mark_accounted pf [b] rows) = mark_accounted pf (b # bs) rows"
  by (auto simp: mark_accounted_def tmodify_def)

lemma account_batch_effect:
  assumes "account_batch pf a n boot b acc db = Inr (acc', db')"
  shows "in_ackThrough acc' = in_ackThrough acc" "agents db' = agents db"
    "usage_batches db' = mark_accounted pf [b] (usage_batches db)"
proof -
  from assms obtain r db1 where run:
    "applyDirectBatch pf a n (nb_sampledAt b) boot (nb_sequence b) (ub_samples (nb_payload b)) db = Inr (r, db1)"
    and rest: "in_ackThrough acc' = in_ackThrough acc"
      "db' = db1\<lparr>usage_batches := tmodify (\<lambda>r. nb_id r = nb_id b) (\<lambda>r. r\<lparr>nb_accountedAt := Some (pf_now pf)\<rparr>) (usage_batches db1)\<rparr>"
    by (auto simp: account_batch_def tx_simps set_batches_def)
  have "usage_batches db1 = usage_batches db" "agents db1 = agents db"
    by (rule tframeD [OF batch_leaves(1) run], rule tframeD [OF batch_leaves(2) run])
  with rest show "in_ackThrough acc' = in_ackThrough acc" "agents db' = agents db"
    "usage_batches db' = mark_accounted pf [b] (usage_batches db)"
    by (simp_all add: mark_accounted_def)
qed

lemma account_loop_effect:
  assumes "account_loop pf a n boot bs acc db = Inr (acc', db')"
  shows "in_ackThrough acc' = in_ackThrough acc + int (length (taken bs (in_ackThrough acc)))
    \<and> usage_batches db' = mark_accounted pf (due bs (in_ackThrough acc)) (usage_batches db)
    \<and> agents db' = agents db \<and> (due bs (in_ackThrough acc) = [] \<longrightarrow> db' = db)"
  using assms
proof (induction bs arbitrary: acc db)
  case Nil
  then show ?case by (simp add: due_def)
next
  case (Cons b bs)
  show ?case
  proof (cases "nb_sequence b = in_ackThrough acc + 1")
    case False
    with Cons.prems show ?thesis by (simp add: due_def)
  next
    case True
    with Cons.prems obtain acc1 db1 where
      one: "(if nb_accountedAt b = None then account_batch pf a n boot b acc else tret acc) db = Inr (acc1, db1)"
      and rest: "account_loop pf a n boot bs (acc1\<lparr>in_ackThrough := nb_sequence b\<rparr>) db1 = Inr (acc', db')"
      by (auto simp: tx_simps)
    have ih: "in_ackThrough acc' = nb_sequence b + int (length (taken bs (nb_sequence b)))
      \<and> usage_batches db' = mark_accounted pf (due bs (nb_sequence b)) (usage_batches db1)
      \<and> agents db' = agents db1 \<and> (due bs (nb_sequence b) = [] \<longrightarrow> db' = db1)"
      using Cons.IH [OF rest] by simp
    have "due (b # bs) (in_ackThrough acc) = (if nb_accountedAt b = None then b # due bs (nb_sequence b) else due bs (nb_sequence b))"
      using True by (simp add: due_def)
    moreover have "usage_batches db1 = mark_accounted pf (if nb_accountedAt b = None then [b] else []) (usage_batches db)
        \<and> agents db1 = agents db \<and> (nb_accountedAt b \<noteq> None \<longrightarrow> db1 = db)"
      using one account_batch_effect by (fastforce split: if_splits)
    ultimately show ?thesis using ih True
      by (cases "nb_accountedAt b = None") (simp_all add: mark_accounted_Cons)
  qed
qed

section \<open>The transaction\<close>

lemma retry_Inr:
  assumes "withSerializableRetry fault m s = Inr r"
  shows "m s = Inr r"
proof -
  have "(1::nat) \<le> MAX_SERIALIZABLE_RETRIES" by (simp add: MAX_SERIALIZABLE_RETRIES_def)
  from retry_loop_last [OF this, of isRetryableAgentTransactionError "attempt_tx fault m s"] assms obtain k
    where "attempt_tx fault m s k = Inr r" by (auto simp: withSerializableRetry_def)
  then show ?thesis by (simp add: attempt_tx_def split: option.splits)
qed

text \<open>The acknowledgement an upload of a boot starts from.\<close>

definition start_ack :: "NodeAgent \<Rightarrow> string \<Rightarrow> int" where
  "start_ack current boot = (case na_bootId current of
       None \<Rightarrow> na_lastAckSequence current
     | Some b \<Rightarrow> if b = [] \<or> b = boot then na_lastAckSequence current else 0)"

lemma switch_boot_effect:
  assumes "switch_boot current boot db = Inr ((lastSeq, ack), db')"
  shows "ack = start_ack current boot" and "metering db' = metering db" and "usage_batches db' = usage_batches db"
    and "nodes db' = nodes db"
    and "\<exists>f. agents db' = tmodify (\<lambda>a. na_id a = na_id current) f (agents db) \<and> (\<forall>a. na_id (f a) = na_id a \<and> na_nodeId (f a) = na_nodeId a)"
proof -
  have "(db' = db \<and> ack = start_ack current boot) \<or>
    (ack = start_ack current boot \<and> db' = db\<lparr>agents := tmodify (\<lambda>a. na_id a = na_id current)
      (\<lambda>a. a\<lparr>na_bootId := Some boot, na_lastSequence := 0, na_lastAckSequence := 0\<rparr>) (agents db)\<rparr>)"
    using assms by (auto simp: switch_boot_def start_ack_def set_agents_def tx_simps split: option.splits if_splits)
  moreover have "agents db = tmodify (\<lambda>a. na_id a = na_id current) (\<lambda>a. a) (agents db)" by (simp add: tmodify_def)
  ultimately show "ack = start_ack current boot" "metering db' = metering db" "usage_batches db' = usage_batches db"
    "nodes db' = nodes db"
    "\<exists>f. agents db' = tmodify (\<lambda>a. na_id a = na_id current) f (agents db) \<and> (\<forall>a. na_id (f a) = na_id a \<and> na_nodeId (f a) = na_nodeId a)"
    by auto
qed

definition new_row :: "platform \<Rightarrow> NodeAgent \<Rightarrow> UsageBatch \<Rightarrow> int \<Rightarrow> string \<Rightarrow> NodeUsageBatch" where
  "new_row pf agent input sequence u =
     \<lparr>nb_id = u, nb_nodeId = na_nodeId agent, nb_agentId = na_id agent, nb_bootId = ub_bootId input,
      nb_sequence = sequence, nb_payloadHash = pf_sha256json pf (canonicalBatchPayload input), nb_payload = input,
      nb_sampledAt = pf_parseDate pf (ub_sampledAt input), nb_accountedAt = None, nb_createdAt = pf_now pf\<rparr>"

definition rows_wf :: "control_plane \<Rightarrow> bool" where
  "rows_wf db \<longleftrightarrow> distinct (map nb_id (usage_batches db)) \<and> distinct (map batch_key (usage_batches db))"

text \<open>The rows once the upload is stored.\<close>

definition stored_rows :: "control_plane \<Rightarrow> NodeUsageBatch option \<Rightarrow> NodeUsageBatch list" where
  "stored_rows db new = usage_batches db @ (case new of None \<Rightarrow> [] | Some b \<Rightarrow> [b])"

lemma ingest_stages:
  assumes "ingest_tx pf agent input n db = Inr (r, db')"
  obtains current node new db1 db2 acc lastSeq where
    "tfind na_id (na_id agent) (agents db) = Some current" "na_revokedAt current = None"
    "tfind nd_id (na_nodeId agent) (nodes db) = Some node"
    "au_duplicate (io_ack r) \<longleftrightarrow> new = None"
    "new = None \<longrightarrow> (na_nodeId agent, ub_bootId input, n) \<in> batch_key ` set (usage_batches db)"
    "\<forall>b. new = Some b \<longrightarrow> (\<exists>u. b = new_row pf agent input n u) \<and> batch_key b \<notin> batch_key ` set (usage_batches db)
       \<and> nb_id b \<notin> nb_id ` set (usage_batches db)"
    "usage_batches db1 = stored_rows db new" "metering db1 = metering db"
    "\<exists>f. agents db1 = tmodify (\<lambda>a. na_id a = na_id agent) f (agents db) \<and> (\<forall>a. na_id (f a) = na_id a \<and> na_nodeId (f a) = na_nodeId a)"
    "process_stored pf agent node (ub_bootId input) (start_ack current (ub_bootId input)) db1 = Inr (acc, db2)"
    "record_ack pf agent (ub_bootId input) lastSeq (in_ackThrough acc) db2 = Inr ((), db')"
    "au_ackThrough (io_ack r) = bigint_toString (in_ackThrough acc)"
proof -
  from assms obtain current existing node lastSeq ack dba db1 acc db2 where st:
    "live_agent (na_id agent) db = Inr (current, db)"
    "already_stored pf agent input n db = Inr (existing, db)"
    "tfind nd_id (na_nodeId agent) (nodes db) = Some node"
    "switch_boot current (ub_bootId input) db = Inr ((lastSeq, ack), dba)"
    "twhen (\<not> existing) (store_batch pf agent input n) dba = Inr ((), db1)"
    "process_stored pf agent node (ub_bootId input) ack db1 = Inr (acc, db2)"
    "record_ack pf agent (ub_bootId input) (if n > lastSeq then n else lastSeq) (in_ackThrough acc) db2 = Inr ((), db')"
    "io_ack r = \<lparr>au_accepted = True, au_duplicate = existing, au_ackThrough = bigint_toString (in_ackThrough acc)\<rparr>"
    by (auto simp: ingest_tx_def tx_simps live_agent_def already_stored_def split: option.splits)
  have cur: "tfind na_id (na_id agent) (agents db) = Some current" "na_revokedAt current = None" "na_id current = na_id agent"
    using st(1) by (auto simp: live_agent_def tx_simps dest: tfind_Some_in)
  note sw = switch_boot_effect [OF st(4)]
  have ex: "existing \<longleftrightarrow> (na_nodeId agent, ub_bootId input, n) \<in> batch_key ` set (usage_batches db)"
    using st(2) by (auto simp: already_stored_def tx_simps tfind_None_iff split: option.splits
        dest!: tfind_Some_in intro: image_eqI [OF sym])
  obtain new where new: "existing \<longleftrightarrow> new = None" "usage_batches db1 = stored_rows db new" "metering db1 = metering dba"
      "agents db1 = agents dba"
      "\<forall>b. new = Some b \<longrightarrow> (\<exists>u. b = new_row pf agent input n u) \<and> batch_key b \<notin> batch_key ` set (usage_batches db)
         \<and> nb_id b \<notin> nb_id ` set (usage_batches db)"
  proof (cases existing)
    case True
    with st(5) sw(3) that [of None] show ?thesis by (simp add: twhen_def stored_rows_def)
  next
    case False
    with st(5) sw(3) that [of "Some (new_row pf agent input n (pf_uuid pf (fresh dba)))"] show ?thesis
      by (auto simp: twhen_def store_batch_def tx_simps draw_uuid_def insert_batch_def stored_rows_def new_row_def
          split: if_splits)
  qed
  show ?thesis
    by (rule that [OF cur(1,2) st(3) _ _ new(5,2) _ _ st(6) [unfolded sw(1)] st(7)])
      (use new sw st(8) cur(3) ex in auto)
qed

section \<open>Publishing\<close>

lemma publish_effect:
  assumes "ingestUsageBatch pf fault agent input db = Inr (ack, db')"
  obtains n outcome db1 where "js_BigInt (ub_sequence input) = Some n"
    "ingest_tx pf agent input n db = Inr (outcome, db1)" "ack = io_ack outcome"
    "metering db' = metering db1" "usage_batches db' = usage_batches db1" "agents db' = agents db1"
    "nodes db' = nodes db1"
proof -
  from assms obtain n outcome db1 db2 where st: "js_BigInt (ub_sequence input) = Some n"
    "withSerializableRetry fault (ingest_tx pf agent input n) db = Inr (outcome, db1)" "ack = io_ack outcome"
    "tfor (io_transitions outcome) publish_transition db1 = Inr ((), db2)"
    "publish_pending pf (na_id agent # io_commandAgentIds outcome) db2 = Inr ((), db')"
    by (auto simp: ingestUsageBatch_def tx_simps)
  have "view db' = view db1"
    if "\<And>db oc. view (db\<lparr>out_commands := oc\<rparr>) = view db" "\<And>db ot. view (db\<lparr>out_transitions := ot\<rparr>) = view db" for view :: "control_plane \<Rightarrow> 'v"
  proof -
    have "tframe view (tfor (io_transitions outcome) publish_transition)" by (intro tframe_intros that)
    moreover have "tframe view (publish_pending pf (na_id agent # io_commandAgentIds outcome))"
      unfolding publish_pending_def publish_job_def by (intro tframe_intros that)
    ultimately show ?thesis using st(4,5) by (metis tframeD)
  qed
  note frame = this
  show ?thesis
    by (rule that [OF st(1) retry_Inr [OF st(2)] st(3)]) (rule frame; simp)+
qed

section \<open>Exactly once\<close>

lemma batches_after_subset:
  "b \<in> set (batches_after limit a n boot ack db) \<Longrightarrow> b \<in> set (usage_batches db) \<and> nb_agentId b = a \<and> nb_nodeId b = n
     \<and> nb_bootId b = boot \<and> ack < nb_sequence b"
  unfolding batches_after_def by (auto dest!: in_set_takeD)

lemma batches_after_length: "length (batches_after limit a n boot ack db) \<le> limit"
  by (simp add: batches_after_def)

lemma stored_rows_wf:
  assumes "rows_wf db" and "\<forall>b. new = Some b \<longrightarrow> batch_key b \<notin> batch_key ` set (usage_batches db) \<and> nb_id b \<notin> nb_id ` set (usage_batches db)"
  shows "distinct (map nb_id (stored_rows db new))" "distinct (map batch_key (stored_rows db new))"
  using assms by (auto simp: rows_wf_def stored_rows_def split: option.splits)

lemma mark_keeps: "nb_id b \<notin> nb_id ` set bs \<Longrightarrow> b \<in> set rows \<Longrightarrow> b \<in> set (mark_accounted pf bs rows)"
  by (force simp: mark_accounted_def)

lemma mark_marks: "b \<in> set bs \<Longrightarrow> b \<in> set rows \<Longrightarrow> b\<lparr>nb_accountedAt := Some (pf_now pf)\<rparr> \<in> set (mark_accounted pf bs rows)"
  by (force simp: mark_accounted_def)

lemma due_distinct:
  assumes "distinct (map nb_id rows)" and "set bs \<subseteq> set rows" and "b \<in> set rows" and "nb_accountedAt b \<noteq> None"
  shows "nb_id b \<notin> nb_id ` set (due bs ack)"
proof
  assume "nb_id b \<in> nb_id ` set (due bs ack)"
  then obtain c where c: "c \<in> set (due bs ack)" "nb_id c = nb_id b" by force
  then have "c \<in> set rows" "nb_accountedAt c = None"
    using taken_subset [of bs ack] assms(2) by (auto simp: due_def)
  with c assms show False using distinct_map_eq [OF assms(1), of c b] by auto
qed

text \<open>A run over the stored rows accounts exactly the numbers it acknowledges.\<close>

lemma run_accounts:
  assumes "accountContiguousBatches pf a n boot ack db = Inr (acc, db')"
  defines "bs \<equiv> batches_after 4 a n boot ack db"
  shows "in_ackThrough acc = ack + int (length (taken bs ack))" "length (taken bs ack) \<le> 4"
    "usage_batches db' = mark_accounted pf (due bs ack) (usage_batches db)" "agents db' = agents db"
    "due bs ack = [] \<Longrightarrow> db' = db"
proof -
  have run: "account_loop pf a n boot bs \<lparr>in_ackThrough = ack, in_transitions = [], in_commandAgentIds = []\<rparr> db = Inr (acc, db')"
    using assms by (auto simp: accountContiguousBatches_def tx_simps MAX_CONTIGUOUS_BATCHES_PER_TRANSACTION_def)
  have "length bs \<le> 4" unfolding bs_def by (rule batches_after_length)
  then show "length (taken bs ack) \<le> 4" using taken_length [of bs ack] by linarith
  show "in_ackThrough acc = ack + int (length (taken bs ack))"
    "usage_batches db' = mark_accounted pf (due bs ack) (usage_batches db)" "agents db' = agents db"
    "due bs ack = [] \<Longrightarrow> db' = db"
    using account_loop_effect [OF run] by simp_all
qed

lemma run_covers:
  assumes "accountContiguousBatches pf a n boot ack db = Inr (acc, db')" and "ack < k" and "k \<le> in_ackThrough acc"
  shows "\<exists>b \<in> set (usage_batches db'). batch_key b = (n, boot, k) \<and> nb_agentId b = a \<and> nb_accountedAt b \<noteq> None"
proof -
  let ?bs = "batches_after 4 a n boot ack db"
  note run = run_accounts [OF assms(1)]
  from assms(2,3) run(1) taken_covers [of ack k ?bs] obtain b where b: "b \<in> set (taken ?bs ack)" "nb_sequence b = k" by auto
  with taken_subset have "b \<in> set ?bs" by blast
  note row = batches_after_subset [OF this]
  show ?thesis
  proof (cases "nb_id b \<in> nb_id ` set (due ?bs ack)")
    case True
    then have "b\<lparr>nb_accountedAt := Some (pf_now pf)\<rparr> \<in> set (usage_batches db')"
      unfolding run(3) mark_accounted_def using row by force
    then show ?thesis using row b(2) by (intro bexI [of _ "b\<lparr>nb_accountedAt := Some (pf_now pf)\<rparr>"]) (auto simp: batch_key_def)
  next
    case False
    then have "b \<in> set (usage_batches db')" unfolding run(3) using row by (simp add: mark_keeps)
    moreover have "nb_accountedAt b \<noteq> None" using False b(1) by (auto simp: due_def)
    ultimately show ?thesis using row b(2) by (auto simp: batch_key_def intro!: bexI)
  qed
qed

text \<open>An upload to a node in direct mode is one run over the rows with the upload stored.\<close>

lemma direct_upload_run:
  assumes "usageBatches pf isDate fault agent input db = Inr (ack, db')"
    and "tfind na_id (na_id agent) (agents db) = Some current"
    and "tfind nd_id (na_nodeId agent) (nodes db) = Some node" and "nd_controlMode node = Direct_primary"
  obtains n new db1 db2 acc where
    "\<forall>b. new = Some b \<longrightarrow> (\<exists>u. b = new_row pf agent input n u) \<and> batch_key b \<notin> batch_key ` set (usage_batches db)
       \<and> nb_id b \<notin> nb_id ` set (usage_batches db)"
    "usage_batches db1 = stored_rows db new" "metering db1 = metering db"
    "accountContiguousBatches pf (na_id agent) (na_nodeId agent) (ub_bootId input) (start_ack current (ub_bootId input)) db1 = Inr (acc, db2)"
    "usage_batches db' = usage_batches db2" "metering db' = metering db2"
    "au_ackThrough ack = bigint_toString (in_ackThrough acc)"
proof -
  let ?boot = "ub_bootId input" and ?start = "start_ack current (ub_bootId input)"
  from assms(1) have "ingestUsageBatch pf fault agent input db = Inr (ack, db')" by (auto simp: usageBatches_def tx_simps)
  then obtain n r dbp where n: "ingest_tx pf agent input n db = Inr (r, dbp)" and ack: "ack = io_ack r"
    and pub: "metering db' = metering dbp" "usage_batches db' = usage_batches dbp" by (rule publish_effect) auto
  from n obtain new db1 db2 acc lastSeq where
    fresh: "\<forall>b. new = Some b \<longrightarrow> (\<exists>u. b = new_row pf agent input n u) \<and> batch_key b \<notin> batch_key ` set (usage_batches db)
       \<and> nb_id b \<notin> nb_id ` set (usage_batches db)"
    and db1: "usage_batches db1 = stored_rows db new" "metering db1 = metering db"
    and run: "accountContiguousBatches pf (na_id agent) (na_nodeId agent) ?boot ?start db1 = Inr (acc, db2)"
    and rec: "record_ack pf agent ?boot lastSeq (in_ackThrough acc) db2 = Inr ((), dbp)"
    and out: "au_ackThrough (io_ack r) = bigint_toString (in_ackThrough acc)"
    by (rule ingest_stages) (use assms(2-4) in \<open>auto simp: process_stored_def\<close>)
  have "usage_batches db' = usage_batches db2" "metering db' = metering db2"
    using rec pub by (auto simp: record_ack_def set_agents_def)
  with that [OF fresh db1 run] out ack show ?thesis by blast
qed


lemma demo_rows_wf: "rows_wf demo_db"
  by code_simp


text \<open>
  C33: the database transaction of an upload is attempted at most three times; only a fault the
  service calls transient is retried, and what is returned is the answer of the last attempt.
\<close>

theorem upload_retry_bounded:
  "\<exists>k. 1 \<le> k \<and> k \<le> 3 \<and> withSerializableRetry fault m db = attempt_tx fault m db k
    \<and> (\<forall>j. 1 \<le> j \<and> j < k \<longrightarrow> (\<exists>e. attempt_tx fault m db j = Inl e \<and> isRetryableAgentTransactionError e))
    \<and> (\<forall>e. attempt_tx fault m db k = Inl e \<longrightarrow> k = 3 \<or> \<not> isRetryableAgentTransactionError e)"
  using retry_loop_last [of 1 3 isRetryableAgentTransactionError "attempt_tx fault m db"]
  by (auto simp: withSerializableRetry_def MAX_SERIALIZABLE_RETRIES_def)

theorem upload_retry_bounded_witness:
  "\<exists>k. 1 \<le> k \<and> k \<le> (3::nat) \<and> withSerializableRetry (\<lambda>n. if n = 1 then Some (DbError ''P2034'' []) else None) (tret ()) demo_db
      = attempt_tx (\<lambda>n. if n = 1 then Some (DbError ''P2034'' []) else None) (tret ()) demo_db k"
  using upload_retry_bounded [of "\<lambda>n. if n = 1 then Some (DbError ''P2034'' []) else None" "tret ()" demo_db] by blast

end
