(* ===== verification/CommandQueue.thy ===== *)
theory CommandQueue
  imports IntakeSpec
begin

text \<open>
  The command queue of the agent service (\<open>agent/agent.service.ts\<close>): queueing a command, taking
  its result from the agent, and installing the connection parameters a deployment reported.
  Messages are shortened to the name of what they complain about.
\<close>

section \<open>Rows\<close>

definition type_text :: "command_type \<Rightarrow> string" where
  "type_text t = (case t of ENSURE_USER \<Rightarrow> ''ENSURE_USER'' | ENABLE_USER \<Rightarrow> ''ENABLE_USER''
     | DISABLE_USER \<Rightarrow> ''DISABLE_USER'' | REMOVE_USER \<Rightarrow> ''REMOVE_USER''
     | RECONCILE_USERS \<Rightarrow> ''RECONCILE_USERS'' | REFRESH_QUOTA \<Rightarrow> ''REFRESH_QUOTA''
     | ENSURE_INBOUND \<Rightarrow> ''ENSURE_INBOUND'')"

definition open_status :: "job_status \<Rightarrow> bool" where
  "open_status s \<longleftrightarrow> s \<in> {Job_pending, Job_running, Job_failed}"

text \<open>An update of the row with one id; the unique index refuses a key another row has.\<close>

definition update_job :: "string \<Rightarrow> (NodeCommandJob \<Rightarrow> NodeCommandJob) \<Rightarrow> (control_plane, unit) tx" where
  "update_job i f =
     tbind (set_jobs (\<lambda>j. jb_id j = i) f) (\<lambda>_.
     tbind (tread (\<lambda>db. distinct (map jb_dedupeKey (command_jobs db)))) (\<lambda>unique.
     tassert unique (DbError ''P2002'' ''dedupeKey'')))"

definition done_key :: "NodeCommandJob \<Rightarrow> string" where
  "done_key job = jb_dedupeKey job @ '':done:'' @ jb_id job"

definition superseded_key :: "NodeCommandJob \<Rightarrow> string" where
  "superseded_key job = jb_dedupeKey job @ '':superseded:'' @ jb_id job"

section \<open>Results\<close>

fun input_watermark_items :: "json list \<Rightarrow> (string \<times> string) list option" where
  "input_watermark_items [] = Some []"
| "input_watermark_items (JObj ms # items) =
     (case (map_of ms ''bootId'', map_of ms ''sequenceThrough'') of
        (Some (JStr boot), Some (JStr n)) \<Rightarrow>
          if decimal_pattern n then map_option (\<lambda>ws. (boot, n) # ws) (input_watermark_items items) else None
      | _ \<Rightarrow> None)"
| "input_watermark_items (_ # items) = None"

definition parseDisableWatermarksInput :: "json option \<Rightarrow> (string \<times> string) list option" where
  "parseDisableWatermarksInput v = (case v of Some (JArr items) \<Rightarrow> input_watermark_items items | _ \<Rightarrow> None)"

definition watermarks_json :: "(string \<times> string) list \<Rightarrow> json" where
  "watermarks_json ws = JArr (map (\<lambda>(boot, n). JObj [(''bootId'', JStr boot), (''sequenceThrough'', JStr n)]) ws)"

definition panel_mode :: "json_object \<Rightarrow> bool" where
  "panel_mode payload \<longleftrightarrow> map_of payload ''mode'' = Some (JStr ''validate_panel'')"

definition result_json :: "AgentCommandResultDto \<Rightarrow> json" where
  "result_json input = (case cr_output input of None \<Rightarrow> JNull | Some ms \<Rightarrow> JObj ms)"

definition reported_fields :: "json_object \<Rightarrow> AgentCommandResultDto \<Rightarrow> (api_error, InboundReportFields) result" where
  "reported_fields payload input =
     (if panel_mode payload
      then rbind (normalizePanelInbound payload) (parsePanelReport (result_json input))
      else rbind (normalizeInboundSpec payload) (parseInboundReport (result_json input)))"

text \<open>The tag of a report that passed the checks.\<close>

definition reported_tag :: "AgentCommandResultDto \<Rightarrow> json option" where
  "reported_tag input = (case result_json input of
       JObj ms \<Rightarrow> (case map_of ms ''inbound'' of Some (JObj report) \<Rightarrow> map_of report ''inboundTag'' | _ \<Rightarrow> None)
     | _ \<Rightarrow> None)"

definition with_tag :: "json \<Rightarrow> json_object \<Rightarrow> json_object" where
  "with_tag tag payload = mput ''tagOverrideConfirmed'' (JBool True) (mput ''inboundTag'' tag payload)"

definition onboarding_flag :: "Node \<Rightarrow> string \<Rightarrow> json option" where
  "onboarding_flag n key = (case nd_onboardingSpec n of Some (JObj ms) \<Rightarrow> map_of ms key | _ \<Rightarrow> None)"

text \<open>\<open>updateMany\<close> with its count.\<close>

definition update_nodes :: "(Node \<Rightarrow> bool) \<Rightarrow> (Node \<Rightarrow> Node) \<Rightarrow> (control_plane, nat) tx" where
  "update_nodes p f =
     tbind (tread (\<lambda>db. length (filter p (nodes db)))) (\<lambda>count.
     tbind (set_nodes p f) (\<lambda>_. tret count))"

definition first_validation :: "string \<Rightarrow> Node \<Rightarrow> bool" where
  "first_validation nodeId n \<longleftrightarrow> nd_id n = nodeId \<and> nd_inboundAppliedRevision n = 0
     \<and> nd_registrationStatus n = Some ''agent_ready'' \<and> \<not> nd_isActive n
     \<and> onboarding_flag n ''activateOnFirstValidation'' = Some (JBool True)"

definition applyInboundReport :: "string \<Rightarrow> NodeCommandJob \<Rightarrow> AgentCommandResultDto \<Rightarrow> (control_plane, unit) tx" where
  "applyInboundReport nodeId job input =
     (let payload = jb_payload job; panel = panel_mode payload in
      tbind (tlift (reported_fields payload input)) (\<lambda>fields.
      tbind (twhen panel (update_job (jb_id job)
        (\<lambda>j. j\<lparr>jb_payload := with_tag (case reported_tag input of None \<Rightarrow> JNull | Some t \<Rightarrow> t) payload\<rparr>))) (\<lambda>_.
      tbind (if panel
             then update_nodes (first_validation nodeId)
               (\<lambda>n. n\<lparr>nd_endpoint := fields, nd_inboundAppliedRevision := jb_targetRevision job, nd_isActive := True\<rparr>)
             else tret 0) (\<lambda>first.
      tbind (if first = 0
             then update_nodes (\<lambda>n. nd_id n = nodeId \<and> nd_inboundAppliedRevision n < jb_targetRevision job \<and> (panel \<longrightarrow> \<not> nd_isActive n))
               (\<lambda>n. n\<lparr>nd_endpoint := fields, nd_inboundAppliedRevision := jb_targetRevision job\<rparr>)
             else tret first) (\<lambda>count.
      tassert (panel \<longrightarrow> count \<noteq> 0) (BadRequest ''revision''))))))"

definition result_update :: "platform \<Rightarrow> AgentCommandResultDto \<Rightarrow> NodeCommandJob \<Rightarrow> NodeCommandJob" where
  "result_update pf input j =
     (let completed = (cr_status input = Completed) in
      j\<lparr>jb_status := (if completed then Job_completed else Job_failed),
        jb_result := Some (JObj (case cr_output input of None \<Rightarrow> [] | Some ms \<Rightarrow> ms)),
        jb_lastError := (if completed then None
          else Some (case cr_error input of None \<Rightarrow> ''execution failed'' | Some e \<Rightarrow> e)),
        jb_completedAt := (if completed then Some (pf_now pf) else None),
        jb_nextRunAt := (if completed then pf_now pf else pf_now pf + 30000),
        jb_dedupeKey := (if completed \<and> jb_commandType j = ENSURE_INBOUND then done_key j else jb_dedupeKey j)\<rparr>)"

definition keep_watermarks :: "string \<Rightarrow> NodeCommandJob \<Rightarrow> AgentCommandResultDto \<Rightarrow> (control_plane, unit) tx" where
  "keep_watermarks nodeId job input =
     (case (map_of (jb_payload job) ''bindingId'',
            parseDisableWatermarksInput (case cr_output input of None \<Rightarrow> None | Some ms \<Rightarrow> map_of ms ''disableWatermarks'')) of
        (Some (JStr b), Some ws) \<Rightarrow>
          twhen (b \<noteq> []) (set_bindings (\<lambda>r. pb_id r = b \<and> pb_nodeId r = nodeId \<and> pb_source r = Direct)
            (\<lambda>r. r\<lparr>pb_directDisableWatermarks := Some (watermarks_json ws)\<rparr>))
      | _ \<Rightarrow> tret ())"

definition answerable :: "NodeAgent \<Rightarrow> string \<Rightarrow> NodeCommandJob \<Rightarrow> bool" where
  "answerable agent commandId j \<longleftrightarrow> jb_id j = commandId \<and> jb_nodeId j = na_nodeId agent
     \<and> jb_agentId j = Some (na_id agent) \<and> open_status (jb_status j)"

definition api_completeCommand :: "platform \<Rightarrow> NodeAgent \<Rightarrow> string \<Rightarrow> AgentCommandResultDto \<Rightarrow> (control_plane, bool) tx" where
  "api_completeCommand pf agent commandId input =
     tbind (tread (\<lambda>db. find (answerable agent commandId) (command_jobs db))) (\<lambda>found.
     tbind (tfound found (NotFound ''command'')) (\<lambda>job.
     tbind (update_job (jb_id job) (result_update pf input)) (\<lambda>_.
     tbind (twhen (cr_status input = Completed \<and> jb_commandType job = ENSURE_INBOUND)
              (applyInboundReport (na_nodeId agent) job input)) (\<lambda>_.
     tbind (twhen (cr_status input = Completed \<and> jb_commandType job \<in> {DISABLE_USER, REMOVE_USER})
              (keep_watermarks (na_nodeId agent) job input)) (\<lambda>_.
     tbind (publish_admin (na_nodeId agent)) (\<lambda>_.
     tret True))))))"

section \<open>What is deployed\<close>

definition newest_job :: "(NodeCommandJob \<Rightarrow> bool) \<Rightarrow> NodeCommandJob list \<Rightarrow> NodeCommandJob option" where
  "newest_job p rows = (case sort_key (\<lambda>j. (- jb_targetRevision j, - jb_createdAt j)) (filter p rows) of
       [] \<Rightarrow> None | j # _ \<Rightarrow> Some j)"

definition getInboundSpec :: "control_plane \<Rightarrow> string \<Rightarrow> (api_error, json_object option) result" where
  "getInboundSpec db nodeId = (case tfind nd_id nodeId (nodes db) of
       None \<Rightarrow> Inr None
     | Some node \<Rightarrow>
         if nd_inboundAppliedRevision node = 0 then Inr None
         else case newest_job (\<lambda>j. jb_nodeId j = nodeId \<and> jb_commandType j = ENSURE_INBOUND \<and> jb_status j = Job_completed
                \<and> jb_targetRevision j = nd_inboundAppliedRevision node) (command_jobs db) of
              None \<Rightarrow> Inl (BadRequest ''spec'')
            | Some j \<Rightarrow> Inr (Some (jb_payload j)))"

definition getCommandOutcome :: "control_plane \<Rightarrow> string \<Rightarrow> string \<Rightarrow> (job_status \<times> string option) option" where
  "getCommandOutcome db nodeId commandId =
     map_option (\<lambda>j. (jb_status j, jb_lastError j)) (find (\<lambda>j. jb_id j = commandId \<and> jb_nodeId j = nodeId) (command_jobs db))"

section \<open>Queueing\<close>

definition is_go_agent :: "NodeAgent \<Rightarrow> bool" where
  "is_go_agent a \<longleftrightarrow> (case na_version a of None \<Rightarrow> False | Some v \<Rightarrow> take 3 v = ''go-'')"

definition mode_allowed :: "NodeAgent \<Rightarrow> QueueAgentCommandDto \<Rightarrow> (api_error, unit) result" where
  "mode_allowed agent input =
     (let mode = map_of (qc_payload input) ''mode'' in
      if qc_type input \<noteq> ENSURE_INBOUND then Inr ()
      else if mode \<noteq> None \<and> mode \<noteq> Some (JStr ''validate_panel'') then Inl (BadRequest ''mode'')
      else if is_go_agent agent \<and> mode \<noteq> Some (JStr ''validate_panel'') then Inl (BadRequest ''goAgent'')
      else if mode = Some (JStr ''validate_panel'') \<and> \<not> is_go_agent agent then Inl (BadRequest ''nodeAgent'')
      else Inr ())"

text \<open>A confirmed tag is kept when the same panel inbound is validated again without one.\<close>

definition panel_input :: "control_plane \<Rightarrow> string \<Rightarrow> json_object \<Rightarrow> (api_error, json_object) result" where
  "panel_input db nodeId payload =
     (if map_of payload ''tagOverrideConfirmed'' = Some (JBool True) then Inr payload
      else rbind (getInboundSpec db nodeId) (\<lambda>applied.
        Inr (case applied of
            None \<Rightarrow> payload
          | Some spec \<Rightarrow> if panel_mode spec then (case map_of spec ''inboundTag'' of
                Some (JStr t) \<Rightarrow> with_tag (JStr t) payload | _ \<Rightarrow> payload) else payload)))"

definition queued_payload :: "control_plane \<Rightarrow> string \<Rightarrow> QueueAgentCommandDto \<Rightarrow> (api_error, json_object) result" where
  "queued_payload db nodeId input =
     (if qc_type input \<noteq> ENSURE_INBOUND then Inr (qc_payload input)
      else if panel_mode (qc_payload input)
      then rbind (panel_input db nodeId (qc_payload input)) (\<lambda>p. rbind (normalizePanelInbound p) (\<lambda>s. Inr (panel_json s)))
      else rbind (normalizeInboundSpec (qc_payload input)) (\<lambda>s. Inr (spec_json s)))"

text \<open>\<open>inboundSpecKey\<close> on the normalised payload, whose only list is the server names.\<close>

definition json_texts :: "json list \<Rightarrow> string list" where
  "json_texts vs = map (\<lambda>v. case v of JStr s \<Rightarrow> s | _ \<Rightarrow> []) vs"

definition sorted_names :: "json_object \<Rightarrow> json_object" where
  "sorted_names payload = map (\<lambda>(k, v). (k, case v of JArr vs \<Rightarrow> JArr (map JStr (sort (json_texts vs))) | _ \<Rightarrow> v)) payload"

definition payload_key :: "platform \<Rightarrow> string \<Rightarrow> json_object \<Rightarrow> string" where
  "payload_key pf nodeId payload = nodeId @ '':ENSURE_INBOUND:'' @ take 32 (pf_sha256json pf (JObj (sorted_names payload)))"

definition choose_key :: "platform \<Rightarrow> string \<Rightarrow> QueueAgentCommandDto \<Rightarrow> json_object \<Rightarrow> (control_plane, string) tx" where
  "choose_key pf nodeId input payload = (case qc_dedupeKey input of
       Some k \<Rightarrow> tret k
     | None \<Rightarrow>
         if qc_type input = ENSURE_INBOUND then tret (payload_key pf nodeId payload)
         else tbind (draw_uuid pf) (\<lambda>u. tret (nodeId @ '':'' @ type_text (qc_type input) @ '':'' @ u)))"

definition panel_ready :: "platform \<Rightarrow> string \<Rightarrow> NodeAgent \<Rightarrow> QueueAgentCommandDto \<Rightarrow> (control_plane, unit) tx" where
  "panel_ready pf nodeId agent input =
     tbind (tread (\<lambda>db. tfind nd_id nodeId (nodes db))) (\<lambda>row.
     tbind (tassert (case row of None \<Rightarrow> False | Some n \<Rightarrow> \<not> nd_isActive n) (BadRequest ''isActive'')) (\<lambda>_.
     tbind (tread (\<lambda>db. find (\<lambda>a. na_id a = na_id agent \<and> na_revokedAt a = None) (agents db))) (\<lambda>live.
     tbind (tassert
       (case row of None \<Rightarrow> True | Some n \<Rightarrow>
          onboarding_flag n ''mode'' = Some (JStr ''awaiting_panel'') \<and> nd_inboundAppliedRevision n = 0 \<longrightarrow>
          (case live of None \<Rightarrow> False | Some a \<Rightarrow> na_xrayStatus a \<in> {''awaiting_inbound'', ''healthy''}
             \<and> (case na_lastSeenAt a of None \<Rightarrow> False | Some t \<Rightarrow> pf_now pf - t < 60000)))
       (BadRequest ''environment'')) (\<lambda>_.
     tassert (qc_expectedInboundAppliedRevision input \<noteq> None) (BadRequest ''expectedInboundAppliedRevision'')))))"

definition unchanged_since :: "QueueAgentCommandDto \<Rightarrow> Node \<Rightarrow> bool" where
  "unchanged_since input node \<longleftrightarrow> (qc_type input = ENSURE_INBOUND \<longrightarrow>
     (case qc_expectedInboundAppliedRevision input of
        None \<Rightarrow> True | Some e \<Rightarrow> e = bigint_toString (nd_inboundAppliedRevision node)))"

text \<open>An outstanding deployment gives up its key when a newer one was ordered since, or it failed.\<close>

definition release_key :: "string \<Rightarrow> QueueAgentCommandDto \<Rightarrow> string \<Rightarrow> (control_plane, unit) tx" where
  "release_key nodeId input key =
     (if qc_type input \<noteq> ENSURE_INBOUND \<or> qc_dedupeKey input \<noteq> None then tret ()
      else
        tbind (tread (\<lambda>db. tfind jb_dedupeKey key (command_jobs db))) (\<lambda>outstanding.
        case outstanding of
          None \<Rightarrow> tret ()
        | Some o' \<Rightarrow>
            tbind (tread (\<lambda>db. list_ex (\<lambda>j. jb_nodeId j = nodeId \<and> jb_commandType j = ENSURE_INBOUND
                     \<and> jb_targetRevision j > jb_targetRevision o') (command_jobs db))) (\<lambda>intervening.
            twhen (intervening \<or> jb_status o' = Job_failed \<or> jb_status o' = Job_cancelled)
              (update_job (jb_id o') (\<lambda>j. if jb_dedupeKey j = key then j\<lparr>jb_dedupeKey := superseded_key j\<rparr> else j)))))"

definition binding_target :: "string \<Rightarrow> json_object \<Rightarrow> (control_plane, PanelClientBinding option) tx" where
  "binding_target nodeId payload = (case map_of payload ''bindingId'' of
       Some (JStr b) \<Rightarrow>
         if b = [] then tret None
         else
           tbind (tread (\<lambda>db. tfind pb_id b (bindings db))) (\<lambda>row.
           tbind (tassert (case row of None \<Rightarrow> False | Some r \<Rightarrow> pb_nodeId r = nodeId) (BadRequest ''bindingId'')) (\<lambda>_.
           tret row))
     | _ \<Rightarrow> tret None)"

definition new_job ::
  "platform \<Rightarrow> string \<Rightarrow> string \<Rightarrow> string \<Rightarrow> string \<Rightarrow> command_type \<Rightarrow> int \<Rightarrow> json_object \<Rightarrow> PanelClientBinding option \<Rightarrow> NodeCommandJob" where
  "new_job pf u key nodeId agentId t revision payload target =
     \<lparr>jb_id = u, jb_dedupeKey = key, jb_nodeId = nodeId, jb_agentId = Some agentId, jb_commandType = t,
      jb_targetRevision = revision, jb_payload = payload, jb_bindingId = map_option pb_id target,
      jb_subscriptionId = map_option pb_subscriptionId target, jb_userId = Option.bind target pb_userId,
      jb_teamId = Option.bind target pb_teamId, jb_status = Job_pending, jb_resolvedAt = None, jb_attempts = 0,
      jb_nextRunAt = pf_now pf, jb_result = None, jb_lastError = None, jb_completedAt = None, jb_createdAt = pf_now pf\<rparr>"

definition order_job ::
  "platform \<Rightarrow> string \<Rightarrow> NodeAgent \<Rightarrow> command_type \<Rightarrow> string \<Rightarrow> int \<Rightarrow> json_object \<Rightarrow> (control_plane, NodeCommandJob) tx" where
  "order_job pf nodeId agent t key revision payload =
     tbind (binding_target nodeId payload) (\<lambda>target.
     tbind (case target of
         Some b \<Rightarrow> resolveExhaustedCommands pf (Some (pb_id b)) nodeId t
       | None \<Rightarrow> twhen (\<not> hasUserTargeting payload) (resolveExhaustedCommands pf None nodeId t)) (\<lambda>_.
     tbind (draw_uuid pf) (\<lambda>u.
     insert_job (new_job pf u key nodeId (na_id agent) t revision payload target))))"

definition queue_tx ::
  "platform \<Rightarrow> string \<Rightarrow> NodeAgent \<Rightarrow> QueueAgentCommandDto \<Rightarrow> json_object \<Rightarrow> string \<Rightarrow> (control_plane, NodeCommandJob) tx" where
  "queue_tx pf nodeId agent input payload key =
     tbind (twhen (qc_type input = ENSURE_INBOUND \<and> panel_mode payload) (panel_ready pf nodeId agent input)) (\<lambda>_.
     tbind (bump_revision nodeId (\<lambda>n. n)) (\<lambda>targetRevision.
     tbind (tread (\<lambda>db. tfind nd_id nodeId (nodes db))) (\<lambda>node.
     tbind (tassert (case node of None \<Rightarrow> True | Some n \<Rightarrow> unchanged_since input n) (BadRequest ''revision'')) (\<lambda>_.
     tbind (release_key nodeId input key) (\<lambda>_.
     tbind (tread (\<lambda>db. tfind jb_dedupeKey key (command_jobs db))) (\<lambda>replayed.
     case replayed of
       Some job \<Rightarrow> tret job
     | None \<Rightarrow> order_job pf nodeId agent (qc_type input) key targetRevision payload))))))"

text \<open>A lost race on the key is rolled back and answered with the row that won.\<close>

definition recover_replay :: "string \<Rightarrow> (control_plane, NodeCommandJob) tx \<Rightarrow> (control_plane, NodeCommandJob) tx" where
  "recover_replay key m db = (case m db of
       Inl (DbError code what) \<Rightarrow>
         (case (if code = ''P2002'' then tfind jb_dedupeKey key (command_jobs db) else None) of
            Some job \<Rightarrow> Inr (job, db) | None \<Rightarrow> Inl (DbError code what))
     | r \<Rightarrow> r)"

definition queueCommand :: "platform \<Rightarrow> string \<Rightarrow> QueueAgentCommandDto \<Rightarrow> (control_plane, AgentCommand) tx" where
  "queueCommand pf nodeId input =
     tbind (tread (\<lambda>db. newest_agents (\<lambda>a. na_nodeId a = nodeId) (agents db))) (\<lambda>live.
     tbind (tfound (case live of [] \<Rightarrow> None | a # _ \<Rightarrow> Some a) (BadRequest ''agent'')) (\<lambda>agent.
     tbind (tlift (mode_allowed agent input)) (\<lambda>_.
     tbind (tread (\<lambda>db. queued_payload db nodeId input)) (\<lambda>prepared.
     tbind (tlift prepared) (\<lambda>payload.
     tbind (choose_key pf nodeId input payload) (\<lambda>key.
     tbind (recover_replay key (queue_tx pf nodeId agent input payload key)) (\<lambda>job.
     tbind (publish_job pf job) (\<lambda>_.
     tbind (publish_admin nodeId) (\<lambda>_.
     tret (serializeCommand pf job))))))))))"

end
