(* ===== verification/AgentEvents.thy ===== *)
theory AgentEvents
  imports CommandQueue
begin

text \<open>
  Delivery of commands to agents (\<open>agent/agent-events.service.ts\<close>): the sweep that runs every
  thirty seconds, cancels commands that were tried eight times and hands the due ones out again,
  and the commands a new event stream starts with.  Subscribers are the outbox \<open>out_commands\<close>.
\<close>

section \<open>Cancelling\<close>

definition cancelled_key :: "NodeCommandJob \<Rightarrow> string" where
  "cancelled_key job = jb_dedupeKey job @ '':cancelled:'' @ jb_id job"

definition tried_out :: "NodeCommandJob \<Rightarrow> bool" where
  "tried_out j \<longleftrightarrow> open_status (jb_status j) \<and> 8 \<le> jb_attempts j"

definition exhausted_jobs :: "platform \<Rightarrow> control_plane \<Rightarrow> NodeCommandJob list" where
  "exhausted_jobs pf db = filter (\<lambda>j. tried_out j \<and> (jb_nextRunAt j \<le> pf_now pf \<or> jb_createdAt j \<le> pf_now pf - 30000))
     (command_jobs db)"

text \<open>A later command of the node that covers the cancelled one.\<close>

definition replaces :: "NodeCommandJob \<Rightarrow> NodeCommandJob \<Rightarrow> bool" where
  "replaces job j \<longleftrightarrow> jb_nodeId j = jb_nodeId job \<and> jb_targetRevision j > jb_targetRevision job
     \<and> ((case jb_bindingId job of None \<Rightarrow> False
          | Some b \<Rightarrow> b \<noteq> [] \<and> jb_bindingId j = Some b \<and> jb_commandType j \<in> set (bindingCommandTypesSuperseding (jb_commandType job)))
        \<or> (jb_bindingId j = None \<and> jb_commandType j = jb_commandType job))
     \<and> ((case jb_bindingId j of None \<Rightarrow> False | Some b \<Rightarrow> b \<noteq> []) \<or> \<not> hasUserTargeting (jb_payload j))"

definition cancel_update :: "platform \<Rightarrow> bool \<Rightarrow> NodeCommandJob \<Rightarrow> NodeCommandJob" where
  "cancel_update pf superseded j =
     j\<lparr>jb_status := Job_cancelled, jb_lastError := Some ''attempts'',
       jb_resolvedAt := (if superseded then Some (pf_now pf) else jb_resolvedAt j),
       jb_dedupeKey := (if jb_commandType j = ENSURE_INBOUND then cancelled_key j else jb_dedupeKey j)\<rparr>"

definition cancel_exhausted :: "platform \<Rightarrow> NodeCommandJob \<Rightarrow> (control_plane, unit) tx" where
  "cancel_exhausted pf candidate =
     tbind (tread (\<lambda>db. find (\<lambda>j. jb_id j = jb_id candidate \<and> tried_out j) (command_jobs db))) (\<lambda>found.
     case found of
       None \<Rightarrow> tret ()
     | Some job \<Rightarrow>
         tbind (tread (\<lambda>db. list_ex (replaces job) (command_jobs db))) (\<lambda>superseded.
         tbind (update_job (jb_id job) (cancel_update pf superseded)) (\<lambda>_.
         twhen (\<not> superseded \<and> jb_resolvedAt job = None)
           (set_nodes (\<lambda>n. nd_id n = jb_nodeId job \<and> nd_controlStatus n \<notin> {''rollback_pending'', ''direct_cutover_pending''})
              (\<lambda>n. n\<lparr>nd_controlStatus := ''degraded''\<rparr>)))))"

section \<open>Handing out again\<close>

definition due_job :: "platform \<Rightarrow> NodeCommandJob \<Rightarrow> bool" where
  "due_job pf j \<longleftrightarrow> jb_agentId j \<noteq> None \<and> open_status (jb_status j) \<and> jb_attempts j < 8
     \<and> (jb_status j \<in> {Job_pending, Job_running} \<and> jb_attempts j = 0 \<and> jb_createdAt j \<le> pf_now pf - 30000
        \<or> jb_status j = Job_failed \<and> jb_attempts j = 0 \<and> jb_nextRunAt j \<le> pf_now pf
        \<or> 0 < jb_attempts j \<and> jb_nextRunAt j \<le> pf_now pf)"

definition due_jobs :: "platform \<Rightarrow> control_plane \<Rightarrow> NodeCommandJob list" where
  "due_jobs pf db = take 500 (sort_key (\<lambda>j. (jb_nextRunAt j, jb_createdAt j)) (filter (due_job pf) (command_jobs db)))"

definition claimable :: "NodeCommandJob \<Rightarrow> NodeCommandJob \<Rightarrow> bool" where
  "claimable job j \<longleftrightarrow> jb_id j = jb_id job \<and> open_status (jb_status j) \<and> jb_attempts j = jb_attempts job"

definition claim_update :: "platform \<Rightarrow> NodeCommandJob \<Rightarrow> NodeCommandJob" where
  "claim_update pf j = j\<lparr>jb_status := Job_running, jb_attempts := jb_attempts j + 1, jb_nextRunAt := pf_now pf + 30000\<rparr>"

definition claim_job :: "platform \<Rightarrow> NodeCommandJob \<Rightarrow> (control_plane, unit) tx" where
  "claim_job pf job =
     tbind (tread (\<lambda>db. length (filter (claimable job) (command_jobs db)))) (\<lambda>count.
     tbind (set_jobs (claimable job) (claim_update pf)) (\<lambda>_.
     twhen (count = 1) (publish_job pf job)))"

text \<open>
  The sweep.  Cancelling stops after \<open>budget\<close> commands, when the process starts to drain; a
  failing transaction ends the sweep and keeps what was committed before.
\<close>

definition retryDueCommands :: "platform \<Rightarrow> nat \<Rightarrow> control_plane \<Rightarrow> api_error option \<times> control_plane" where
  "retryDueCommands pf budget db =
     (case commit_each (cancel_exhausted pf) (take budget (exhausted_jobs pf db)) db of
        (Some e, db1) \<Rightarrow> (Some e, db1)
      | (None, db1) \<Rightarrow> commit_each (claim_job pf) (due_jobs pf db1) db1)"

definition loadPending :: "platform \<Rightarrow> control_plane \<Rightarrow> string \<Rightarrow> AgentCommand list" where
  "loadPending pf db agentId =
     map (serializeCommand pf) (take 200 (sort_key (\<lambda>j. (jb_targetRevision j, jb_createdAt j))
       (filter (\<lambda>j. jb_agentId j = Some agentId \<and> open_status (jb_status j) \<and> jb_nextRunAt j \<le> pf_now pf) (command_jobs db))))"

text \<open>A new stream: the agent is still the authenticated one, and gets what is pending.\<close>

definition stream_start :: "platform \<Rightarrow> control_plane \<Rightarrow> AgentAuthenticatedRequest \<Rightarrow> (api_error, AgentCommand list) result" where
  "stream_start pf db request = rbind (canActivate pf db request) (\<lambda>a. Inr (loadPending pf db (na_id a)))"

end
