(* ===== verification/QueueSpec.thy ===== *)
theory QueueSpec
  imports AgentEvents
begin

text \<open>
  Invariants of the command queue: unique keys and ids, and revisions that grow with the node's
  counter; and what they give: a new command is the newest of its node, a replay orders nothing,
  an outdated report installs nothing, and an unanswered command is eventually given up.
\<close>

section \<open>Keys and ids\<close>

lemma jobs_wf_other [tkeeps_intros]:
  "tkeeps jobs_wf (set_nodes p1 f1)" "tkeeps jobs_wf (set_bindings p2 f2)" "tkeeps jobs_wf (set_agents p3 f3)"
  "tkeeps jobs_wf (set_subscriptions p4 f4)" "tkeeps jobs_wf (set_snapshots p5 f5)" "tkeeps jobs_wf (set_batches p6 f6)"
  "tkeeps jobs_wf (publish_command a c)" "tkeeps jobs_wf (publish_transition t)" "tkeeps jobs_wf (publish_admin n)"
  by (rule jobs_wf_frame; intro tframe_intros; simp)+

lemma jobs_wf_update [tkeeps_intros]:
  "(\<And>j. jb_id (f j) = jb_id j) \<Longrightarrow> tkeeps jobs_wf (update_job i f)"
  by (rule tkeepsI) (auto simp: update_job_def tx_simps set_jobs_def jobs_wf_def map_key_tmodify)

lemma recover_keeps: "tkeeps I m \<Longrightarrow> tkeeps I (recover_replay key m)"
  by (rule tkeepsI) (auto simp: recover_replay_def dest: tkeepsD split: sum.splits api_error.splits option.splits if_splits)

lemma result_update_id [simp]: "jb_id (result_update pf input j) = jb_id j"
  by (simp add: result_update_def Let_def)

lemma cancel_update_id [simp]: "jb_id (cancel_update pf s j) = jb_id j"
  by (simp add: cancel_update_def)

lemma claim_update_keys [simp]: "jb_id (claim_update pf j) = jb_id j" "jb_dedupeKey (claim_update pf j) = jb_dedupeKey j"
  by (simp_all add: claim_update_def)

lemma jobs_wf_publish_job [tkeeps_intros]: "tkeeps jobs_wf (publish_job pf job)"
  unfolding publish_job_def by (intro tkeeps_intros)

lemma jobs_wf_update_nodes [tkeeps_intros]: "tkeeps jobs_wf (update_nodes p f)"
  unfolding update_nodes_def by (intro tkeeps_intros)

lemma jobs_wf_complete: "tkeeps jobs_wf (api_completeCommand pf agent commandId input)"
  unfolding api_completeCommand_def applyInboundReport_def keep_watermarks_def Let_def
  by (intro tkeeps_intros) (auto intro!: tkeeps_intros split: option.splits json.splits)

lemma jobs_wf_release [tkeeps_intros]: "tkeeps jobs_wf (release_key nodeId input key)"
  unfolding release_key_def by (intro tkeeps_intros) simp

lemma jobs_wf_order [tkeeps_intros]: "tkeeps jobs_wf (order_job pf nodeId agent t key revision payload)"
  unfolding order_job_def binding_target_def
  by (intro tkeeps_intros) (auto intro!: tkeeps_intros split: option.splits json.splits)

lemma jobs_wf_bump [tkeeps_intros]: "tkeeps jobs_wf (bump_revision nodeId f)"
  unfolding bump_revision_def by (intro tkeeps_intros)

lemma jobs_wf_queue_tx: "tkeeps jobs_wf (queue_tx pf nodeId agent input payload key)"
  unfolding queue_tx_def panel_ready_def by (intro tkeeps_intros)

lemma jobs_wf_queue: "tkeeps jobs_wf (queueCommand pf nodeId input)"
  unfolding queueCommand_def choose_key_def
  by (intro tkeeps_intros recover_keeps jobs_wf_queue_tx)

lemma jobs_wf_cancel: "tkeeps jobs_wf (cancel_exhausted pf c)"
  unfolding cancel_exhausted_def by (intro tkeeps_intros) simp

lemma jobs_wf_claim: "tkeeps jobs_wf (claim_job pf job)"
  unfolding claim_job_def by (intro tkeeps_intros jobs_wf_set_jobs) simp

section \<open>Revisions\<close>

text \<open>
  Every command carries a revision that the counter of its node has reached.  \<open>F\<close> lists revisions drawn
  within the running transaction: their node's counter is at least that far.
\<close>

definition reached :: "control_plane \<Rightarrow> string \<times> int \<Rightarrow> bool" where
  "reached db f \<longleftrightarrow> 0 < snd f \<and> fst f \<in> nd_id ` set (nodes db) \<and> (\<forall>n \<in> set (nodes db). nd_id n = fst f \<longrightarrow> snd f \<le> nd_agentConfigRevision n)"

definition revisions_within :: "(string \<times> int) set \<Rightarrow> control_plane \<Rightarrow> bool" where
  "revisions_within F db \<longleftrightarrow> distinct (map nd_id (nodes db)) \<and> (\<forall>n \<in> set (nodes db). 0 \<le> nd_agentConfigRevision n)
     \<and> (\<forall>j \<in> set (command_jobs db). reached db (jb_nodeId j, jb_targetRevision j)) \<and> (\<forall>f \<in> F. reached db f)"

abbreviation revisions_wf :: "control_plane \<Rightarrow> bool" where
  "revisions_wf \<equiv> revisions_within {}"

lemma rev_frame:
  assumes "tframe nodes m" and "tframe command_jobs m"
  shows "tkeeps (revisions_within F) m"
proof (rule tkeepsI)
  fix db a db' assume wf: "revisions_within F db" and run: "m db = Inr (a, db')"
  have "nodes db' = nodes db" "command_jobs db' = command_jobs db"
    by (rule tframeD [OF assms(1) run], rule tframeD [OF assms(2) run])
  with wf show "revisions_within F db'" by (simp add: revisions_within_def reached_def)
qed

lemma rev_set_nodes:
  assumes "\<And>n. p n \<Longrightarrow> nd_id (f n) = nd_id n \<and> nd_agentConfigRevision n \<le> nd_agentConfigRevision (f n)"
  shows "tkeeps (revisions_within F) (set_nodes p f)"
proof (rule tkeepsI)
  fix db u db' assume wf: "revisions_within F db" and run: "set_nodes p f db = Inr (u, db')"
  have ids: "map nd_id (nodes db') = map nd_id (nodes db)"
    using run assms by (auto simp: set_nodes_def map_key_tmodify)
  have "nd_id ` set (nodes db') = nd_id ` set (nodes db)" using arg_cong [OF ids, of set] by simp
  moreover have "snd x \<le> nd_agentConfigRevision n" if "reached db x" "n \<in> set (nodes db')" "nd_id n = fst x" for x n
    using that assms run by (fastforce simp: set_nodes_def reached_def)
  ultimately have "reached db' x" if "reached db x" for x
    using that unfolding reached_def by auto
  moreover have "0 \<le> nd_agentConfigRevision n" if "n \<in> set (nodes db')" for n
    using that wf assms run by (fastforce simp: set_nodes_def revisions_within_def)
  moreover have "map nd_id (nodes db') = map nd_id (nodes db)" "command_jobs db' = command_jobs db"
    using run assms by (auto simp: set_nodes_def map_key_tmodify)
  ultimately show "revisions_within F db'" using wf unfolding revisions_within_def by metis
qed

lemma rev_set_jobs [tkeeps_intros]:
  assumes "\<And>j. p j \<Longrightarrow> jb_nodeId (f j) = jb_nodeId j \<and> jb_targetRevision (f j) = jb_targetRevision j"
  shows "tkeeps (revisions_within F) (set_jobs p f)"
  by (rule tkeepsI) (use assms in \<open>force simp: set_jobs_def revisions_within_def reached_def\<close>)

lemma rev_update [tkeeps_intros]:
  assumes "\<And>j. jb_nodeId (f j) = jb_nodeId j \<and> jb_targetRevision (f j) = jb_targetRevision j"
  shows "tkeeps (revisions_within F) (update_job i f)"
  unfolding update_job_def by (intro tkeeps_intros) (use assms in auto)

lemma rev_insert [tkeeps_intros]:
  "(jb_nodeId job, jb_targetRevision job) \<in> F \<Longrightarrow> tkeeps (revisions_within F) (insert_job job)"
  by (rule tkeepsI) (auto simp: insert_job_def revisions_within_def reached_def split: if_splits)

lemma rev_other [tkeeps_intros]:
  "tkeeps (revisions_within F) (set_bindings p2 f2)" "tkeeps (revisions_within F) (set_agents p3 f3)"
  "tkeeps (revisions_within F) (set_subscriptions p4 f4)" "tkeeps (revisions_within F) (set_snapshots p5 f5)"
  "tkeeps (revisions_within F) (set_batches p6 f6)" "tkeeps (revisions_within F) (set_leases p7 f7)"
  "tkeeps (revisions_within F) (publish_command a c)" "tkeeps (revisions_within F) (publish_transition t)"
  "tkeeps (revisions_within F) (publish_admin n)" "tkeeps (revisions_within F) (draw_uuid pf)"
  "tkeeps (revisions_within F) (draw_random pf)"
  by (rule rev_frame; intro tframe_intros; simp)+

lemma bump_reaches:
  assumes "revisions_within F db" and "bump_revision n g db = Inr (r, db')"
    and "\<And>x. nd_id (g x) = nd_id x"
  shows "revisions_within (insert (n, r) F) db'"
proof -
  from assms(2) obtain node where node: "tfind nd_id n (nodes db) = Some node" "r = nd_agentConfigRevision node + 1"
    and run: "set_nodes (\<lambda>x. nd_id x = n) (\<lambda>x. (g x)\<lparr>nd_agentConfigRevision := nd_agentConfigRevision x + 1\<rparr>) db = Inr ((), db')"
    by (auto simp: bump_revision_def tx_simps)
  have "tkeeps (revisions_within F) (set_nodes (\<lambda>x. nd_id x = n) (\<lambda>x. (g x)\<lparr>nd_agentConfigRevision := nd_agentConfigRevision x + 1\<rparr>))"
    by (rule rev_set_nodes) (simp add: assms(3))
  then have wf: "revisions_within F db'" using assms(1) run by (rule tkeepsD)
  have found: "node \<in> set (nodes db)" "nd_id node = n" using tfind_Some_in [OF node(1)] by auto
  have ids: "distinct (map nd_id (nodes db))" using assms(1) by (simp add: revisions_within_def)
  have only: "x = node" if "x \<in> set (nodes db)" "nd_id x = n" for x
    using that found distinct_map_eq [OF ids, of x node] by simp
  have "0 \<le> nd_agentConfigRevision node" using assms(1) found(1) by (simp add: revisions_within_def)
  then have "0 < r" by (simp add: node(2))
  moreover have "r \<le> nd_agentConfigRevision x" if x: "x \<in> set (nodes db')" "nd_id x = n" for x
  proof -
    from x run obtain y where y: "y \<in> set (nodes db)"
      "x = (if nd_id y = n then (g y)\<lparr>nd_agentConfigRevision := nd_agentConfigRevision y + 1\<rparr> else y)"
      by (auto simp: set_nodes_def)
    with x(2) have "nd_id y = n" by (auto simp: assms(3) split: if_splits)
    with only [OF y(1)] y(2) node(2) show ?thesis by simp
  qed
  moreover have "n \<in> nd_id ` set (nodes db')"
  proof -
    have "map nd_id (nodes db') = map nd_id (nodes db)"
      using run by (auto simp: set_nodes_def map_key_tmodify assms(3))
    from arg_cong [OF this, of set] have "nd_id ` set (nodes db') = nd_id ` set (nodes db)" by simp
    then show ?thesis using found by force
  qed
  ultimately have "reached db' (n, r)" by (simp add: reached_def)
  with wf show ?thesis by (simp add: revisions_within_def)
qed

lemma rev_bump [tkeeps_intros]:
  assumes "\<And>x. nd_id (g x) = nd_id x" and "\<And>r. tkeeps (revisions_within (insert (n, r) F)) (f r)"
  shows "tkeeps (revisions_within F) (tbind (bump_revision n g) f)"
proof (rule tkeepsI)
  fix db a db' assume wf: "revisions_within F db" and "tbind (bump_revision n g) f db = Inr (a, db')"
  then obtain r db1 where "bump_revision n g db = Inr (r, db1)" "f r db1 = Inr (a, db')" by (auto simp: tx_simps)
  with bump_reaches [OF wf _ assms(1)] assms(2) have "revisions_within (insert (n, r) F) db'" by (blast dest: tkeepsD)
  then show "revisions_within F db'" by (simp add: revisions_within_def)
qed

lemma rev_resolve [tkeeps_intros]: "tkeeps (revisions_within F) (resolveExhaustedCommands pf b n t)"
  unfolding resolveExhaustedCommands_def by (rule rev_set_jobs) simp

lemma rev_publish_job [tkeeps_intros]: "tkeeps (revisions_within F) (publish_job pf job)"
  unfolding publish_job_def by (intro tkeeps_intros)

lemma rev_release [tkeeps_intros]: "tkeeps (revisions_within F) (release_key nodeId input key)"
  unfolding release_key_def by (intro tkeeps_intros) simp

lemma rev_order [tkeeps_intros]:
  "(nodeId, revision) \<in> F \<Longrightarrow> tkeeps (revisions_within F) (order_job pf nodeId agent t key revision payload)"
  unfolding order_job_def binding_target_def
  by (intro tkeeps_tbind) (auto intro!: tkeeps_intros simp: new_job_def split: option.splits json.splits)

lemma rev_queue_tx: "tkeeps revisions_wf (queue_tx pf nodeId agent input payload key)"
  unfolding queue_tx_def
  by (rule tkeeps_tbind, simp add: panel_ready_def, intro tkeeps_intros, rule rev_bump, simp)
    (intro tkeeps_basic tkeeps_tbind tkeeps_case_option rev_release rev_order, simp)

lemma rev_queue: "tkeeps revisions_wf (queueCommand pf nodeId input)"
  unfolding queueCommand_def choose_key_def by (intro tkeeps_intros recover_keeps rev_queue_tx)

lemma rev_update_nodes [tkeeps_intros]:
  "(\<And>n. p n \<Longrightarrow> nd_id (f n) = nd_id n \<and> nd_agentConfigRevision n \<le> nd_agentConfigRevision (f n)) \<Longrightarrow>
   tkeeps (revisions_within F) (update_nodes p f)"
  unfolding update_nodes_def by (intro tkeeps_intros rev_set_nodes)

lemma rev_complete: "tkeeps revisions_wf (api_completeCommand pf agent commandId input)"
  unfolding api_completeCommand_def applyInboundReport_def keep_watermarks_def Let_def
  by (intro tkeeps_tbind) (auto intro!: tkeeps_intros simp: result_update_def Let_def split: option.splits json.splits)

lemma rev_cancel: "tkeeps revisions_wf (cancel_exhausted pf c)"
  unfolding cancel_exhausted_def by (intro tkeeps_intros rev_set_nodes) (simp_all add: cancel_update_def)

lemma rev_claim: "tkeeps revisions_wf (claim_job pf job)"
  unfolding claim_job_def by (intro tkeeps_intros) (simp add: claim_update_def)

lemma sweep_keeps:
  assumes "\<And>c. tkeeps I (cancel_exhausted pf c)" and "\<And>j. tkeeps I (claim_job pf j)" and "I db"
  shows "I (snd (retryDueCommands pf budget db))"
proof -
  have "I (snd (commit_each (cancel_exhausted pf) (take budget (exhausted_jobs pf db)) db))"
    by (rule commit_each_keeps [OF assms(1,3)])
  moreover have "I (snd (commit_each (claim_job pf) js s))" if "I s" for js s
    by (rule commit_each_keeps [OF assms(2) that])
  ultimately show ?thesis unfolding retryDueCommands_def by (auto split: prod.splits option.splits)
qed

lemma rev_disable: "tkeeps revisions_wf (disableDirectBindingsForSubscriptions pf n a disabled)"
proof -
  have "tkeeps revisions_wf (disable_node_bindings pf n a disabled (node, rows) ids)" for node rows ids
    unfolding disable_node_bindings_def queue_disable_def
    by (simp, rule tkeeps_tbind, rule tkeeps_basic, rule rev_bump, simp)
      (intro tkeeps_tbind rev_other tkeeps_case_option tkeeps_basic tkeeps_tfor tkeeps_if rev_resolve rev_insert, simp)
  then show ?thesis unfolding disableDirectBindingsForSubscriptions_def
    by (intro tkeeps_intros) auto
qed

end
