(* ===== verification/QueueProps.thy ===== *)
theory QueueProps
  imports QueueSpec
begin

text \<open>
  What queueing, answering and sweeping promise: the order of deployments, idempotent keys,
  reports that never go back, and an end to retries.
\<close>

section \<open>Queueing in stages\<close>

lemma queue_stages:
  assumes "queueCommand pf nodeId input db = Inr (cmd, db')"
  obtains agent payload key db0 job db1 where
    "recover_replay key (queue_tx pf nodeId agent input payload key) db0 = Inr (job, db1)"
    "\<exists>n. db0 = db\<lparr>fresh := n\<rparr>" "command_jobs db' = command_jobs db1"
    "cmd = serializeCommand pf job" "\<And>k. qc_dedupeKey input = Some k \<Longrightarrow> key = k"
    "qc_dedupeKey input = None \<Longrightarrow> qc_type input = ENSURE_INBOUND \<Longrightarrow> key = payload_key pf nodeId payload"
proof -
  from assms obtain agent payload key db0 job db1 db2 where st:
    "choose_key pf nodeId input payload db = Inr (key, db0)"
    "recover_replay key (queue_tx pf nodeId agent input payload key) db0 = Inr (job, db1)"
    "publish_job pf job db1 = Inr ((), db2)" "publish_admin nodeId db2 = Inr ((), db')"
    "cmd = serializeCommand pf job"
    by (auto simp: queueCommand_def tx_simps)
  have "db0 = db \<or> (\<exists>n. db0 = db\<lparr>fresh := n\<rparr>)"
    using st(1) by (auto simp: choose_key_def tx_simps draw_uuid_def split: option.splits if_splits)
  moreover have "db = db\<lparr>fresh := fresh db\<rparr>" by simp
  ultimately have same: "\<exists>n. db0 = db\<lparr>fresh := n\<rparr>" by metis
  have "tframe command_jobs (publish_job pf job)" "tframe command_jobs (publish_admin nodeId)"
    unfolding publish_job_def by (intro tframe_intros; simp)+
  then have out: "command_jobs db' = command_jobs db1" using st(3,4) by (metis tframeD)
  show ?thesis
    by (rule that [OF st(2) same out st(5)]) (use st(1) in \<open>simp_all add: choose_key_def\<close>)
qed

lemma recover_cases:
  assumes "recover_replay key m db = Inr (job, db')"
  shows "m db = Inr (job, db') \<or> (db' = db \<and> tfind jb_dedupeKey key (command_jobs db) = Some job)"
  using assms by (auto simp: recover_replay_def split: sum.splits api_error.splits option.splits if_splits)

lemma order_effect:
  assumes "order_job pf nodeId agent t key revision payload db = Inr (job, db')"
  shows "jb_targetRevision job = revision \<and> jb_status job = Job_pending \<and> jb_nodeId job = nodeId \<and> jb_dedupeKey job = key
    \<and> (\<exists>rows. command_jobs db' = rows @ [job] \<and> map jb_id rows = map jb_id (command_jobs db)
         \<and> map jb_dedupeKey rows = map jb_dedupeKey (command_jobs db)
         \<and> map (\<lambda>j. (jb_nodeId j, jb_commandType j, jb_targetRevision j)) rows
           = map (\<lambda>j. (jb_nodeId j, jb_commandType j, jb_targetRevision j)) (command_jobs db))"
proof -
  from assms obtain target db1 u db2 where st: "binding_target nodeId payload db = Inr (target, db)"
    "(case target of Some b \<Rightarrow> resolveExhaustedCommands pf (Some (pb_id b)) nodeId t
       | None \<Rightarrow> twhen (\<not> hasUserTargeting payload) (resolveExhaustedCommands pf None nodeId t)) db = Inr ((), db1)"
    "draw_uuid pf db1 = Inr (u, db2)"
    "insert_job (new_job pf u key nodeId (na_id agent) t revision payload target) db2 = Inr (job, db')"
    by (auto simp: order_job_def tx_simps binding_target_def split: option.splits json.splits if_splits)
  have "command_jobs db1 = command_jobs db \<or>
    (\<exists>b. command_jobs db1 = tmodify (resolve_where b nodeId t) (\<lambda>j. j\<lparr>jb_resolvedAt := Some (pf_now pf)\<rparr>) (command_jobs db))"
    using st(2) by (auto simp: resolveExhaustedCommands_def set_jobs_def twhen_def split: option.splits if_splits)
  then have "map f (command_jobs db1) = map f (command_jobs db)"
    if "\<And>j. f (j\<lparr>jb_resolvedAt := Some (pf_now pf)\<rparr>) = f j" for f :: "NodeCommandJob \<Rightarrow> 'v"
    using that by (auto simp: map_key_tmodify)
  note same = this
  from st(3,4) have "command_jobs db' = command_jobs db1 @ [job]" "job = new_job pf u key nodeId (na_id agent) t revision payload target"
    by (auto simp: draw_uuid_def insert_job_def split: if_splits)
  then show ?thesis by (auto simp: new_job_def intro!: exI [of _ "command_jobs db1"] same)
qed

lemma queue_tx_stages:
  assumes "queue_tx pf nodeId agent input payload key db = Inr (job, db')"
  obtains revision dbb dbr where
    "bump_revision nodeId (\<lambda>n. n) db = Inr (revision, dbb)" "command_jobs dbb = command_jobs db"
    "release_key nodeId input key dbb = Inr ((), dbr)"
    "(tfind jb_dedupeKey key (command_jobs dbr) = Some job \<and> db' = dbr) \<or>
     (tfind jb_dedupeKey key (command_jobs dbr) = None
      \<and> order_job pf nodeId agent (qc_type input) key revision payload dbr = Inr (job, db'))"
proof -
  from assms obtain dba revision dbb dbr where st:
    "twhen (qc_type input = ENSURE_INBOUND \<and> panel_mode payload) (panel_ready pf nodeId agent input) db = Inr ((), dba)"
    "bump_revision nodeId (\<lambda>n. n) dba = Inr (revision, dbb)" "release_key nodeId input key dbb = Inr ((), dbr)"
    "(case tfind jb_dedupeKey key (command_jobs dbr) of Some job \<Rightarrow> tret job
      | None \<Rightarrow> order_job pf nodeId agent (qc_type input) key revision payload) dbr = Inr (job, db')"
    by (auto simp: queue_tx_def tx_simps)
  have "dba = db" using st(1) by (auto simp: twhen_def panel_ready_def tx_simps split: if_splits)
  moreover have "command_jobs dbb = command_jobs dba" by (rule tframeD [OF bump_frame st(2)]) simp
  ultimately show ?thesis using st(2,3,4) by (intro that) (auto split: option.splits)
qed

lemma release_explicit: "qc_dedupeKey input = Some k \<Longrightarrow> release_key nodeId input key db = Inr (u, db') \<Longrightarrow> db' = db"
  by (simp add: release_key_def)

lemma drawn_is_newest:
  assumes "revisions_wf db" and "bump_revision nodeId g db = Inr (revision, db')"
    and "j \<in> set (command_jobs db)" and "jb_nodeId j = nodeId"
  shows "jb_targetRevision j < revision"
proof -
  from assms(2) obtain node where "tfind nd_id nodeId (nodes db) = Some node" "revision = nd_agentConfigRevision node + 1"
    by (auto simp: bump_revision_def tx_simps)
  with assms(1,3,4) show ?thesis by (auto simp: revisions_within_def reached_def dest!: tfind_Some_in)
qed

section \<open>Idempotent keys\<close>

lemma queue_explicit:
  assumes "queueCommand pf nodeId input db = Inr (cmd, db')" and "qc_dedupeKey input = Some k"
  obtains job where "cmd = serializeCommand pf job" "jb_dedupeKey job = k"
    "case tfind jb_dedupeKey k (command_jobs db) of Some j \<Rightarrow> job = j \<and> command_jobs db' = command_jobs db
       | None \<Rightarrow> \<exists>rows. command_jobs db' = rows @ [job] \<and> map jb_dedupeKey rows = map jb_dedupeKey (command_jobs db)"
proof -
  from assms(1) obtain agent payload key db0 job db1 where st:
    "recover_replay key (queue_tx pf nodeId agent input payload key) db0 = Inr (job, db1)"
    "command_jobs db0 = command_jobs db" "command_jobs db' = command_jobs db1"
    "cmd = serializeCommand pf job" and k: "key = k"
    using assms(2) by (elim queue_stages) auto
  from recover_cases [OF st(1)] show ?thesis
  proof
    assume "db1 = db0 \<and> tfind jb_dedupeKey key (command_jobs db0) = Some job"
    with st k show ?thesis by (intro that [of job]) (auto dest: tfind_Some_in)
  next
    assume "queue_tx pf nodeId agent input payload key db0 = Inr (job, db1)"
    then obtain revision dbb dbr where q: "command_jobs dbb = command_jobs db0" "release_key nodeId input key dbb = Inr ((), dbr)"
      "(tfind jb_dedupeKey key (command_jobs dbr) = Some job \<and> db1 = dbr) \<or>
       (tfind jb_dedupeKey key (command_jobs dbr) = None
        \<and> order_job pf nodeId agent (qc_type input) key revision payload dbr = Inr (job, db1))"
      by (rule queue_tx_stages)
    have "command_jobs dbr = command_jobs db" using release_explicit [OF assms(2) q(2)] q(1) st(2) by simp
    with q(3) st k show ?thesis
      by (intro that [of job]) (auto dest: tfind_Some_in order_effect)
  qed
qed


section \<open>The last deployment wins\<close>

text \<open>No row carries another row's released key, and drawn identifiers are new.\<close>

definition names_fresh :: "platform \<Rightarrow> control_plane \<Rightarrow> bool" where
  "names_fresh pf db \<longleftrightarrow> (\<forall>n. pf_uuid pf n \<notin> jb_id ` set (command_jobs db))
     \<and> (\<forall>i \<in> set (command_jobs db). \<forall>j \<in> set (command_jobs db). jb_dedupeKey j \<noteq> superseded_key i)"

definition released :: "string \<Rightarrow> NodeCommandJob \<Rightarrow> NodeCommandJob list \<Rightarrow> NodeCommandJob list" where
  "released key o' rows = tmodify (\<lambda>j. jb_id j = jb_id o')
     (\<lambda>j. if jb_dedupeKey j = key then j\<lparr>jb_dedupeKey := superseded_key j\<rparr> else j) rows"

lemma released_distinct:
  assumes "distinct (map jb_dedupeKey rows)" and "distinct (map jb_id rows)"
    and "\<forall>i \<in> set rows. \<forall>j \<in> set rows. jb_dedupeKey j \<noteq> superseded_key i"
  shows "distinct (map jb_dedupeKey (released key o' rows))"
  using assms
proof (induction rows)
  case Nil
  then show ?case by (simp add: released_def)
next
  case (Cons r rows)
  then have ih: "distinct (map jb_dedupeKey (released key o' rows))" by simp
  have keys: "jb_dedupeKey ` set (released key o' rows) \<subseteq> jb_dedupeKey ` set rows \<union> superseded_key ` set rows"
    by (auto simp: released_def)
  show ?case
  proof (cases "jb_id r = jb_id o' \<and> jb_dedupeKey r = key")
    case True
    then have "released key o' rows = rows"
      unfolding released_def using Cons.prems(2) by (intro tmodify_id) (auto simp: image_iff)
    with True Cons.prems show ?thesis by (auto simp: released_def image_iff)
  next
    case False
    with ih keys Cons.prems show ?thesis by (auto simp: released_def)
  qed
qed

lemma release_cases:
  assumes "qc_type input = ENSURE_INBOUND" and "qc_dedupeKey input = None"
  shows "release_key nodeId input key db =
    (case tfind jb_dedupeKey key (command_jobs db) of
       None \<Rightarrow> Inr ((), db)
     | Some o' \<Rightarrow>
         if (\<exists>j \<in> set (command_jobs db). jb_nodeId j = nodeId \<and> jb_commandType j = ENSURE_INBOUND \<and> jb_targetRevision j > jb_targetRevision o')
            \<or> jb_status o' = Job_failed \<or> jb_status o' = Job_cancelled
         then if distinct (map jb_dedupeKey (released key o' (command_jobs db)))
              then Inr ((), db\<lparr>command_jobs := released key o' (command_jobs db)\<rparr>) else Inl (DbError ''P2002'' ''dedupeKey'')
         else Inr ((), db))"
  using assms
  by (auto simp: release_key_def tbind_def tread_def twhen_def update_job_def set_jobs_def twrite_def tassert_def tlift_def
      require_def tret_def released_def list_ex_iff split: option.splits)

lemma order_no_clash:
  assumes "tfind jb_dedupeKey key (command_jobs db) = None" and "\<forall>n. pf_uuid pf n \<notin> jb_id ` set (command_jobs db)"
  shows "order_job pf nodeId agent t key revision payload db \<noteq> Inl (DbError ''P2002'' w)"
proof
  assume fail: "order_job pf nodeId agent t key revision payload db = Inl (DbError ''P2002'' w)"
  have "binding_target nodeId payload db \<noteq> Inl (DbError ''P2002'' w)"
    by (auto simp: binding_target_def tx_simps split: option.splits json.splits)
  moreover have "(case target of Some b \<Rightarrow> resolveExhaustedCommands pf (Some (pb_id b)) nodeId t
       | None \<Rightarrow> twhen (\<not> hasUserTargeting payload) (resolveExhaustedCommands pf None nodeId t)) db \<noteq> Inl e" for target e
    by (auto simp: resolveExhaustedCommands_def set_jobs_def twhen_def split: option.splits)
  moreover have "target_db = db" if "binding_target nodeId payload db = Inr (target, target_db)" for target target_db
    using that by (auto simp: binding_target_def tx_simps split: option.splits json.splits if_splits)
  ultimately obtain target db1 where
    st: "(case target of Some b \<Rightarrow> resolveExhaustedCommands pf (Some (pb_id b)) nodeId t
       | None \<Rightarrow> twhen (\<not> hasUserTargeting payload) (resolveExhaustedCommands pf None nodeId t)) db = Inr ((), db1)"
    and ins: "insert_job (new_job pf (pf_uuid pf (fresh db1)) key nodeId (na_id agent) t revision payload target)
      (db1\<lparr>fresh := Suc (fresh db1)\<rparr>) = Inl (DbError ''P2002'' w)"
    using fail by (simp add: order_job_def tx_simps draw_uuid_def) blast
  have "command_jobs db1 = command_jobs db \<or>
    (\<exists>b. command_jobs db1 = tmodify (resolve_where b nodeId t) (\<lambda>j. j\<lparr>jb_resolvedAt := Some (pf_now pf)\<rparr>) (command_jobs db))"
    using st by (auto simp: resolveExhaustedCommands_def set_jobs_def twhen_def split: option.splits if_splits)
  then have "map jb_dedupeKey (command_jobs db1) = map jb_dedupeKey (command_jobs db)"
    "map jb_id (command_jobs db1) = map jb_id (command_jobs db)" by (auto simp: map_key_tmodify)
  then have "jb_dedupeKey ` set (command_jobs db1) = jb_dedupeKey ` set (command_jobs db)"
    "jb_id ` set (command_jobs db1) = jb_id ` set (command_jobs db)" by (metis list.set_map)+
  with ins assms show False by (auto simp: insert_job_def new_job_def tfind_None_iff split: if_splits)
qed

lemma release_total:
  assumes "qc_type input = ENSURE_INBOUND" "qc_dedupeKey input = None" "jobs_wf db" "names_fresh pf db"
  obtains dbr where "release_key nodeId input key db = Inr ((), dbr)" "nodes dbr = nodes db"
    "map jb_id (command_jobs dbr) = map jb_id (command_jobs db)"
    "map (\<lambda>j. (jb_nodeId j, jb_commandType j, jb_targetRevision j)) (command_jobs dbr)
       = map (\<lambda>j. (jb_nodeId j, jb_commandType j, jb_targetRevision j)) (command_jobs db)"
    "\<And>job. tfind jb_dedupeKey key (command_jobs dbr) = Some job \<Longrightarrow> jb_status job \<noteq> Job_failed \<and> jb_status job \<noteq> Job_cancelled
       \<and> (\<forall>j \<in> set (command_jobs dbr). jb_nodeId j = nodeId \<and> jb_commandType j = ENSURE_INBOUND \<longrightarrow> jb_targetRevision j \<le> jb_targetRevision job)"
proof (cases "tfind jb_dedupeKey key (command_jobs db)")
  case None
  then show ?thesis by (intro that [of db]) (simp_all add: release_cases [OF assms(1,2)])
next
  case (Some o')
  have distinct: "distinct (map jb_dedupeKey (released key o' (command_jobs db)))"
    using assms(3,4) by (intro released_distinct) (auto simp: jobs_wf_def names_fresh_def)
  let ?go = "(\<exists>j \<in> set (command_jobs db). jb_nodeId j = nodeId \<and> jb_commandType j = ENSURE_INBOUND \<and> jb_targetRevision j > jb_targetRevision o')
      \<or> jb_status o' = Job_failed \<or> jb_status o' = Job_cancelled"
  show ?thesis
  proof (cases ?go)
    case False
    with Some show ?thesis
      by (intro that [of db]) (simp_all add: release_cases [OF assms(1,2)], auto simp: not_less)
  next
    case True
    let ?dbr = "db\<lparr>command_jobs := released key o' (command_jobs db)\<rparr>"
    have run: "release_key nodeId input key db = Inr ((), ?dbr)"
      unfolding release_cases [OF assms(1,2)] using Some True distinct by simp
    have key: "o' \<in> set (command_jobs db)" "jb_dedupeKey o' = key" using tfind_Some_in [OF Some] by auto
    have "jb_dedupeKey j \<noteq> key" if "j \<in> set (released key o' (command_jobs db))" for j
    proof
      assume k: "jb_dedupeKey j = key"
      from that obtain i where i: "i \<in> set (command_jobs db)"
        "j = (if jb_id i = jb_id o' then if jb_dedupeKey i = key then i\<lparr>jb_dedupeKey := superseded_key i\<rparr> else i else i)"
        by (auto simp: released_def)
      show False
      proof (cases "jb_dedupeKey i = key")
        case True
        with assms(3) key have "i = o'" using distinct_map_eq [of jb_dedupeKey "command_jobs db" i o'] i(1)
          by (auto simp: jobs_wf_def)
        with i(2) True k show False by (simp add: superseded_key_def)
      next
        case False
        with i(2) k show False by (auto split: if_splits)
      qed
    qed
    then have "tfind jb_dedupeKey key (command_jobs ?dbr) = None" by (auto simp: tfind_None_iff)
    then show ?thesis using run by (intro that [of ?dbr]) (auto simp: released_def map_key_tmodify)
  qed
qed

lemma queue_tx_deployment:
  assumes "qc_type input = ENSURE_INBOUND" "qc_dedupeKey input = None" "jobs_wf db" "names_fresh pf db"
  shows "recover_replay key (queue_tx pf nodeId agent input payload key) db = queue_tx pf nodeId agent input payload key db"
proof (rule ccontr)
  assume "\<not> ?thesis"
  then obtain w where fail: "queue_tx pf nodeId agent input payload key db = Inl (DbError ''P2002'' w)"
    by (auto simp: recover_replay_def split: sum.splits api_error.splits option.splits if_splits)
  let ?guard = "twhen (qc_type input = ENSURE_INBOUND \<and> panel_mode payload) (panel_ready pf nodeId agent input)"
  have guard: "?guard db = Inr ((), db)"
  proof (cases "?guard db")
    case (Inl e)
    then have "queue_tx pf nodeId agent input payload key db = Inl e" by (simp add: queue_tx_def tx_simps)
    with fail Inl show ?thesis by (auto simp: twhen_def panel_ready_def tx_simps split: if_splits)
  next
    case (Inr r)
    then show ?thesis by (cases r) (auto simp: twhen_def panel_ready_def tx_simps split: if_splits)
  qed
  have "bump_revision nodeId (\<lambda>n. n) db \<noteq> Inl (DbError ''P2002'' w)"
    by (auto simp: bump_revision_def tx_simps set_nodes_def)
  then obtain revision dbb where b: "bump_revision nodeId (\<lambda>n. n) db = Inr (revision, dbb)"
    and rest: "release_key nodeId input key dbb = Inl (DbError ''P2002'' w) \<or>
      (\<exists>dbr. release_key nodeId input key dbb = Inr ((), dbr) \<and> tfind jb_dedupeKey key (command_jobs dbr) = None
        \<and> order_job pf nodeId agent (qc_type input) key revision payload dbr = Inl (DbError ''P2002'' w))"
    using fail guard unfolding queue_tx_def tx_simps
    by (auto simp: tx_simps split: option.splits)
  have "command_jobs dbb = command_jobs db" "lease_jobs dbb = lease_jobs db"
    by (rule tframeD [OF bump_frame b], simp)+
  then have "jobs_wf dbb" "names_fresh pf dbb" using assms(3,4) by (simp_all add: jobs_wf_def names_fresh_def)
  with assms(1,2) obtain dbr where r: "release_key nodeId input key dbb = Inr ((), dbr)"
    "map jb_id (command_jobs dbr) = map jb_id (command_jobs dbb)" by (rule release_total)
  have "\<forall>n. pf_uuid pf n \<notin> jb_id ` set (command_jobs dbr)"
    using \<open>names_fresh pf dbb\<close> r(2) unfolding names_fresh_def by (metis list.set_map)
  with rest r(1) order_no_clash show False by fastforce
qed

lemma fresh_only:
  "jobs_wf (db\<lparr>fresh := n\<rparr>) = jobs_wf db" "names_fresh pf (db\<lparr>fresh := n\<rparr>) = names_fresh pf db"
  "revisions_within F (db\<lparr>fresh := n\<rparr>) = revisions_within F db"
  by (simp_all add: jobs_wf_def names_fresh_def revisions_within_def reached_def)


definition demo_deploy :: QueueAgentCommandDto where
  "demo_deploy = \<lparr>qc_type = ENSURE_INBOUND, qc_targetRevision = None, qc_payload = [], qc_dedupeKey = None,
     qc_expectedInboundAppliedRevision = Some ''0''\<rparr>"

lemma demo_deploy_runs: "case queueCommand demo_platform ''n1'' demo_deploy demo_db of
    Inl e \<Rightarrow> False | Inr (cmd, db) \<Rightarrow> cmd_targetRevision cmd = ''6''"
  by code_simp

lemma demo_queue_wf: "jobs_wf demo_db" "revisions_wf demo_db" "names_fresh demo_platform demo_db"
  by (simp_all add: jobs_wf_def revisions_within_def names_fresh_def demo_db_def demo_node_def)


definition demo_keyed :: QueueAgentCommandDto where
  "demo_keyed = \<lparr>qc_type = RECONCILE_USERS, qc_targetRevision = None, qc_payload = [], qc_dedupeKey = Some ''k'',
     qc_expectedInboundAppliedRevision = None\<rparr>"

lemma demo_keyed_runs: "case queueCommand demo_platform ''n1'' demo_keyed demo_db of
    Inl e \<Rightarrow> False
  | Inr (cmd, db) \<Rightarrow> (case queueCommand demo_platform ''n1'' demo_keyed db of Inl e \<Rightarrow> False | Inr (cmd2, db2) \<Rightarrow> True)"
  by code_simp


section \<open>Reports\<close>

definition deployed_on :: "Node \<Rightarrow> Node \<Rightarrow> bool" where
  "deployed_on n n' \<longleftrightarrow> nd_id n' = nd_id n \<and> nd_inboundAppliedRevision n \<le> nd_inboundAppliedRevision n'
     \<and> (nd_endpoint n' \<noteq> nd_endpoint n \<longrightarrow> nd_inboundAppliedRevision n < nd_inboundAppliedRevision n')
     \<and> (nd_isActive n \<longrightarrow> nd_isActive n')"

lemma deployed_on_refl [simp]: "deployed_on n n"
  by (simp add: deployed_on_def)

lemma deployed_on_trans: "deployed_on a b \<Longrightarrow> deployed_on b c \<Longrightarrow> deployed_on a c"
  unfolding deployed_on_def by (auto intro: order_trans dest: le_less_trans less_le_trans)

abbreviation deployed_since :: "Node list \<Rightarrow> control_plane \<Rightarrow> bool" where
  "deployed_since rows db \<equiv> list_all2 deployed_on rows (nodes db)"

lemma deployed_update [tkeeps_intros]:
  assumes "\<And>n. p n \<Longrightarrow> deployed_on n (f n)"
  shows "tkeeps (deployed_since rows) (update_nodes p f)"
proof (rule tkeepsI)
  fix db c db' assume old: "deployed_since rows db" and run: "update_nodes p f db = Inr (c, db')"
  have "list_all2 deployed_on (nodes db) (nodes db')"
    using run assms by (auto simp: update_nodes_def tx_simps set_nodes_def tmodify_def list_all2_conv_all_nth)
  from list_all2_trans [OF deployed_on_trans old this] show "deployed_since rows db'" .
qed

lemma deployed_frame: "tframe nodes m \<Longrightarrow> tkeeps (deployed_since rows) m"
  unfolding tkeeps_def by (metis tframeD)

lemma deployed_other [tkeeps_intros]:
  "tkeeps (deployed_since rows) (update_job i f)" "tkeeps (deployed_since rows) (set_bindings p g)"
  "tkeeps (deployed_since rows) (publish_admin n)"
  unfolding update_job_def by (rule deployed_frame; intro tframe_intros; simp)+

lemma deployed_report:
  assumes "0 < jb_targetRevision job"
  shows "tkeeps (deployed_since rows) (applyInboundReport nodeId job input)"
  unfolding applyInboundReport_def Let_def
  by (intro tkeeps_intros) (use assms in \<open>auto simp: deployed_on_def first_validation_def\<close>)

text \<open>
  C30: a command's result never takes a node back: the applied revision does not decrease, the
  connection parameters change only when it grows, and a result deactivates no node.
\<close>

theorem report_never_goes_back:
  assumes "api_completeCommand pf agent commandId input db = Inr (ok, db')" and "revisions_wf db"
  shows "list_all2 (\<lambda>n n'. nd_id n' = nd_id n \<and> nd_inboundAppliedRevision n \<le> nd_inboundAppliedRevision n'
     \<and> (nd_endpoint n' \<noteq> nd_endpoint n \<longrightarrow> nd_inboundAppliedRevision n < nd_inboundAppliedRevision n')
     \<and> (nd_isActive n \<longrightarrow> nd_isActive n')) (nodes db) (nodes db')"
proof -
  from assms(1) obtain job where job: "find (answerable agent commandId) (command_jobs db) = Some job"
    and rest: "tbind (update_job (jb_id job) (result_update pf input)) (\<lambda>_.
     tbind (twhen (cr_status input = Completed \<and> jb_commandType job = ENSURE_INBOUND)
              (applyInboundReport (na_nodeId agent) job input)) (\<lambda>_.
     tbind (twhen (cr_status input = Completed \<and> jb_commandType job \<in> {DISABLE_USER, REMOVE_USER})
              (keep_watermarks (na_nodeId agent) job input)) (\<lambda>_.
     tbind (publish_admin (na_nodeId agent)) (\<lambda>_. tret True)))) db = Inr (ok, db')" (is "?m db = _")
    by (auto simp: api_completeCommand_def tbind_Inr)
  have "job \<in> set (command_jobs db)" using job by (auto simp: find_Some_iff)
  with assms(2) have pos: "0 < jb_targetRevision job" by (auto simp: revisions_within_def reached_def)
  have "tkeeps (deployed_since (nodes db)) (keep_watermarks (na_nodeId agent) job input)"
    unfolding keep_watermarks_def by (auto intro!: tkeeps_intros split: option.splits json.splits)
  then have "tkeeps (deployed_since (nodes db)) ?m"
    by (intro tkeeps_intros deployed_report [OF pos])
  from tkeepsD [OF this _ rest] have "deployed_since (nodes db) db'" by (simp add: list_all2_refl)
  then show ?thesis unfolding deployed_on_def .
qed

text \<open>A binding's disabling that was ordered, and the agent's answer.\<close>

definition demo_result :: AgentCommandResultDto where
  "demo_result = \<lparr>cr_status = Completed, cr_output = Some [(''disableWatermarks'',
     JArr [JObj [(''bootId'', JStr ''boot-1''), (''sequenceThrough'', JStr ''7'')]])], cr_error = None\<rparr>"

definition demo_ordered :: control_plane where
  "demo_ordered = demo_db\<lparr>command_jobs := [new_job demo_platform ''c1'' ''k'' ''n1'' ''a1'' DISABLE_USER 5
     [(''bindingId'', JStr ''b1'')] (Some demo_binding)]\<rparr>"

lemma demo_completes: "case api_completeCommand demo_platform demo_agent ''c1'' demo_result demo_ordered of
    Inl e \<Rightarrow> False | Inr (ok, db) \<Rightarrow> map pb_directDisableWatermarks (bindings db) = [Some (watermarks_json [(''boot-1'', ''7'')])]"
  by code_simp

theorem report_never_goes_back_witness:
  "\<exists>ok db'. api_completeCommand demo_platform demo_agent ''c1'' demo_result demo_ordered = Inr (ok, db')
    \<and> list_all2 (\<lambda>n n'. nd_inboundAppliedRevision n \<le> nd_inboundAppliedRevision n') (nodes demo_ordered) (nodes db')"
proof -
  obtain ok db' where run: "api_completeCommand demo_platform demo_agent ''c1'' demo_result demo_ordered = Inr (ok, db')"
    using demo_completes by (auto split: sum.splits)
  have "revisions_wf demo_ordered"
    by (simp add: revisions_within_def reached_def demo_ordered_def new_job_def demo_db_def demo_node_def)
  from report_never_goes_back [OF run this] run show ?thesis by (auto elim: list_all2_mono)
qed

end
