(* ===== verification/CommandLiveness.thy ===== *)
theory CommandLiveness
  imports QueueProps
begin

text \<open>
  A command its agent never answers is not retried for ever: the sweep hands it out eight times
  and then cancels it.
\<close>

section \<open>One step of the sweep\<close>

abbreviation ids_are :: "string list \<Rightarrow> control_plane \<Rightarrow> bool" where
  "ids_are ids db \<equiv> map jb_id (command_jobs db) = ids"

lemma update_job_rows:
  "update_job i f db = Inr (u, db') \<Longrightarrow> command_jobs db' = tmodify (\<lambda>j. jb_id j = i) f (command_jobs db)"
  by (auto simp: update_job_def tx_simps set_jobs_def)

lemma cancel_rows:
  assumes "cancel_exhausted pf c db = Inr (u, db')"
  obtains "command_jobs db' = command_jobs db" "\<not> (\<exists>j \<in> set (command_jobs db). jb_id j = jb_id c \<and> tried_out j)"
  | s where "command_jobs db' = tmodify (\<lambda>j. jb_id j = jb_id c) (cancel_update pf s) (command_jobs db)"
      "\<exists>j \<in> set (command_jobs db). jb_id j = jb_id c \<and> tried_out j"
proof (cases "find (\<lambda>j. jb_id j = jb_id c \<and> tried_out j) (command_jobs db)")
  case None
  then have "db' = db" using assms by (simp add: cancel_exhausted_def tx_simps)
  then show ?thesis using None that(1) by (auto simp: find_None_iff)
next
  case (Some job)
  then have job: "job \<in> set (command_jobs db)" "jb_id job = jb_id c" "tried_out job" by (auto simp: find_Some_iff)
  from assms Some obtain db1 where up: "update_job (jb_id job) (cancel_update pf (list_ex (replaces job) (command_jobs db))) db = Inr ((), db1)"
    and rest: "command_jobs db' = command_jobs db1"
    by (auto simp: cancel_exhausted_def tx_simps twhen_def set_nodes_def split: if_splits)
  show ?thesis using that(2) update_job_rows [OF up] rest job by auto
qed

lemma cancel_keeps_row:
  assumes "cancel_exhausted pf c db = Inr (u, db')" and "j \<in> set (command_jobs db)"
    and "distinct (map jb_id (command_jobs db))" and "jb_id j = jb_id c \<Longrightarrow> \<not> tried_out j"
  shows "j \<in> set (command_jobs db')"
  using assms(1)
proof (cases rule: cancel_rows)
  case 1
  with assms(2) show ?thesis by simp
next
  case (2 s)
  then obtain i where "i \<in> set (command_jobs db)" "jb_id i = jb_id c" "tried_out i" by blast
  with assms(2-4) have "jb_id j \<noteq> jb_id c" using distinct_map_eq [OF assms(3), of i j] by auto
  with 2(1) assms(2) show ?thesis by force
qed

lemma cancel_cancels:
  assumes "cancel_exhausted pf c db = Inr (u, db')" and "j \<in> set (command_jobs db)" and "jb_id j = jb_id c" and "tried_out j"
  shows "\<exists>j' \<in> set (command_jobs db'). jb_id j' = jb_id j \<and> jb_status j' = Job_cancelled"
  using assms(1)
proof (cases rule: cancel_rows)
  case 1
  with assms show ?thesis by blast
next
  case (2 s)
  have "cancel_update pf s j \<in> set (command_jobs db')" using 2(1) assms(2,3) by force
  then show ?thesis by (intro bexI [of _ "cancel_update pf s j"]) (simp_all add: cancel_update_def)
qed

lemma cancel_ids: "cancel_exhausted pf c db = Inr (u, db') \<Longrightarrow> ids_are ids db \<Longrightarrow> ids_are ids db'"
  by (erule cancel_rows) (auto simp: map_key_tmodify)

lemma claim_rows:
  "claim_job pf job db = Inr (u, db') \<Longrightarrow> command_jobs db' = tmodify (claimable job) (claim_update pf) (command_jobs db)"
  by (auto simp: claim_job_def tx_simps set_jobs_def twhen_def publish_job_def publish_command_def split: if_splits option.splits)

lemma claim_ids: "claim_job pf job db = Inr (u, db') \<Longrightarrow> ids_are ids db \<Longrightarrow> ids_are ids db'"
  by (drule claim_rows) (auto simp: map_key_tmodify)

section \<open>The loops\<close>

definition cancelled_in :: "string \<Rightarrow> control_plane \<Rightarrow> bool" where
  "cancelled_in i db \<longleftrightarrow> (\<exists>j \<in> set (command_jobs db). jb_id j = i \<and> jb_status j = Job_cancelled)"

lemma cancelled_stays:
  assumes "cancelled_in i db" and "distinct (map jb_id (command_jobs db))"
  shows "cancel_exhausted pf c db = Inr (u, db') \<Longrightarrow> cancelled_in i db'"
    and "claim_job pf job db = Inr (v, db'') \<Longrightarrow> cancelled_in i db''"
proof -
  from assms(1) obtain j where j: "j \<in> set (command_jobs db)" "jb_id j = i" "jb_status j = Job_cancelled"
    by (auto simp: cancelled_in_def)
  then have "\<not> tried_out j" "\<not> claimable job j" by (auto simp: tried_out_def claimable_def open_status_def)
  then show "cancel_exhausted pf c db = Inr (u, db') \<Longrightarrow> cancelled_in i db'"
    using cancel_keeps_row [OF _ j(1) assms(2)] j(2,3) by (auto simp: cancelled_in_def)
  show "claim_job pf job db = Inr (v, db'') \<Longrightarrow> cancelled_in i db''"
    using claim_rows [of pf job db v db''] \<open>\<not> claimable job j\<close> j by (force simp: cancelled_in_def)
qed

lemma cancel_loop_keeps:
  assumes "commit_each (cancel_exhausted pf) cs db = (None, db')" and "ids_are ids db" and "distinct ids"
    and "j \<in> set (command_jobs db)" and "\<not> tried_out j"
  shows "j \<in> set (command_jobs db')" "ids_are ids db'"
proof -
  have "j \<in> set (command_jobs (snd (commit_each (cancel_exhausted pf) cs db)))
      \<and> ids_are ids (snd (commit_each (cancel_exhausted pf) cs db))"
    by (rule commit_each_invariant [where I = "\<lambda>s. j \<in> set (command_jobs s) \<and> ids_are ids s"])
      (use assms cancel_keeps_row cancel_ids in blast)+
  with assms(1) show "j \<in> set (command_jobs db')" "ids_are ids db'" by simp_all
qed

lemma cancel_loop_cancels:
  assumes "commit_each (cancel_exhausted pf) cs db = (None, db')" and "ids_are ids db" and "distinct ids"
    and "j \<in> set (command_jobs db) \<and> tried_out j \<and> jb_id j \<in> jb_id ` set cs \<or> cancelled_in (jb_id j) db"
  shows "cancelled_in (jb_id j) db' \<and> ids_are ids db'"
  using assms
proof (induction cs arbitrary: db)
  case Nil
  then show ?case by simp
next
  case (Cons c cs)
  then obtain u db1 where step: "cancel_exhausted pf c db = Inr (u, db1)"
    and rest: "commit_each (cancel_exhausted pf) cs db1 = (None, db')" by (auto simp: commit_each_None simp del: commit_each.simps)
  have ids: "ids_are ids db1" by (rule cancel_ids [OF step Cons.prems(2)])
  have d: "distinct (map jb_id (command_jobs db))" using Cons.prems(2,3) by simp
  have "j \<in> set (command_jobs db1) \<and> tried_out j \<and> jb_id j \<in> jb_id ` set cs \<or> cancelled_in (jb_id j) db1"
  proof (cases "cancelled_in (jb_id j) db")
    case True
    then show ?thesis using cancelled_stays(1) [OF _ d step] by blast
  next
    case False
    with Cons.prems(4) have j: "j \<in> set (command_jobs db)" "tried_out j" "jb_id j \<in> jb_id ` set (c # cs)" by auto
    show ?thesis
    proof (cases "jb_id j = jb_id c")
      case True
      with cancel_cancels [OF step j(1) True j(2)] show ?thesis by (auto simp: cancelled_in_def)
    next
      case False
      with cancel_keeps_row [OF step j(1) d] j show ?thesis by auto
    qed
  qed
  then show ?case by (rule Cons.IH [OF rest ids Cons.prems(3)])
qed

lemma claim_loop:
  assumes "commit_each (claim_job pf) js db = (None, db')" and "ids_are ids db" and "distinct ids"
    and "distinct (map jb_id js)" and "j \<in> set (command_jobs db)" and "open_status (jb_status j)" and "j \<in> set js"
  shows "claim_update pf j \<in> set (command_jobs db')"
  using assms
proof (induction js arbitrary: db)
  case Nil
  then show ?case by simp
next
  case (Cons c js)
  then obtain u db1 where step: "claim_job pf c db = Inr (u, db1)"
    and rest: "commit_each (claim_job pf) js db1 = (None, db')" by (auto simp: commit_each_None simp del: commit_each.simps)
  note rows = claim_rows [OF step]
  have ids: "ids_are ids db1" by (rule claim_ids [OF step Cons.prems(2)])
  show ?case
  proof (cases "c = j")
    case True
    then have "claim_update pf j \<in> set (command_jobs db1)" using rows Cons.prems(5,6) by (force simp: claimable_def)
    moreover have "jb_id j \<notin> jb_id ` set js" using Cons.prems(4) True by auto
    moreover have "claim_update pf j \<in> set (command_jobs s')"
      if "x \<in> set js" "claim_update pf j \<in> set (command_jobs s)" "claim_job pf x s = Inr (u, s')" "jb_id j \<notin> jb_id ` set js" for x s s' u
    proof -
      have "\<not> claimable x (claim_update pf j)" using that(1,4) by (auto simp: claimable_def)
      with claim_rows [OF that(3)] that(2) show ?thesis by force
    qed
    ultimately have "claim_update pf j \<in> set (command_jobs (snd (commit_each (claim_job pf) js db1)))"
      by (intro commit_each_invariant [where I = "\<lambda>s. claim_update pf j \<in> set (command_jobs s)"]) blast+
    with rest show ?thesis by simp
  next
    case False
    with Cons.prems(7) have "j \<in> set js" by simp
    then have "jb_id j \<noteq> jb_id c" using Cons.prems(4) by (metis distinct.simps(2) image_eqI list.set_map list.simps(9))
    then have "j \<in> set (command_jobs db1)" using rows Cons.prems(5) by (force simp: claimable_def)
    with Cons.IH [OF rest ids Cons.prems(3)] Cons.prems False show ?thesis by auto
  qed
qed

section \<open>Sweeps in a row\<close>

text \<open>An open command with an agent, tried \<open>k\<close> times and due from \<open>t\<close> on.\<close>

definition waiting :: "string \<Rightarrow> nat \<Rightarrow> int \<Rightarrow> control_plane \<Rightarrow> bool" where
  "waiting i k t db \<longleftrightarrow> (\<exists>j \<in> set (command_jobs db). jb_id j = i \<and> open_status (jb_status j) \<and> jb_agentId j \<noteq> None
     \<and> jb_attempts j = k \<and> jb_createdAt j \<le> t - 30000 \<and> jb_nextRunAt j \<le> t)"

lemma due_jobs_all:
  assumes "length (command_jobs db) \<le> 500"
  shows "set (due_jobs pf db) = {j \<in> set (command_jobs db). due_job pf j}"
    and "distinct (map jb_id (command_jobs db)) \<Longrightarrow> distinct (map jb_id (due_jobs pf db))"
proof -
  have "due_jobs pf db = sort_key (\<lambda>j. (jb_nextRunAt j, jb_createdAt j)) (filter (due_job pf) (command_jobs db))"
    unfolding due_jobs_def using le_trans [OF length_filter_le [of "due_job pf" "command_jobs db"] assms] by (intro take_all) simp
  then show "set (due_jobs pf db) = {j \<in> set (command_jobs db). due_job pf j}"
    "distinct (map jb_id (command_jobs db)) \<Longrightarrow> distinct (map jb_id (due_jobs pf db))"
    by (auto simp: distinct_map inj_on_def)
qed

lemma sweep_parts:
  assumes "retryDueCommands pf budget db = (None, db')"
  obtains db1 where "commit_each (cancel_exhausted pf) (take budget (exhausted_jobs pf db)) db = (None, db1)"
    "commit_each (claim_job pf) (due_jobs pf db1) db1 = (None, db')"
  using assms that unfolding retryDueCommands_def by (auto split: prod.splits option.splits)

lemma claim_loop_ids: "commit_each (claim_job pf) js db = (e, db') \<Longrightarrow> ids_are ids db \<Longrightarrow> ids_are ids db'"
  using commit_each_invariant [where I = "ids_are ids" and f = "claim_job pf" and xs = js and s = db] claim_ids by fastforce

lemma claim_loop_cancelled:
  assumes "commit_each (claim_job pf) js db = (e, db')" and "ids_are ids db" and "distinct ids" and "cancelled_in i db"
  shows "cancelled_in i db'"
proof -
  have "ids_are ids (snd (commit_each (claim_job pf) js db)) \<and> cancelled_in i (snd (commit_each (claim_job pf) js db))"
    by (rule commit_each_invariant [where I = "\<lambda>s. ids_are ids s \<and> cancelled_in i s"])
      (use assms claim_ids cancelled_stays(2) in blast)+
  with assms(1) show ?thesis by simp
qed

lemma sweep_cancelled:
  assumes "retryDueCommands pf budget db = (None, db')" and "ids_are ids db" and "distinct ids" and "cancelled_in i db"
  shows "cancelled_in i db' \<and> ids_are ids db'"
proof -
  from assms(1) obtain db1 where parts: "commit_each (cancel_exhausted pf) (take budget (exhausted_jobs pf db)) db = (None, db1)"
    "commit_each (claim_job pf) (due_jobs pf db1) db1 = (None, db')" by (rule sweep_parts)
  from assms(4) obtain j :: NodeCommandJob where "jb_id j = i" unfolding cancelled_in_def by blast
  with assms(4) have "jb_id j = i" "cancelled_in (jb_id j) db" by simp_all
  with cancel_loop_cancels [OF parts(1) assms(2,3), of j] have "cancelled_in i db1" "ids_are ids db1" by auto
  with claim_loop_cancelled [OF parts(2) _ assms(3)] claim_loop_ids [OF parts(2)] show ?thesis by blast
qed

lemma sweep_advances:
  assumes "retryDueCommands pf (length (command_jobs db)) db = (None, db')" and "ids_are ids db" and "distinct ids"
    and "length ids \<le> 500" and "waiting i k t db" and "k < 8" and "t \<le> pf_now pf"
  shows "waiting i (Suc k) (pf_now pf + 30000) db' \<and> ids_are ids db'"
proof -
  from assms(1) obtain db1 where parts:
    "commit_each (cancel_exhausted pf) (take (length (command_jobs db)) (exhausted_jobs pf db)) db = (None, db1)"
    "commit_each (claim_job pf) (due_jobs pf db1) db1 = (None, db')" by (rule sweep_parts)
  from assms(5) obtain j where j: "j \<in> set (command_jobs db)" "jb_id j = i" "open_status (jb_status j)" "jb_agentId j \<noteq> None"
    "jb_attempts j = k" "jb_createdAt j \<le> t - 30000" "jb_nextRunAt j \<le> t" by (auto simp: waiting_def)
  have "\<not> tried_out j" using j(5) assms(6) by (simp add: tried_out_def)
  with cancel_loop_keeps [OF parts(1) assms(2,3) j(1)] have j1: "j \<in> set (command_jobs db1)" "ids_are ids db1" by auto
  then have few: "length (command_jobs db1) \<le> 500" "distinct (map jb_id (command_jobs db1))"
    using assms(3,4) by (metis length_map, simp)
  have "due_job pf j" using j assms(6,7) by (auto simp: due_job_def open_status_def)
  then have "j \<in> set (due_jobs pf db1)" using j1(1) due_jobs_all(1) [OF few(1)] by simp
  from claim_loop [OF parts(2) j1(2) assms(3) due_jobs_all(2) [OF few] j1(1) j(3) this]
  have "claim_update pf j \<in> set (command_jobs db')" .
  then have "waiting i (Suc k) (pf_now pf + 30000) db'"
    unfolding waiting_def by (rule bexI [rotated]) (use j assms(7) in \<open>auto simp: claim_update_def open_status_def\<close>)
  with claim_loop_ids [OF parts(2) j1(2)] show ?thesis by blast
qed

lemma sweep_gives_up:
  assumes "retryDueCommands pf (length (command_jobs db)) db = (None, db')" and "ids_are ids db" and "distinct ids"
    and "waiting i 8 t db" and "t \<le> pf_now pf"
  shows "cancelled_in i db' \<and> ids_are ids db'"
proof -
  from assms(1) obtain db1 where parts:
    "commit_each (cancel_exhausted pf) (take (length (command_jobs db)) (exhausted_jobs pf db)) db = (None, db1)"
    "commit_each (claim_job pf) (due_jobs pf db1) db1 = (None, db')" by (rule sweep_parts)
  from assms(4) obtain j where j: "j \<in> set (command_jobs db)" "jb_id j = i" "open_status (jb_status j)" "jb_attempts j = 8"
    "jb_nextRunAt j \<le> t" by (auto simp: waiting_def)
  have all: "take (length (command_jobs db)) (exhausted_jobs pf db) = exhausted_jobs pf db"
    unfolding exhausted_jobs_def by (intro take_all length_filter_le)
  have "tried_out j" "j \<in> set (exhausted_jobs pf db)"
    using j assms(5) by (auto simp: tried_out_def exhausted_jobs_def)
  with cancel_loop_cancels [OF parts(1) assms(2,3), of j] j(1,2) all have "cancelled_in i db1" "ids_are ids db1" by auto
  with claim_loop_cancelled [OF parts(2) _ assms(3)] claim_loop_ids [OF parts(2)] show ?thesis by blast
qed

text \<open>Sweeps at the given times, none of which fails, with nothing in between.\<close>

fun sweeps :: "platform list \<Rightarrow> control_plane \<Rightarrow> control_plane option" where
  "sweeps [] db = Some db"
| "sweeps (pf # pfs) db = (case retryDueCommands pf (length (command_jobs db)) db of
       (None, db') \<Rightarrow> sweeps pfs db' | (Some e, db') \<Rightarrow> None)"

fun spaced :: "int \<Rightarrow> platform list \<Rightarrow> bool" where
  "spaced t [] = True"
| "spaced t (pf # pfs) = (t \<le> pf_now pf \<and> spaced (pf_now pf + 30000) pfs)"

lemma sweeps_cancelled:
  "sweeps pfs db = Some db' \<Longrightarrow> ids_are ids db \<Longrightarrow> distinct ids \<Longrightarrow> cancelled_in i db \<Longrightarrow> cancelled_in i db'"
proof (induction pfs arbitrary: db)
  case (Cons pf pfs)
  then obtain db1 where one: "retryDueCommands pf (length (command_jobs db)) db = (None, db1)" "sweeps pfs db1 = Some db'"
    by (auto split: prod.splits option.splits)
  from sweep_cancelled [OF one(1) Cons.prems(2-4)] Cons.IH [OF one(2) _ Cons.prems(3)] show ?case by blast
qed simp

lemma sweeps_give_up:
  assumes "sweeps pfs db = Some db'" and "ids_are ids db" and "distinct ids" and "length ids \<le> 500"
    and "waiting i k t db" and "k \<le> 8" and "spaced t pfs" and "9 \<le> k + length pfs"
  shows "cancelled_in i db'"
  using assms
proof (induction pfs arbitrary: db k t)
  case Nil
  then show ?case by simp
next
  case (Cons pf pfs)
  then obtain db1 where one: "retryDueCommands pf (length (command_jobs db)) db = (None, db1)" "sweeps pfs db1 = Some db'"
    by (auto split: prod.splits option.splits)
  from Cons.prems(7) have t: "t \<le> pf_now pf" "spaced (pf_now pf + 30000) pfs" by auto
  show ?case
  proof (cases "k = 8")
    case True
    with sweep_gives_up [OF one(1) Cons.prems(2,3) _ t(1)] Cons.prems(5) sweeps_cancelled [OF one(2) _ Cons.prems(3)]
    show ?thesis by blast
  next
    case False
    with Cons.prems(6) have "k < 8" by simp
    from sweep_advances [OF one(1) Cons.prems(2-5) this t(1)]
    have "waiting i (Suc k) (pf_now pf + 30000) db1" "ids_are ids db1" by auto
    with Cons.IH [OF one(2) _ Cons.prems(3,4) _ _ t(2)] \<open>k < 8\<close> Cons.prems(8) show ?thesis by simp
  qed
qed


definition sweep_time :: "nat \<Rightarrow> platform" where
  "sweep_time n = demo_platform\<lparr>pf_now := 30200 + 30000 * int n\<rparr>"

lemma demo_sweeps: "case sweeps (map sweep_time [0..<9]) demo_ordered of
    None \<Rightarrow> False | Some db \<Rightarrow> map jb_status (command_jobs db) = [Job_cancelled] \<and> length (out_commands db) = 8"
  by code_simp


end
