(* ===== verification/AgentRegister.thy ===== *)
theory AgentRegister
  imports CommandLiveness
begin

text \<open>
  Onboarding of a node (\<open>agent/agent-register.service.ts\<close>): an administrator creates a pending
  node with a one-time token, and the agent exchanges the token for its credential.  Columns that
  only describe a node (name, region, provider, tags) are checked but not kept.
\<close>

section \<open>Rows\<close>

definition REGISTER_TOKEN_TTL_MS :: int where
  "REGISTER_TOKEN_TTL_MS = 24 * 60 * 60 * 1000"

definition MAX_REGISTER_ATTEMPTS :: nat where
  "MAX_REGISTER_ATTEMPTS = 3"

definition insert_token :: "AgentRegisterToken \<Rightarrow> (control_plane, unit) tx" where
  "insert_token r db =
     (if rt_tokenHash r \<in> rt_tokenHash ` set (register_tokens db) \<or> rt_id r \<in> rt_id ` set (register_tokens db)
      then Inl (DbError ''P2002'' ''agentRegisterToken'')
      else Inr ((), db\<lparr>register_tokens := register_tokens db @ [r]\<rparr>))"

definition insert_node :: "Node \<Rightarrow> (control_plane, unit) tx" where
  "insert_node n db =
     (if nd_id n \<in> nd_id ` set (nodes db) then Inl (DbError ''P2002'' ''node'')
      else Inr ((), db\<lparr>nodes := nodes db @ [n]\<rparr>))"

definition isAwaitingPanel :: "json option \<Rightarrow> bool" where
  "isAwaitingPanel v = (case v of Some (JObj ms) \<Rightarrow> map_of ms ''mode'' = Some (JStr ''awaiting_panel'') | _ \<Rightarrow> False)"

definition spec_object :: "json option \<Rightarrow> json_object" where
  "spec_object v = (case v of Some (JObj ms) \<Rightarrow> ms | _ \<Rightarrow> [])"

text \<open>The panel parameters a node was created with, if it has any.\<close>

definition onboarding_panel :: "Node \<Rightarrow> (api_error, PanelInboundSpec option) result" where
  "onboarding_panel node =
     (if nd_onboardingSpec node = None \<or> nd_onboardingSpec node = Some JNull \<or> isAwaitingPanel (nd_onboardingSpec node) then Inr None
      else rbind (normalizePanelInbound (spec_object (nd_onboardingSpec node))) (\<lambda>s. Inr (Some s)))"

definition new_token :: "platform \<Rightarrow> string \<Rightarrow> string \<Rightarrow> string \<Rightarrow> int \<Rightarrow> AgentRegisterToken" where
  "new_token pf u nodeId token expiresAt = \<lparr>rt_id = u, rt_nodeId = nodeId, rt_tokenHash = hashAgentToken pf token,
     rt_tokenPrefix = take 24 token, rt_expiresAt = expiresAt, rt_usedAt = None\<rparr>"

section \<open>Creating a node\<close>

definition pending_endpoint :: InboundReportFields where
  "pending_endpoint = \<lparr>irf_serverHost = ''pending-agent'', irf_serverPort = 0, irf_realityPublicKey = [],
     irf_shortId = [], irf_serverName = [], irf_flow = No_flow, irf_fingerprint = ''chrome'', irf_spiderX = ''/''\<rparr>"

definition pending_node :: "string \<Rightarrow> json_object \<Rightarrow> Node" where
  "pending_node u spec = \<lparr>nd_id = u, nd_controlMode = Direct_primary, nd_controlStatus = ''pending_register'',
     nd_registrationStatus = Some ''pending_register'',
     nd_onboardingSpec = Some (JObj (mput ''activateOnFirstValidation'' (JBool True) spec)), nd_isActive = False,
     nd_agentLastSeenAt = None, nd_agentConfigRevision = 0, nd_inboundAppliedRevision = 0, nd_endpoint = pending_endpoint\<rparr>"

record CreateAgentNodeResult =
  cn_node :: Node
  cn_registerToken :: string
  cn_expiresAt :: int

definition createAgentNode :: "platform \<Rightarrow> string \<Rightarrow> json_object option \<Rightarrow> (control_plane, CreateAgentNodeResult) tx" where
  "createAgentNode pf name panelInbound =
     tbind (tassert (js_trim name \<noteq> []) (BadRequest ''name'')) (\<lambda>_.
     tbind (tassert (length (js_trim name) \<le> 120) (BadRequest ''name'')) (\<lambda>_.
     tbind (tlift (case panelInbound of
         None \<Rightarrow> Inr [(''mode'', JStr ''awaiting_panel'')]
       | Some p \<Rightarrow> rbind (normalizePanelInbound p) (\<lambda>s. Inr (panel_json s)))) (\<lambda>spec.
     tbind (draw_random pf) (\<lambda>secret.
     let token = ''chordv_register_'' @ secret; expiresAt = pf_now pf + REGISTER_TOKEN_TTL_MS in
     tbind (draw_uuid pf) (\<lambda>u.
     tbind (insert_node (pending_node u spec)) (\<lambda>_.
     tbind (draw_uuid pf) (\<lambda>t.
     tbind (insert_token (new_token pf t u token expiresAt)) (\<lambda>_.
     tret \<lparr>cn_node = pending_node u spec, cn_registerToken = token, cn_expiresAt = expiresAt\<rparr>))))))))"

record OnboardingView =
  ov_node :: Node
  ov_mode :: string
  ov_environmentReady :: bool
  ov_spec :: "PanelInboundSpec option"
  ov_command :: "(string \<times> job_status \<times> string option \<times> string) option"

definition ready_agent :: "platform \<Rightarrow> NodeAgent \<Rightarrow> bool" where
  "ready_agent pf a \<longleftrightarrow> is_go_agent a \<and> na_xrayStatus a \<in> {''awaiting_inbound'', ''healthy''}
     \<and> (case na_lastSeenAt a of None \<Rightarrow> False | Some t \<Rightarrow> pf_now pf - t < 60000)"

definition getOnboarding :: "platform \<Rightarrow> control_plane \<Rightarrow> string \<Rightarrow> (api_error, OnboardingView) result" where
  "getOnboarding pf db nodeId =
     rbind (require_some (tfind nd_id nodeId (nodes db)) (NotFound ''node'')) (\<lambda>node.
     let live = take 1 (sort_key (\<lambda>a. - na_createdAt a) (filter (\<lambda>a. na_nodeId a = nodeId \<and> na_revokedAt a = None) (agents db)));
         job = (case sort_key (\<lambda>j. - jb_targetRevision j) (filter (\<lambda>j. jb_nodeId j = nodeId \<and> jb_commandType j = ENSURE_INBOUND)
                  (command_jobs db)) of [] \<Rightarrow> None | j # _ \<Rightarrow> Some j);
         candidate = (case job of Some j \<Rightarrow> jb_payload j | None \<Rightarrow> spec_object (nd_onboardingSpec node));
         panel = panel_mode candidate in
     rbind (if panel then rbind (normalizePanelInbound candidate) (\<lambda>s. Inr (Some s)) else Inr None) (\<lambda>spec.
     Inr \<lparr>ov_node = node,
          ov_mode = (if panel then ''panel'' else if isAwaitingPanel (nd_onboardingSpec node) then ''environment'' else ''legacy''),
          ov_environmentReady = list_ex (ready_agent pf) live, ov_spec = spec,
          ov_command = map_option (\<lambda>j. (jb_id j, jb_status j, jb_lastError j, bigint_toString (jb_targetRevision j))) job\<rparr>))"

section \<open>Issuing a token\<close>

definition live_agents :: "control_plane \<Rightarrow> string \<Rightarrow> NodeAgent list" where
  "live_agents db nodeId = filter (\<lambda>a. na_nodeId a = nodeId \<and> na_revokedAt a = None) (agents db)"

definition issueRegisterTokenOnce :: "platform \<Rightarrow> string \<Rightarrow> string \<Rightarrow> int \<Rightarrow> (control_plane, unit) tx" where
  "issueRegisterTokenOnce pf nodeId token expiresAt =
     tbind (tread (\<lambda>db. tfind nd_id nodeId (nodes db))) (\<lambda>row.
     tbind (tfound row (NotFound ''node'')) (\<lambda>node.
     tbind (tassert (nd_registrationStatus node = Some ''pending_register'') (BadRequest ''registrationStatus'')) (\<lambda>_.
     tbind (tread (\<lambda>db. live_agents db nodeId = [])) (\<lambda>free.
     tbind (tassert free (BadRequest ''nodeAgents'')) (\<lambda>_.
     tbind (set_tokens (\<lambda>r. rt_nodeId r = nodeId \<and> rt_usedAt r = None) (\<lambda>r. r\<lparr>rt_usedAt := Some (pf_now pf)\<rparr>)) (\<lambda>_.
     tbind (draw_uuid pf) (\<lambda>u.
     tbind (insert_token (new_token pf u nodeId token expiresAt)) (\<lambda>_.
     set_nodes (\<lambda>n. nd_id n = nodeId) (\<lambda>n. n\<lparr>nd_registrationStatus := Some ''pending_register''\<rparr>)))))))))"

definition serialization_failure :: "api_error \<Rightarrow> bool" where
  "serialization_failure e = (case e of DbError code _ \<Rightarrow> code = ''P2034'' | _ \<Rightarrow> False)"

definition with_register_retry :: "db_faults \<Rightarrow> ('s, 'a) tx \<Rightarrow> ('s, 'a) tx" where
  "with_register_retry fault m s = retry_loop MAX_REGISTER_ATTEMPTS serialization_failure (attempt_tx fault m s) 1"

definition issueRegisterToken :: "platform \<Rightarrow> db_faults \<Rightarrow> string \<Rightarrow> (control_plane, string \<times> int) tx" where
  "issueRegisterToken pf fault nodeId =
     tbind (draw_random pf) (\<lambda>secret.
     let token = ''chordv_register_'' @ secret; expiresAt = pf_now pf + REGISTER_TOKEN_TTL_MS in
     tbind (with_register_retry fault (issueRegisterTokenOnce pf nodeId token expiresAt)) (\<lambda>_.
     tret (token, expiresAt)))"

section \<open>Registering\<close>

definition registered_spec :: "AgentRegisterDto \<Rightarrow> Node \<Rightarrow> (api_error, PanelInboundSpec option) result" where
  "registered_spec input node =
     rbind (onboarding_panel node) (\<lambda>spec.
     rbind (require ((spec = None \<and> \<not> isAwaitingPanel (nd_onboardingSpec node)) \<or> take 3 (rg_agentVersion input) = ''go-'')
              (BadRequest ''agentVersion'')) (\<lambda>_.
     case spec of
       None \<Rightarrow> Inr None
     | Some s \<Rightarrow>
         case rg_xrayInboundTag input of
           None \<Rightarrow> Inl (BadRequest ''xrayInboundTag'')
         | Some tag \<Rightarrow>
             rbind (require (tag_ok tag) (BadRequest ''xrayInboundTag'')) (\<lambda>_.
             rbind (require (\<not> (ps_tagOverrideConfirmed s \<and> ps_inboundTag s \<noteq> tag)) (BadRequest ''inboundTag'')) (\<lambda>_.
             Inr (Some (s\<lparr>ps_inboundTag := tag, ps_tagOverrideConfirmed := True\<rparr>))))))"

definition registered_agent :: "platform \<Rightarrow> string \<Rightarrow> string \<Rightarrow> string \<Rightarrow> AgentRegisterDto \<Rightarrow> NodeAgent" where
  "registered_agent pf u agentId nodeId input =
     (new_agent pf u agentId nodeId (rg_agentToken input))\<lparr>na_version := Some (rg_agentVersion input),
       na_bootId := Some (rg_bootId input), na_status := ''online'', na_lastSeenAt := Some (pf_now pf)\<rparr>"

definition register_node :: "platform \<Rightarrow> PanelInboundSpec option \<Rightarrow> Node \<Rightarrow> Node" where
  "register_node pf spec n =
     (case spec of
        None \<Rightarrow> n
      | Some s \<Rightarrow> n\<lparr>nd_agentConfigRevision := nd_agentConfigRevision n + 1,
            nd_onboardingSpec := Some (JObj (mput ''activateOnFirstValidation''
              (JBool (onboarding_flag n ''activateOnFirstValidation'' = Some (JBool True))) (panel_json s)))\<rparr>)
     \<lparr>nd_registrationStatus := Some ''agent_ready'', nd_agentLastSeenAt := Some (pf_now pf)\<rparr>"

definition mint_credential ::
  "platform \<Rightarrow> AgentRegisterDto \<Rightarrow> string \<Rightarrow> AgentRegisterToken \<Rightarrow> Node \<Rightarrow> (control_plane, string) tx" where
  "mint_credential pf input agentId row node =
     tbind (tassert (rt_expiresAt row > pf_now pf) (Unauthorized ''expired'')) (\<lambda>_.
     tbind (tread (\<lambda>db. live_agents db (nd_id node) = [])) (\<lambda>free.
     tbind (tassert free (Unauthorized ''nodeAgents'')) (\<lambda>_.
     tbind (tassert (rt_usedAt row = None) (Unauthorized ''used'')) (\<lambda>_.
     tbind (tassert (nd_registrationStatus node = Some ''pending_register'') (Unauthorized ''registrationStatus'')) (\<lambda>_.
     tbind (tlift (registered_spec input node)) (\<lambda>spec.
     tbind (draw_uuid pf) (\<lambda>u.
     tbind (insert_agent (registered_agent pf u agentId (nd_id node) input)) (\<lambda>agent.
     tbind (set_tokens (\<lambda>r. rt_id r = rt_id row) (\<lambda>r. r\<lparr>rt_usedAt := Some (pf_now pf)\<rparr>)) (\<lambda>_.
     tbind (set_nodes (\<lambda>n. nd_id n = nd_id node) (register_node pf spec)) (\<lambda>_.
     tbind (case spec of
         None \<Rightarrow> tret ()
       | Some s \<Rightarrow>
           tbind (draw_uuid pf) (\<lambda>j.
           tbind (insert_job (new_job pf j (''onboarding:'' @ nd_id node) (nd_id node) (na_id agent) ENSURE_INBOUND
                    (nd_agentConfigRevision node + 1) (panel_json s) None)) (\<lambda>_. tret ()))) (\<lambda>_.
     tret agentId)))))))))))"

definition register_tx :: "platform \<Rightarrow> AgentRegisterDto \<Rightarrow> string \<Rightarrow> (control_plane, string \<times> string) tx" where
  "register_tx pf input agentId =
     (let agentHash = hashAgentToken pf (rg_agentToken input) in
      tbind (tread (\<lambda>db. tfind rt_tokenHash (hashAgentToken pf (rg_registerToken input)) (register_tokens db))) (\<lambda>found.
      tbind (tfound found (Unauthorized ''registerToken'')) (\<lambda>row.
      tbind (tread (\<lambda>db. tfind nd_id (rt_nodeId row) (nodes db))) (\<lambda>found.
      tbind (tfound found (Unauthorized ''node'')) (\<lambda>node.
      tbind (tread (\<lambda>db. list_ex (\<lambda>a. na_tokenHash a = agentHash \<and> na_nodeId a \<noteq> nd_id node) (agents db))) (\<lambda>elsewhere.
      tbind (tassert (\<not> elsewhere) (Unauthorized ''agentToken'')) (\<lambda>_.
      tbind (tread (\<lambda>db. find (\<lambda>a. na_tokenHash a = agentHash) (live_agents db (nd_id node)))) (\<lambda>existing.
      case (rt_usedAt row, existing) of
        (Some _, Some a) \<Rightarrow> tret (na_agentId a, nd_id node)
      | _ \<Rightarrow> tbind (mint_credential pf input agentId row node) (\<lambda>i. tret (i, nd_id node))))))))))"

definition registerOnce :: "platform \<Rightarrow> AgentRegisterDto \<Rightarrow> (control_plane, string \<times> string) tx" where
  "registerOnce pf input =
     tbind (draw_random pf) (\<lambda>suffix.
     tbind (register_tx pf input (''agent-'' @ suffix)) (\<lambda>result.
     tbind (publish_admin (snd result)) (\<lambda>_.
     tret result)))"

text \<open>The endpoint, with the retries of the service; a failed attempt leaves no trace.\<close>

definition register_agent :: "platform \<Rightarrow> db_faults \<Rightarrow> AgentRegisterDto \<Rightarrow> (control_plane, string \<times> string) tx" where
  "register_agent pf fault body =
     tbind (tassert (valid_register body) (BadRequest ''body'')) (\<lambda>_. with_register_retry fault (registerOnce pf body))"

record TokenNode =
  tn_nodeId :: string
  tn_usable :: bool
  tn_environmentOnly :: bool
  tn_spec :: "PanelInboundSpec option"

definition resolveTokenNode :: "platform \<Rightarrow> control_plane \<Rightarrow> string \<Rightarrow> (api_error, TokenNode option) result" where
  "resolveTokenNode pf db token =
     (if token = [] \<or> length token > 128 then Inr None
      else case tfind rt_tokenHash (hashAgentToken pf token) (register_tokens db) of
        None \<Rightarrow> Inr None
      | Some row \<Rightarrow>
          let node = tfind nd_id (rt_nodeId row) (nodes db) in
          rbind (case node of None \<Rightarrow> Inr None | Some n \<Rightarrow> onboarding_panel n) (\<lambda>spec.
          Inr (Some \<lparr>tn_nodeId = rt_nodeId row, tn_usable = (rt_usedAt row = None \<and> rt_expiresAt row > pf_now pf),
            tn_environmentOnly = (case node of None \<Rightarrow> False | Some n \<Rightarrow> isAwaitingPanel (nd_onboardingSpec n)),
            tn_spec = spec\<rparr>)))"

end
