(* ===== verification/RegisterSpec.thy ===== *)
theory RegisterSpec
  imports AgentRegister
begin

text \<open>
  Credentials: identifiers and token hashes are unique, a node has at most one live agent, a
  registration token mints one credential, and that credential passes the guard.
\<close>

section \<open>The invariant\<close>

definition live :: "NodeAgent \<Rightarrow> bool" where
  "live a \<longleftrightarrow> na_revokedAt a = None"

definition agents_wf :: "control_plane \<Rightarrow> bool" where
  "agents_wf db \<longleftrightarrow> distinct (map na_id (agents db)) \<and> distinct (map na_agentId (agents db))
     \<and> distinct (map na_tokenHash (agents db)) \<and> distinct (map na_nodeId (filter live (agents db)))"

definition tokens_wf :: "control_plane \<Rightarrow> bool" where
  "tokens_wf db \<longleftrightarrow> distinct (map rt_tokenHash (register_tokens db)) \<and> distinct (map rt_id (register_tokens db))"

text \<open>An update of agents that keeps who they are and revokes at most.\<close>

lemma live_tmodify:
  assumes "\<And>a. p a \<Longrightarrow> na_nodeId (f a) = na_nodeId a \<and> (live (f a) \<longrightarrow> live a)"
    and "distinct (map na_nodeId (filter live rows))"
  shows "distinct (map na_nodeId (filter live (tmodify p f rows)))
    \<and> na_nodeId ` set (filter live (tmodify p f rows)) \<subseteq> na_nodeId ` set (filter live rows)"
  using assms(2)
proof (induction rows)
  case Nil
  then show ?case by simp
next
  case (Cons a rows)
  then show ?case using assms(1) [of a] by (auto split: if_splits)
qed

lemma agents_wf_set [tkeeps_intros]:
  assumes "\<And>a. p a \<Longrightarrow> na_id (f a) = na_id a \<and> na_agentId (f a) = na_agentId a \<and> na_tokenHash (f a) = na_tokenHash a
    \<and> na_nodeId (f a) = na_nodeId a \<and> (live (f a) \<longrightarrow> live a)"
  shows "tkeeps agents_wf (set_agents p f)"
proof (rule tkeepsI)
  fix db u db' assume wf: "agents_wf db" and run: "set_agents p f db = Inr (u, db')"
  then have rows: "agents db' = tmodify p f (agents db)" by (auto simp: set_agents_def)
  have "map na_id (agents db') = map na_id (agents db)" "map na_agentId (agents db') = map na_agentId (agents db)"
    "map na_tokenHash (agents db') = map na_tokenHash (agents db)"
    unfolding rows using assms by (auto intro!: map_key_tmodify)
  moreover have "distinct (map na_nodeId (filter live (agents db')))"
    unfolding rows using live_tmodify [of p f "agents db"] assms wf by (auto simp: agents_wf_def)
  ultimately show "agents_wf db'" using wf by (simp add: agents_wf_def)
qed

lemma agents_wf_frame: "tframe agents m \<Longrightarrow> tkeeps agents_wf m"
  unfolding tkeeps_def agents_wf_def by (metis tframeD)

lemma agents_wf_other [tkeeps_intros]:
  "tkeeps agents_wf (set_nodes p1 f1)" "tkeeps agents_wf (set_tokens p2 f2)" "tkeeps agents_wf (draw_uuid pf)"
  "tkeeps agents_wf (draw_random pf)" "tkeeps agents_wf (insert_job j)" "tkeeps agents_wf (publish_admin n)"
  by (rule agents_wf_frame; intro tframe_intros; simp)+

lemma agents_wf_revoke: "tkeeps agents_wf (revokeCredential pf nodeId agentRecordId)"
  unfolding revokeCredential_def Let_def by (intro tkeeps_intros) (simp add: live_def)

lemma insert_agent_wf:
  assumes "agents_wf db" and "insert_agent a db = Inr (r, db')" and "live_agents db (na_nodeId a) = []"
  shows "agents_wf db'"
proof -
  from assms(2) have rows: "agents db' = agents db @ [a]" and new: "na_id a \<notin> na_id ` set (agents db)"
    "na_agentId a \<notin> na_agentId ` set (agents db)" "na_tokenHash a \<notin> na_tokenHash ` set (agents db)"
    by (auto simp: insert_agent_def split: if_splits)
  have "na_nodeId a \<notin> na_nodeId ` set (filter live (agents db))"
    using assms(3) by (force simp: live_agents_def live_def filter_empty_conv)
  with assms(1) new show ?thesis by (simp add: agents_wf_def rows)
qed

text \<open>The tail of creating a credential: revoke what the node has, insert the new one.\<close>

lemma credential_tail:
  "tkeeps agents_wf (tbind (set_agents (\<lambda>a. na_nodeId a = nodeId \<and> na_revokedAt a = None)
     (\<lambda>a. a\<lparr>na_revokedAt := Some (pf_now pf), na_status := ''revoked''\<rparr>)) (\<lambda>_.
   tbind (draw_uuid pf) (\<lambda>u. tbind (insert_agent (new_agent pf u agentId nodeId token)) (\<lambda>agent.
   tret (serializeAgent pf agent, token)))))" (is "tkeeps _ (tbind ?revoke _)")
proof (rule tkeepsI)
  fix db r db' assume wf: "agents_wf db" and "tbind ?revoke (\<lambda>_.
     tbind (draw_uuid pf) (\<lambda>u. tbind (insert_agent (new_agent pf u agentId nodeId token)) (\<lambda>agent.
     tret (serializeAgent pf agent, token)))) db = Inr (r, db')"
  then obtain db2 u db3 agent where rev: "?revoke db = Inr ((), db2)" and u: "draw_uuid pf db2 = Inr (u, db3)"
    and ins: "insert_agent (new_agent pf u agentId nodeId token) db3 = Inr (agent, db')"
    unfolding tx_simps by auto
  have "tkeeps agents_wf ?revoke" by (rule agents_wf_set) (simp add: live_def)
  then have "agents_wf db2" using wf rev by (blast dest: tkeepsD)
  moreover have same: "agents db3 = agents db2" using u by (auto simp: draw_uuid_def)
  ultimately have "agents_wf db3" by (simp add: agents_wf_def)
  moreover have "live_agents db3 nodeId = []"
  proof -
    have rows: "agents db2 = tmodify (\<lambda>a. na_nodeId a = nodeId \<and> na_revokedAt a = None)
        (\<lambda>a. a\<lparr>na_revokedAt := Some (pf_now pf), na_status := ''revoked''\<rparr>) (agents db)"
      using rev by (simp add: set_agents_def)
    have "\<not> (na_nodeId a = nodeId \<and> na_revokedAt a = None)" if "a \<in> set (agents db2)" for a
    proof -
      from that obtain r where "a = (if na_nodeId r = nodeId \<and> na_revokedAt r = None
          then r\<lparr>na_revokedAt := Some (pf_now pf), na_status := ''revoked''\<rparr> else r)"
        unfolding rows set_tmodify by blast
      then show ?thesis by (cases "na_nodeId r = nodeId \<and> na_revokedAt r = None") simp_all
    qed
    then show ?thesis by (simp add: live_agents_def same filter_empty_conv)
  qed
  ultimately show "agents_wf db'" by (intro insert_agent_wf [OF _ ins]) (simp_all add: new_agent_def)
qed

lemma agents_wf_credential: "tkeeps agents_wf (createCredential pf nodeId requestedAgentId)"
  unfolding createCredential_def Let_def
  by (intro tkeeps_tbind [OF tkeeps_basic(3)] tkeeps_tbind [OF tkeeps_basic(5)] tkeeps_tbind [OF agents_wf_other(4)]
      tkeeps_tbind [OF tkeeps_if] credential_tail tkeeps_basic)

section \<open>Registering in closed form\<close>

lemma retry_register_Inr:
  assumes "with_register_retry fault m s = Inr r"
  shows "m s = Inr r"
proof -
  have "(1::nat) \<le> MAX_REGISTER_ATTEMPTS" by (simp add: MAX_REGISTER_ATTEMPTS_def)
  from retry_loop_last [OF this, of serialization_failure "attempt_tx fault m s"] assms obtain k
    where "attempt_tx fault m s k = Inr r" by (auto simp: with_register_retry_def)
  then show ?thesis by (simp add: attempt_tx_def split: option.splits)
qed

lemma mint_stages:
  assumes "mint_credential pf input agentId row node db = Inr (i, db')"
  obtains spec u db1 agent db2 db3 db4 where
    "rt_usedAt row = None" "live_agents db (nd_id node) = []" "i = agentId"
    "draw_uuid pf db = Inr (u, db1)"
    "insert_agent (registered_agent pf u agentId (nd_id node) input) db1 = Inr (agent, db2)"
    "set_tokens (\<lambda>r. rt_id r = rt_id row) (\<lambda>r. r\<lparr>rt_usedAt := Some (pf_now pf)\<rparr>) db2 = Inr ((), db3)"
    "set_nodes (\<lambda>n. nd_id n = nd_id node) (register_node pf spec) db3 = Inr ((), db4)"
    "(case spec of
         None \<Rightarrow> tret ()
       | Some s \<Rightarrow>
           tbind (draw_uuid pf) (\<lambda>j.
           tbind (insert_job (new_job pf j (''onboarding:'' @ nd_id node) (nd_id node) (na_id agent) ENSURE_INBOUND
                    (nd_agentConfigRevision node + 1) (panel_json s) None)) (\<lambda>_. tret ()))) db4 = Inr ((), db')"
  using assms by (auto simp: mint_credential_def tx_simps)

lemma mint_effect:
  assumes "mint_credential pf input agentId row node db = Inr (i, db')"
  shows "rt_usedAt row = None" "live_agents db (nd_id node) = []" "i = agentId"
    "\<exists>u. agents db' = agents db @ [registered_agent pf u agentId (nd_id node) input]
       \<and> na_id (registered_agent pf u agentId (nd_id node) input) \<notin> na_id ` set (agents db)
       \<and> agentId \<notin> na_agentId ` set (agents db) \<and> hashAgentToken pf (rg_agentToken input) \<notin> na_tokenHash ` set (agents db)"
    "register_tokens db' = tmodify (\<lambda>r. rt_id r = rt_id row) (\<lambda>r. r\<lparr>rt_usedAt := Some (pf_now pf)\<rparr>) (register_tokens db)"
    "map nd_id (nodes db') = map nd_id (nodes db)"
proof -
  from assms obtain spec u db1 agent db2 db3 db4 where st:
    "rt_usedAt row = None" "live_agents db (nd_id node) = []" "i = agentId"
    "draw_uuid pf db = Inr (u, db1)"
    "insert_agent (registered_agent pf u agentId (nd_id node) input) db1 = Inr (agent, db2)"
    "set_tokens (\<lambda>r. rt_id r = rt_id row) (\<lambda>r. r\<lparr>rt_usedAt := Some (pf_now pf)\<rparr>) db2 = Inr ((), db3)"
    "set_nodes (\<lambda>n. nd_id n = nd_id node) (register_node pf spec) db3 = Inr ((), db4)"
    "(case spec of
         None \<Rightarrow> tret ()
       | Some s \<Rightarrow>
           tbind (draw_uuid pf) (\<lambda>j.
           tbind (insert_job (new_job pf j (''onboarding:'' @ nd_id node) (nd_id node) (na_id agent) ENSURE_INBOUND
                    (nd_agentConfigRevision node + 1) (panel_json s) None)) (\<lambda>_. tret ()))) db4 = Inr ((), db')"
    by (rule mint_stages) blast
  have "view db' = view db4"
    if "\<And>db t. view (db\<lparr>command_jobs := t\<rparr>) = view db" "\<And>db n. view (db\<lparr>fresh := n\<rparr>) = view db" for view :: "control_plane \<Rightarrow> 'v"
    using st(8) that
    by (auto simp: tx_simps draw_uuid_def insert_job_def split: option.splits if_splits)
  note same = this
  have tail: "agents db' = agents db4" "register_tokens db' = register_tokens db4" "nodes db' = nodes db4"
    by (rule same; simp)+
  show "rt_usedAt row = None" "live_agents db (nd_id node) = []" "i = agentId" by fact+
  show "\<exists>u. agents db' = agents db @ [registered_agent pf u agentId (nd_id node) input]
       \<and> na_id (registered_agent pf u agentId (nd_id node) input) \<notin> na_id ` set (agents db)
       \<and> agentId \<notin> na_agentId ` set (agents db) \<and> hashAgentToken pf (rg_agentToken input) \<notin> na_tokenHash ` set (agents db)"
    using st(4-7) tail(1)
    by (intro exI [of _ u])
      (auto simp: draw_uuid_def insert_agent_def set_tokens_def set_nodes_def registered_agent_def new_agent_def split: if_splits)
  show "register_tokens db' = tmodify (\<lambda>r. rt_id r = rt_id row) (\<lambda>r. r\<lparr>rt_usedAt := Some (pf_now pf)\<rparr>) (register_tokens db)"
    using st(4-7) tail(2) by (auto simp: draw_uuid_def insert_agent_def set_tokens_def set_nodes_def split: if_splits)
  have "nodes db3 = nodes db" using st(4-6) by (auto simp: draw_uuid_def insert_agent_def set_tokens_def split: if_splits)
  moreover have "nd_id (register_node pf spec n) = nd_id n" for n by (simp add: register_node_def split: option.splits)
  ultimately show "map nd_id (nodes db') = map nd_id (nodes db)"
    using st(7) tail(3) by (auto simp: set_nodes_def map_key_tmodify)
qed

text \<open>
  What holds after a registration: the token is used, and its node has a live agent with the
  presented secret, the one whose identity was returned.
\<close>

definition bound_to :: "platform \<Rightarrow> control_plane \<Rightarrow> AgentRegisterDto \<Rightarrow> string \<times> string \<Rightarrow> bool" where
  "bound_to pf db input r \<longleftrightarrow>
     (\<exists>row. tfind rt_tokenHash (hashAgentToken pf (rg_registerToken input)) (register_tokens db) = Some row
        \<and> rt_usedAt row \<noteq> None \<and> rt_nodeId row = snd r)
     \<and> (\<exists>a \<in> set (agents db). live a \<and> na_nodeId a = snd r \<and> na_tokenHash a = hashAgentToken pf (rg_agentToken input)
          \<and> na_agentId a = fst r)"

lemma register_cases:
  assumes "register_tx pf input agentId db = Inr (r, db')"
  obtains row node where
    "tfind rt_tokenHash (hashAgentToken pf (rg_registerToken input)) (register_tokens db) = Some row"
    "nd_id node = rt_nodeId row" "snd r = nd_id node"
    "(rt_usedAt row \<noteq> None \<and> db' = db \<and> (\<exists>a. find (\<lambda>a. na_tokenHash a = hashAgentToken pf (rg_agentToken input))
         (live_agents db (nd_id node)) = Some a \<and> fst r = na_agentId a))
     \<or> mint_credential pf input agentId row node db = Inr (fst r, db')"
proof -
  from assms obtain row node where st:
    "tfind rt_tokenHash (hashAgentToken pf (rg_registerToken input)) (register_tokens db) = Some row"
    "tfind nd_id (rt_nodeId row) (nodes db) = Some node"
    "(case (rt_usedAt row, find (\<lambda>a. na_tokenHash a = hashAgentToken pf (rg_agentToken input)) (live_agents db (nd_id node))) of
        (Some _, Some a) \<Rightarrow> tret (na_agentId a, nd_id node)
      | _ \<Rightarrow> tbind (mint_credential pf input agentId row node) (\<lambda>i. tret (i, nd_id node))) db = Inr (r, db')"
    unfolding register_tx_def Let_def tx_simps by auto
  have "nd_id node = rt_nodeId row" using tfind_Some_in [OF st(2)] by simp
  moreover have "snd r = nd_id node \<and>
    ((rt_usedAt row \<noteq> None \<and> db' = db \<and> (\<exists>a. find (\<lambda>a. na_tokenHash a = hashAgentToken pf (rg_agentToken input))
         (live_agents db (nd_id node)) = Some a \<and> fst r = na_agentId a))
     \<or> mint_credential pf input agentId row node db = Inr (fst r, db'))"
    using st(3) by (auto simp: tx_simps split: option.splits)
  ultimately show ?thesis using that st(1) by blast
qed

lemma register_binds:
  assumes "register_tx pf input agentId db = Inr (r, db')"
  shows "bound_to pf db' input r"
  using assms
proof (rule register_cases)
  fix row node
  assume row: "tfind rt_tokenHash (hashAgentToken pf (rg_registerToken input)) (register_tokens db) = Some row"
    and node: "nd_id node = rt_nodeId row" "snd r = nd_id node"
    and outcome: "(rt_usedAt row \<noteq> None \<and> db' = db \<and> (\<exists>a. find (\<lambda>a. na_tokenHash a = hashAgentToken pf (rg_agentToken input))
         (live_agents db (nd_id node)) = Some a \<and> fst r = na_agentId a))
     \<or> mint_credential pf input agentId row node db = Inr (fst r, db')"
  from outcome show ?thesis
  proof
    assume "rt_usedAt row \<noteq> None \<and> db' = db \<and> (\<exists>a. find (\<lambda>a. na_tokenHash a = hashAgentToken pf (rg_agentToken input))
         (live_agents db (nd_id node)) = Some a \<and> fst r = na_agentId a)"
    then show ?thesis using row node
      by (auto simp: bound_to_def find_Some_iff live_agents_def live_def dest!: nth_mem)
  next
    assume mint: "mint_credential pf input agentId row node db = Inr (fst r, db')"
    note eff = mint_effect [OF mint]
    have "tfind rt_tokenHash (hashAgentToken pf (rg_registerToken input)) (register_tokens db') =
        Some (row\<lparr>rt_usedAt := Some (pf_now pf)\<rparr>)"
      unfolding eff(5) using row by (simp add: tfind_tmodify)
    moreover from eff(4) obtain u where "agents db' = agents db @ [registered_agent pf u agentId (nd_id node) input]" by blast
    ultimately show ?thesis using node eff(3)
      by (auto simp: bound_to_def registered_agent_def new_agent_def live_def)
  qed
qed

lemma register_wf:
  assumes "register_tx pf input agentId db = Inr (r, db')" and "agents_wf db"
  shows "agents_wf db'"
  using assms(1)
proof (rule register_cases)
  fix row node
  assume "(rt_usedAt row \<noteq> None \<and> db' = db \<and> (\<exists>a. find (\<lambda>a. na_tokenHash a = hashAgentToken pf (rg_agentToken input))
         (live_agents db (nd_id node)) = Some a \<and> fst r = na_agentId a))
     \<or> mint_credential pf input agentId row node db = Inr (fst r, db')"
  then show ?thesis
  proof
    assume mint: "mint_credential pf input agentId row node db = Inr (fst r, db')"
    from mint_effect(4) [OF mint] obtain u where u: "agents db' = agents db @ [registered_agent pf u agentId (nd_id node) input]"
      "na_id (registered_agent pf u agentId (nd_id node) input) \<notin> na_id ` set (agents db)"
      "agentId \<notin> na_agentId ` set (agents db)" "hashAgentToken pf (rg_agentToken input) \<notin> na_tokenHash ` set (agents db)" by blast
    let ?a = "registered_agent pf u agentId (nd_id node) input"
    have "insert_agent ?a db = Inr (?a, db\<lparr>agents := agents db @ [?a]\<rparr>)"
      using u(2-4) by (simp add: insert_agent_def registered_agent_def new_agent_def)
    from insert_agent_wf [OF assms(2) this] mint_effect(2) [OF mint] u(1) show ?thesis
      by (simp add: agents_wf_def registered_agent_def new_agent_def)
  qed (use assms(2) in simp)
qed

lemma register_agent_stages:
  assumes "register_agent pf fault input db = Inr (r, db')"
  obtains agentId db0 db1 where "valid_register input" "agents db0 = agents db" "register_tokens db0 = register_tokens db"
    "nodes db0 = nodes db" "command_jobs db0 = command_jobs db" "register_tx pf input agentId db0 = Inr (r, db1)"
    "agents db' = agents db1" "register_tokens db' = register_tokens db1" "nodes db' = nodes db1" "command_jobs db' = command_jobs db1"
proof -
  from assms have "valid_register input" and once: "with_register_retry fault (registerOnce pf input) db = Inr (r, db')"
    unfolding register_agent_def tx_simps by auto
  with retry_register_Inr [OF once] obtain agentId db0 db1 where st: "valid_register input" "draw_random pf db = Inr (agentId, db0)"
    "register_tx pf input (''agent-'' @ agentId) db0 = Inr (r, db1)" "publish_admin (snd r) db1 = Inr ((), db')"
    unfolding registerOnce_def tx_simps by auto
  show ?thesis
    by (rule that [OF st(1) _ _ _ _ st(3)])
      (use st(2,4) in \<open>auto simp: draw_random_def publish_admin_def\<close>)
qed

text \<open>A used token never mints: it answers with the live agent that holds the presented secret.\<close>

lemma used_token_replays:
  assumes "register_tx pf input agentId db = Inr (r, db')"
    and "tfind rt_tokenHash (hashAgentToken pf (rg_registerToken input)) (register_tokens db) = Some row" and "rt_usedAt row \<noteq> None"
  shows "db' = db \<and> (\<exists>a \<in> set (agents db). live a \<and> na_nodeId a = rt_nodeId row \<and> na_agentId a = fst r) \<and> snd r = rt_nodeId row"
  using assms(1)
proof (rule register_cases)
  fix row' node
  assume "tfind rt_tokenHash (hashAgentToken pf (rg_registerToken input)) (register_tokens db) = Some row'"
    and node: "nd_id node = rt_nodeId row'" "snd r = nd_id node"
    and outcome: "(rt_usedAt row' \<noteq> None \<and> db' = db \<and> (\<exists>a. find (\<lambda>a. na_tokenHash a = hashAgentToken pf (rg_agentToken input))
         (live_agents db (nd_id node)) = Some a \<and> fst r = na_agentId a))
     \<or> mint_credential pf input agentId row' node db = Inr (fst r, db')"
  with assms(2) have "row' = row" by simp
  have "\<not> mint_credential pf input agentId row' node db = Inr (fst r, db')"
    using mint_effect(1) [of pf input agentId row' node db "fst r" db'] assms(3) \<open>row' = row\<close> by auto
  with outcome have "db' = db \<and> (\<exists>a. find (\<lambda>a. na_tokenHash a = hashAgentToken pf (rg_agentToken input))
         (live_agents db (nd_id node)) = Some a \<and> fst r = na_agentId a)" by simp
  then show ?thesis using node \<open>row' = row\<close>
    by (auto simp: find_Some_iff live_agents_def live_def dest!: nth_mem)
qed

section \<open>Properties\<close>


lemma bearer_token:
  assumes "agent_token_ok token"
  shows "readBearerToken (Some (''Bearer '' @ token)) = Some token"
proof -
  have no_space: "\<not> is_space c" if "token_char c" for c
    using that by (auto simp: token_char_def is_space_def is_alnum_def is_upper_def is_lower_def is_digit_def)
  from assms have parts: "token = ''chordv_agent_'' @ drop 13 token" "list_all token_char (drop 13 token)"
    by (metis agent_token_ok_def append_take_drop_id, simp add: agent_token_ok_def Let_def)
  have "list_all token_char ''chordv_agent_''" by code_simp
  with parts have all: "list_all token_char token" by (metis list_all_append)
  moreover have "token \<noteq> []" using parts(1) by (metis append_is_Nil_conv list.distinct(1))
  ultimately have "dropWhile is_space token = token" "\<not> list_ex is_space token"
    using no_space by (auto simp: list_all_iff list_ex_iff dropWhile_eq_self_iff)
  moreover have "is_space (CHR '' '')" "toLowerCase ''Bearer'' = ''bearer''" by code_simp+
  moreover have "\<exists>c \<in> set token. \<not> is_space c" using calculation \<open>token \<noteq> []\<close> by (cases token) auto
  ultimately show ?thesis using \<open>token \<noteq> []\<close> by (simp add: readBearerToken_def)
qed

definition demo_onboarding :: control_plane where
  "demo_onboarding = demo_db\<lparr>agents := [], nodes := [demo_node\<lparr>nd_registrationStatus := Some ''pending_register''\<rparr>],
     register_tokens := [new_token demo_platform ''t1'' ''n1'' ''token-1'' 1000]\<rparr>"

definition demo_register :: AgentRegisterDto where
  "demo_register = \<lparr>rg_xrayInboundTag = None, rg_registerToken = ''token-1'',
     rg_agentToken = ''chordv_agent_'' @ replicate 43 (CHR ''x''), rg_hostname = ''host'', rg_arch = ''linux-x64'',
     rg_agentVersion = ''go-1'', rg_xrayVersion = None, rg_bootId = ''boot-1''\<rparr>"

lemma demo_registers:
  "case register_agent demo_platform (\<lambda>k. None) demo_register demo_onboarding of
     Inl e \<Rightarrow> False
   | Inr (r, db) \<Rightarrow> length (agents db) = 1 \<and>
       (case register_agent demo_platform (\<lambda>k. None) demo_register db of Inl e \<Rightarrow> False | Inr (r2, db2) \<Rightarrow> r2 = r)"
  by code_simp

lemma demo_onboarding_wf: "agents_wf demo_onboarding"
  by (simp add: agents_wf_def demo_onboarding_def)




end
