(* ===== verification/MeteringRetention.thy ===== *)
theory MeteringRetention
  imports ControlPlane
begin

text \<open>
  Reclaiming metering history (\<open>common/metering-retention.service.ts\<close>) and the incidents it prunes
  (\<open>common/metering-incident.service.ts\<close>).  Rows of accounted batches are kept and only their raw
  payload is cleared; resolved incidents are deleted.  Both work in bounded statements, each of
  which commits on its own.
\<close>

section \<open>Incidents\<close>

record MeteringIncident =
  mi_id :: string
  mi_subscriptionId :: string
  mi_nodeId :: string
  mi_reason :: string
  mi_open :: bool
  mi_detail :: "string option"
  mi_openedAt :: int
  mi_resolvedAt :: "int option"
  mi_createdAt :: int
  mi_updatedAt :: int

text \<open>\<open>detail?.trim() || fallback\<close>\<close>

definition trimmed_or :: "string option \<Rightarrow> string option \<Rightarrow> string option" where
  "trimmed_or detail fallback = (case detail of None \<Rightarrow> fallback | Some d \<Rightarrow> if js_trim d = [] then fallback else Some (js_trim d))"

definition same_incident :: "string \<Rightarrow> string \<Rightarrow> string \<Rightarrow> MeteringIncident \<Rightarrow> bool" where
  "same_incident subscriptionId nodeId reason i \<longleftrightarrow> mi_subscriptionId i = subscriptionId \<and> mi_nodeId i = nodeId
     \<and> mi_reason i = reason \<and> mi_open i"

text \<open>The latest first; \<open>id\<close> is the one drawn for a new row.\<close>

definition latest_incident :: "(MeteringIncident \<Rightarrow> bool) \<Rightarrow> MeteringIncident list \<Rightarrow> MeteringIncident option" where
  "latest_incident p rows =
     (case sort_key (\<lambda>i. (- mi_openedAt i, - mi_createdAt i)) (filter p rows) of [] \<Rightarrow> None | i # _ \<Rightarrow> Some i)"

definition open_incident ::
  "string \<Rightarrow> int \<Rightarrow> string \<Rightarrow> string \<Rightarrow> string \<Rightarrow> string option \<Rightarrow> MeteringIncident list \<Rightarrow> MeteringIncident list" where
  "open_incident newId now subscriptionId nodeId reason detail rows =
     (case latest_incident (same_incident subscriptionId nodeId reason) rows of
        Some existing \<Rightarrow> tmodify (\<lambda>i. mi_id i = mi_id existing)
          (\<lambda>i. i\<lparr>mi_detail := trimmed_or detail (mi_detail existing), mi_updatedAt := now\<rparr>) rows
      | None \<Rightarrow> rows @ [\<lparr>mi_id = newId, mi_subscriptionId = subscriptionId, mi_nodeId = nodeId, mi_reason = reason,
          mi_open = True, mi_detail = trimmed_or detail None, mi_openedAt = now, mi_resolvedAt = None,
          mi_createdAt = now, mi_updatedAt = now\<rparr>])"

definition resolveAllOpenForNode :: "int \<Rightarrow> string \<Rightarrow> string option \<Rightarrow> MeteringIncident list \<Rightarrow> MeteringIncident list" where
  "resolveAllOpenForNode now nodeId detail =
     tmodify (\<lambda>i. mi_nodeId i = nodeId \<and> mi_open i)
       (\<lambda>i. i\<lparr>mi_open := False, mi_resolvedAt := Some now, mi_updatedAt := now,
              mi_detail := (case detail of None \<Rightarrow> mi_detail i | Some d \<Rightarrow> if d = [] then mi_detail i else Some d)\<rparr>)"

definition resolve_incident :: "int \<Rightarrow> string \<Rightarrow> string \<Rightarrow> string \<Rightarrow> MeteringIncident list \<Rightarrow> MeteringIncident list" where
  "resolve_incident now subscriptionId nodeId reason =
     tmodify (same_incident subscriptionId nodeId reason)
       (\<lambda>i. i\<lparr>mi_open := False, mi_resolvedAt := Some now, mi_updatedAt := now\<rparr>)"

section \<open>Chunks\<close>

definition CHUNK_ROWS :: nat where
  "CHUNK_ROWS = 5000"

definition MAX_CHUNKS_PER_TICK :: nat where
  "MAX_CHUNKS_PER_TICK = 40"

text \<open>
  The loop both reclaimers share: at most \<open>left\<close> statements of at most \<open>size\<close> rows; a statement
  that changes fewer ends it, and one that fails ends it with what earlier ones committed.
\<close>

fun chunk_loop ::
  "(nat \<Rightarrow> api_error option) \<Rightarrow> nat \<Rightarrow> ('s \<Rightarrow> nat \<times> 's) \<Rightarrow> nat \<Rightarrow> nat \<Rightarrow> 's \<Rightarrow> (api_error, nat) result \<times> 's" where
  "chunk_loop fault rows statement 0 sum_so_far s = (Inr sum_so_far, s)"
| "chunk_loop fault rows statement (Suc left) sum_so_far s =
     (case fault left of
        Some e \<Rightarrow> (Inl e, s)
      | None \<Rightarrow>
          case statement s of (changed, s') \<Rightarrow>
            if changed < rows then (Inr (sum_so_far + changed), s')
            else chunk_loop fault rows statement left (sum_so_far + changed) s')"

definition days_before :: "int \<Rightarrow> int \<Rightarrow> int" where
  "days_before now days = now - days * 24 * 60 * 60 * 1000"

section \<open>Payloads of settled batches\<close>

definition DEFAULT_USAGE_PAYLOAD_RETENTION_DAYS :: int where
  "DEFAULT_USAGE_PAYLOAD_RETENTION_DAYS = 30"

text \<open>
  \<open>blank\<close> is how a payload of \<open>'{}'\<close> reads; \<open>scan\<close> is the order in which the database visits the
  rows, which the statement leaves open.
\<close>

definition expired_payload :: "UsageBatch \<Rightarrow> int \<Rightarrow> NodeUsageBatch \<Rightarrow> bool" where
  "expired_payload blank before b \<longleftrightarrow> nb_accountedAt b \<noteq> None \<and> nb_createdAt b < before \<and> nb_payload b \<noteq> blank"

definition redact_chunk ::
  "(NodeUsageBatch list \<Rightarrow> NodeUsageBatch list) \<Rightarrow> UsageBatch \<Rightarrow> int \<Rightarrow> control_plane \<Rightarrow> nat \<times> control_plane" where
  "redact_chunk scan blank before db =
     (let ids = map nb_id (take CHUNK_ROWS (filter (expired_payload blank before) (scan (usage_batches db)))) in
      (length ids, db\<lparr>usage_batches := tmodify (\<lambda>b. nb_id b \<in> set ids) (\<lambda>b. b\<lparr>nb_payload := blank\<rparr>) (usage_batches db)\<rparr>))"

definition redactSettledUsagePayloads ::
  "(NodeUsageBatch list \<Rightarrow> NodeUsageBatch list) \<Rightarrow> UsageBatch \<Rightarrow> (nat \<Rightarrow> api_error option) \<Rightarrow> string option \<Rightarrow> int
    \<Rightarrow> control_plane \<Rightarrow> (api_error, nat) result \<times> control_plane" where
  "redactSettledUsagePayloads scan blank fault daysEnv now =
     chunk_loop fault CHUNK_ROWS
       (redact_chunk scan blank (days_before now (readPositiveIntegerEnv daysEnv DEFAULT_USAGE_PAYLOAD_RETENTION_DAYS)))
       MAX_CHUNKS_PER_TICK 0"

section \<open>Resolved incidents\<close>

definition DEFAULT_INCIDENT_RETENTION_DAYS :: int where
  "DEFAULT_INCIDENT_RETENTION_DAYS = 90"

definition expired_incident :: "int \<Rightarrow> MeteringIncident \<Rightarrow> bool" where
  "expired_incident before i \<longleftrightarrow>
     \<not> mi_open i \<and> (case mi_resolvedAt i of None \<Rightarrow> mi_updatedAt i | Some t \<Rightarrow> t) < before"

definition prune_chunk ::
  "(MeteringIncident list \<Rightarrow> MeteringIncident list) \<Rightarrow> int \<Rightarrow> MeteringIncident list \<Rightarrow> nat \<times> MeteringIncident list" where
  "prune_chunk scan before rows =
     (let ids = map mi_id (take CHUNK_ROWS (filter (expired_incident before) (scan rows))) in
      (length ids, tdelete (\<lambda>i. mi_id i \<in> set ids) rows))"

definition pruneResolvedIncidents ::
  "(MeteringIncident list \<Rightarrow> MeteringIncident list) \<Rightarrow> (nat \<Rightarrow> api_error option) \<Rightarrow> string option \<Rightarrow> int
    \<Rightarrow> MeteringIncident list \<Rightarrow> (api_error, nat) result \<times> MeteringIncident list" where
  "pruneResolvedIncidents scan fault daysEnv now =
     chunk_loop fault CHUNK_ROWS
       (prune_chunk scan (days_before now (readPositiveIntegerEnv daysEnv DEFAULT_INCIDENT_RETENTION_DAYS)))
       MAX_CHUNKS_PER_TICK 0"

section \<open>The chunked loop\<close>

text \<open>What every statement keeps, the loop keeps, whether it fails or not.\<close>

lemma chunk_loop_keeps:
  assumes "\<And>s n s'. I s \<Longrightarrow> statement s = (n, s') \<Longrightarrow> I s'" and "I s"
  shows "I (snd (chunk_loop fault rows statement left sum_so_far s))"
  using assms(2)
proof (induction left arbitrary: sum_so_far s)
  case (Suc left)
  obtain n s' where st: "statement s = (n, s')" by (cases "statement s")
  with Suc assms(1) have "I s'" by blast
  with Suc st show ?case by (auto split: option.splits)
qed simp

lemma chunk_loop_relates:
  assumes "\<And>s n s'. statement s = (n, s') \<Longrightarrow> R s s'" and "\<And>s. R s s" and "\<And>r s t. R r s \<Longrightarrow> R s t \<Longrightarrow> R r t"
  shows "R s (snd (chunk_loop fault rows statement left sum_so_far s))"
  by (rule chunk_loop_keeps [where I = "R s"]) (use assms in blast)+

lemma chunk_loop_bounded:
  assumes "\<And>s. fst (statement s) \<le> rows" and "chunk_loop fault rows statement left sum_so_far s = (Inr n, s')"
  shows "n \<le> sum_so_far + left * rows"
  using assms(2)
proof (induction left arbitrary: sum_so_far s)
  case (Suc left)
  obtain k s1 where st: "statement s = (k, s1)" by (cases "statement s")
  with assms(1) [of s] have "k \<le> rows" by simp
  with Suc.prems st Suc.IH [of "sum_so_far + k" s1] show ?case by (auto split: option.splits if_splits)
qed simp

text \<open>
  A loop that ends with less than its budget has nothing left to do, when a statement changes all
  it finds up to its limit.
\<close>

lemma chunk_loop_finishes:
  assumes "\<And>s k s'. statement s = (k, s') \<Longrightarrow> k < rows \<Longrightarrow> settled s'" and "\<And>s. fst (statement s) \<le> rows"
    and "chunk_loop fault rows statement left sum_so_far s = (Inr n, s')"
  shows "settled s' \<or> n = sum_so_far + left * rows"
  using assms(3)
proof (induction left arbitrary: sum_so_far s)
  case (Suc left)
  obtain k s1 where st: "statement s = (k, s1)" by (cases "statement s")
  with assms(2) [of s] have "k \<le> rows" by simp
  with Suc.prems st Suc.IH [of "sum_so_far + k" s1] assms(1) [OF st] show ?case
    by (auto split: option.splits if_splits)
qed simp

section \<open>What reclaiming changes\<close>

text \<open>A payload is replaced only in an accounted row, and nothing else of a row changes.\<close>

definition redacts :: "NodeUsageBatch \<Rightarrow> NodeUsageBatch \<Rightarrow> bool" where
  "redacts b b' \<longleftrightarrow> b' = b\<lparr>nb_payload := nb_payload b'\<rparr> \<and> (nb_accountedAt b = None \<longrightarrow> nb_payload b' = nb_payload b)"

lemma redacts_refl [simp]: "redacts b b"
  by (simp add: redacts_def)

lemma redacts_sel:
  assumes "redacts b b'"
  shows "nb_id b' = nb_id b" "nb_nodeId b' = nb_nodeId b" "nb_agentId b' = nb_agentId b" "nb_bootId b' = nb_bootId b"
    "nb_sequence b' = nb_sequence b" "nb_payloadHash b' = nb_payloadHash b" "nb_sampledAt b' = nb_sampledAt b"
    "nb_accountedAt b' = nb_accountedAt b" "nb_createdAt b' = nb_createdAt b" "nb_accountedAt b = None \<Longrightarrow> b' = b"
  using assms by (cases b; cases b'; auto simp: redacts_def)+

lemma redacts_trans: "redacts a b \<Longrightarrow> redacts b c \<Longrightarrow> redacts a c"
  by (cases a; cases b; cases c) (auto simp: redacts_def)

abbreviation redacted :: "NodeUsageBatch list \<Rightarrow> NodeUsageBatch list \<Rightarrow> bool" where
  "redacted \<equiv> list_all2 redacts"

lemma redacted_refl [simp]: "redacted rows rows"
  by (simp add: list_all2_same)

lemma redacted_trans: "redacted xs ys \<Longrightarrow> redacted ys zs \<Longrightarrow> redacted xs zs"
  by (rule list_all2_trans [of redacts redacts redacts]) (auto intro: redacts_trans)

lemma redacted_map: "redacted rows rows' \<Longrightarrow> (\<And>b b'. redacts b b' \<Longrightarrow> f b' = f b) \<Longrightarrow> map f rows' = map f rows"
  by (induction rule: list_all2_induct) auto

abbreviation reorders :: "('a list \<Rightarrow> 'a list) \<Rightarrow> bool" where
  "reorders scan \<equiv> \<forall>rows. set (scan rows) = set rows"

lemma list_all2_tmodify: "(\<And>r. r \<in> set rows \<Longrightarrow> R r (if p r then f r else r)) \<Longrightarrow> list_all2 R rows (tmodify p f rows)"
  by (induction rows) (simp_all add: tmodify_def)

lemma redact_chunk_redacts:
  assumes "distinct (map nb_id (usage_batches db))" and "reorders scan" and "redact_chunk scan blank before db = (n, db')"
  shows "redacted (usage_batches db) (usage_batches db')" "db' = db\<lparr>usage_batches := usage_batches db'\<rparr>"
proof -
  define ids where "ids = nb_id ` set (take CHUNK_ROWS (filter (expired_payload blank before) (scan (usage_batches db))))"
  have db': "db' = db\<lparr>usage_batches := tmodify (\<lambda>b. nb_id b \<in> ids) (\<lambda>b. b\<lparr>nb_payload := blank\<rparr>) (usage_batches db)\<rparr>"
    using assms(3) by (auto simp: redact_chunk_def Let_def ids_def)
  have settled: "nb_accountedAt b \<noteq> None" if b: "b \<in> set (usage_batches db)" and id: "nb_id b \<in> ids" for b
  proof -
    from id obtain c where "c \<in> set (take CHUNK_ROWS (filter (expired_payload blank before) (scan (usage_batches db))))" "nb_id c = nb_id b"
      unfolding ids_def by force
    then have c: "c \<in> set (usage_batches db)" "nb_accountedAt c \<noteq> None" "nb_id c = nb_id b"
      using assms(2) by (auto dest!: in_set_takeD simp: expired_payload_def)
    have "c = b" using distinct_map_eq [OF assms(1) c(1) b] c(3) by simp
    with c(2) show ?thesis by simp
  qed
  show "redacted (usage_batches db) (usage_batches db')"
    unfolding db' by (auto intro!: list_all2_tmodify simp: redacts_def dest: settled)
  show "db' = db\<lparr>usage_batches := usage_batches db'\<rparr>" by (simp add: db')
qed

lemma reclaim_redacts:
  assumes "distinct (map nb_id (usage_batches db))" and "reorders scan"
    and "redactSettledUsagePayloads scan blank fault daysEnv now db = (n, db')"
  shows "redacted (usage_batches db) (usage_batches db')" "db' = db\<lparr>usage_batches := usage_batches db'\<rparr>"
proof -
  let ?I = "\<lambda>s. redacted (usage_batches db) (usage_batches s) \<and> s = db\<lparr>usage_batches := usage_batches s\<rparr>"
  have step: "?I s'" if I: "?I s" and st: "redact_chunk scan blank before s = (k, s')" for before s s' k
  proof -
    have "distinct (map nb_id (usage_batches s))"
      using assms(1) I redacted_map [of "usage_batches db" "usage_batches s" nb_id] redacts_sel(1) by simp
    note chunk = redact_chunk_redacts [OF this assms(2) st]
    have "s' = db\<lparr>usage_batches := usage_batches s'\<rparr>"
      by (subst chunk(2), subst I [THEN conjunct2]) simp
    with I chunk(1) show ?thesis by (blast intro: redacted_trans)
  qed
  have "?I (snd (redactSettledUsagePayloads scan blank fault daysEnv now db))"
    unfolding redactSettledUsagePayloads_def by (rule chunk_loop_keeps [where I = ?I]) (use step in blast, simp)
  then show "redacted (usage_batches db) (usage_batches db')" "db' = db\<lparr>usage_batches := usage_batches db'\<rparr>"
    using assms(3) by simp_all
qed

end
