(* ===== verification/AgentController.thy ===== *)
theory AgentController
  imports RegisterSpec MeteringRetention
begin

text \<open>
  The endpoints of an agent (\<open>agent/agent.controller.ts\<close>): the guard, the validation of the body
  and the service behind it.  Together with the operations of an administrator they are the steps
  of the control plane.
\<close>

section \<open>Endpoints\<close>

text \<open>\<open>@UseGuards(AgentAuthGuard)\<close>: the handler runs with the authenticated agent.\<close>

definition guarded ::
  "platform \<Rightarrow> AgentAuthenticatedRequest \<Rightarrow> (NodeAgent \<Rightarrow> (control_plane, 'a) tx) \<Rightarrow> (control_plane, 'a) tx" where
  "guarded pf request handler =
     tbind (tread (\<lambda>db. canActivate pf db request)) (\<lambda>verdict. tbind (tlift verdict) handler)"

definition post_heartbeat ::
  "platform \<Rightarrow> AgentAuthenticatedRequest \<Rightarrow> AgentHeartbeatDto \<Rightarrow> (control_plane, HeartbeatResult) tx" where
  "post_heartbeat pf request body =
     guarded pf request (\<lambda>agent. tbind (tassert (valid_heartbeat body) (BadRequest ''body'')) (\<lambda>_. heartbeat pf agent body))"

definition post_usageBatches ::
  "platform \<Rightarrow> (string \<Rightarrow> bool) \<Rightarrow> db_faults \<Rightarrow> AgentAuthenticatedRequest \<Rightarrow> UsageBatch
    \<Rightarrow> (control_plane, AgentUsageBatchAckDto) tx" where
  "post_usageBatches pf isDate fault request body =
     guarded pf request (\<lambda>agent. usageBatches pf isDate fault agent body)"

definition get_config :: "platform \<Rightarrow> AgentAuthenticatedRequest \<Rightarrow> (control_plane, AgentConfigSnapshot) tx" where
  "get_config pf request = guarded pf request (\<lambda>agent. tbind (tread (\<lambda>db. getConfig db agent)) tlift)"

definition get_whoami :: "platform \<Rightarrow> AgentAuthenticatedRequest \<Rightarrow> (control_plane, string) tx" where
  "get_whoami pf request = tbind (tread (\<lambda>db. whoami pf db request)) tlift"

definition post_commandResult ::
  "platform \<Rightarrow> AgentAuthenticatedRequest \<Rightarrow> string \<Rightarrow> AgentCommandResultDto \<Rightarrow> (control_plane, bool) tx" where
  "post_commandResult pf request commandId body =
     guarded pf request (\<lambda>agent. tbind (tassert (valid_result body) (BadRequest ''body'')) (\<lambda>_.
       api_completeCommand pf agent commandId body))"

lemma guarded_Inr:
  "guarded pf request handler db = Inr (r, db') \<longleftrightarrow> (\<exists>a. canActivate pf db request = Inr a \<and> handler a db = Inr (r, db'))"
  by (simp add: guarded_def tx_simps)

lemma admitted:
  assumes "canActivate pf db request = Inr a"
  shows "a \<in> set (agents db)" "live a" "rq_nodeId request = Some (na_nodeId a)"
  using assms
  by (auto simp: canActivate_def authenticate_def live_def find_Some_iff split: option.splits if_splits)

lemma guarded_keeps [tkeeps_intros]: "(\<And>a. tkeeps I (handler a)) \<Longrightarrow> tkeeps I (guarded pf request handler)"
  unfolding guarded_def by (intro tkeeps_intros)

section \<open>Steps\<close>

text \<open>
  What happens to the tables: requests of agents, operations of an administrator, the sweep, the
  hourly reclaiming of payloads, and
  changes other modules make to subscriptions, bindings, snapshots, ledger and outboxes or to a
  node's columns other than its identity and revision.  A refused request changes nothing.
\<close>

definition node_moves :: "Node \<Rightarrow> Node \<Rightarrow> bool" where
  "node_moves n n' \<longleftrightarrow> nd_id n' = nd_id n \<and> nd_agentConfigRevision n \<le> nd_agentConfigRevision n'"

inductive service_step :: "control_plane \<Rightarrow> control_plane \<Rightarrow> bool" where
  heartbeat: "post_heartbeat pf request beat db = Inr (r1, db') \<Longrightarrow> service_step db db'"
| upload: "post_usageBatches pf isDate fault request batch db = Inr (r2, db') \<Longrightarrow> service_step db db'"
| result: "post_commandResult pf request commandId body db = Inr (r3, db') \<Longrightarrow> service_step db db'"
| credential: "createCredential pf nodeId agentId db = Inr (r4, db') \<Longrightarrow> service_step db db'"
| revocation: "revokeCredential pf nodeId recordId db = Inr (r5, db') \<Longrightarrow> service_step db db'"
| node: "createAgentNode pf name panel db = Inr (r6, db') \<Longrightarrow> service_step db db'"
| token: "issueRegisterToken pf fault nodeId db = Inr (r7, db') \<Longrightarrow> service_step db db'"
| registration: "register_agent pf fault input db = Inr (r8, db') \<Longrightarrow> service_step db db'"
| order: "queueCommand pf nodeId request' db = Inr (r9, db') \<Longrightarrow> service_step db db'"
| sweep: "retryDueCommands pf budget db = (e, db') \<Longrightarrow> service_step db db'"
| reclaim: "reorders scan \<Longrightarrow> redactSettledUsagePayloads scan blank fault' daysEnv now db = (n, db') \<Longrightarrow> service_step db db'"
| elsewhere: "usage_batches db' = usage_batches db \<Longrightarrow> agents db' = agents db \<Longrightarrow> command_jobs db' = command_jobs db
    \<Longrightarrow> lease_jobs db' = lease_jobs db \<Longrightarrow> register_tokens db' = register_tokens db
    \<Longrightarrow> list_all2 node_moves (nodes db) (nodes db') \<Longrightarrow> service_step db db'"

inductive service_reachable :: "control_plane \<Rightarrow> control_plane \<Rightarrow> bool" for db where
  initial: "service_reachable db db"
| stepped: "service_reachable db db1 \<Longrightarrow> service_step db1 db2 \<Longrightarrow> service_reachable db db2"

end
