(* ===== verification/ServiceSpec.thy ===== *)
theory ServiceSpec
  imports AgentController
begin

text \<open>
  The invariant of the control plane's tables under every step: unique keys, revisions within
  their node's counter, at most one live agent per node, and acknowledgements that are backed by
  stored batches.
\<close>

section \<open>Stored batches\<close>

definition stored :: "control_plane \<Rightarrow> string \<Rightarrow> string \<Rightarrow> string \<Rightarrow> int \<Rightarrow> bool" where
  "stored db agentId nodeId boot k \<longleftrightarrow> (\<exists>b \<in> set (usage_batches db). batch_key b = (nodeId, boot, k) \<and> nb_agentId b = agentId)"

text \<open>
  A stored row changes only by being accounted, which is final, and by losing its payload once it
  is accounted.
\<close>

definition same_row :: "NodeUsageBatch \<Rightarrow> NodeUsageBatch \<Rightarrow> bool" where
  "same_row b b' \<longleftrightarrow> b' = b\<lparr>nb_payload := nb_payload b', nb_accountedAt := nb_accountedAt b'\<rparr>
     \<and> (nb_accountedAt b \<noteq> None \<longrightarrow> nb_accountedAt b' \<noteq> None)
     \<and> (nb_payload b' = nb_payload b \<or> nb_accountedAt b' \<noteq> None)"

lemma same_row_refl [simp]: "same_row b b"
  by (simp add: same_row_def)

lemma same_row_alt:
  "same_row b b' \<longleftrightarrow> nb_id b' = nb_id b \<and> nb_nodeId b' = nb_nodeId b \<and> nb_agentId b' = nb_agentId b \<and> nb_bootId b' = nb_bootId b
     \<and> nb_sequence b' = nb_sequence b \<and> nb_payloadHash b' = nb_payloadHash b \<and> nb_sampledAt b' = nb_sampledAt b
     \<and> nb_createdAt b' = nb_createdAt b \<and> (nb_accountedAt b \<noteq> None \<longrightarrow> nb_accountedAt b' \<noteq> None)
     \<and> (nb_payload b' = nb_payload b \<or> nb_accountedAt b' \<noteq> None)"
  by (cases b; cases b') (auto simp: same_row_def)

lemma same_row_trans: "same_row a b \<Longrightarrow> same_row b c \<Longrightarrow> same_row a c"
  by (auto simp: same_row_alt)

lemma same_row_sel:
  assumes "same_row b b'"
  shows "nb_id b' = nb_id b" "batch_key b' = batch_key b" "nb_agentId b' = nb_agentId b" "nb_payloadHash b' = nb_payloadHash b"
    "nb_accountedAt b \<noteq> None \<Longrightarrow> nb_accountedAt b' \<noteq> None" "nb_payload b' = nb_payload b \<or> nb_accountedAt b' \<noteq> None"
  using assms by (simp_all add: same_row_alt batch_key_def)

abbreviation same_rows :: "NodeUsageBatch list \<Rightarrow> NodeUsageBatch list \<Rightarrow> bool" where
  "same_rows \<equiv> list_all2 same_row"

lemma same_rows_refl [simp]: "same_rows rows rows"
  by (simp add: list_all2_same)

lemma same_rows_trans: "same_rows xs ys \<Longrightarrow> same_rows ys zs \<Longrightarrow> same_rows xs zs"
  by (rule list_all2_trans [of same_row same_row same_row]) (auto intro: same_row_trans)

lemma same_rows_mark: "same_rows rows (mark_accounted pf bs rows)"
  by (induction rows) (simp_all add: mark_accounted_def same_row_alt)

lemma same_rows_map:
  assumes "same_rows rows rows'" and "\<And>b b'. same_row b b' \<Longrightarrow> f b' = f b"
  shows "map f rows' = map f rows"
  using assms(1) by (induction rule: list_all2_induct) (auto simp: assms(2))

lemma same_rows_member:
  assumes "same_rows rows rows'" and "b \<in> set rows"
  shows "\<exists>b' \<in> set rows'. same_row b b'"
  using assms by (metis in_set_conv_nth list_all2_conv_all_nth)

lemma same_rows_member': 
  assumes "same_rows rows rows'" and "b' \<in> set rows'"
  shows "\<exists>b \<in> set rows. same_row b b'"
  using assms by (metis in_set_conv_nth list_all2_conv_all_nth)

lemma stored_mono:
  assumes "\<And>b. b \<in> set (usage_batches db) \<Longrightarrow> \<exists>b' \<in> set (usage_batches db'). same_row b b'" and "stored db a n boot k"
  shows "stored db' a n boot k"
  using assms unfolding stored_def by (metis same_row_sel(2,3))

section \<open>An upload in one step\<close>

lemma process_covers:
  assumes "process_stored pf agent node boot ack db = Inr (acc, db')"
  shows "ack \<le> in_ackThrough acc" "same_rows (usage_batches db) (usage_batches db')" "agents db' = agents db"
    "ack < k \<Longrightarrow> k \<le> in_ackThrough acc \<Longrightarrow> stored db' (na_id agent) (na_nodeId agent) boot k"
proof -
  let ?bs = "batches_after 10000 (na_id agent) (na_nodeId agent) boot ack db"
  have split: "accountContiguousBatches pf (na_id agent) (na_nodeId agent) boot ack db = Inr (acc, db')
      \<or> db' = db \<and> in_ackThrough acc = ack + int (length (taken ?bs ack))"
    using assms by (auto simp: process_stored_def advanceAck_def tx_simps contiguous_ack_taken split: if_splits)
  from split run_accounts(1) [of pf "na_id agent" "na_nodeId agent" boot ack db acc db'] show "ack \<le> in_ackThrough acc" by fastforce
  from split run_accounts(3) [of pf "na_id agent" "na_nodeId agent" boot ack db acc db'] same_rows_mark
  show "same_rows (usage_batches db) (usage_batches db')" by fastforce
  from split run_accounts(4) [of pf "na_id agent" "na_nodeId agent" boot ack db acc db'] show "agents db' = agents db" by blast
  assume k: "ack < k" "k \<le> in_ackThrough acc"
  from split show "stored db' (na_id agent) (na_nodeId agent) boot k"
  proof
    assume "accountContiguousBatches pf (na_id agent) (na_nodeId agent) boot ack db = Inr (acc, db')"
    from run_covers [OF this k] show ?thesis unfolding stored_def by blast
  next
    assume same: "db' = db \<and> in_ackThrough acc = ack + int (length (taken ?bs ack))"
    with k taken_covers [of ack k ?bs] obtain b where "b \<in> set (taken ?bs ack)" "nb_sequence b = k" by auto
    with taken_subset [of ?bs ack] same batches_after_subset [of b] show ?thesis
      unfolding stored_def batch_key_def by blast
  qed
qed

text \<open>
  What an upload leaves: the acknowledgement starts from the agent's, covers only stored numbers,
  rows are kept up to accounting, at most the uploaded batch is new, and only the uploader's row
  of the agents changes.
\<close>

lemma upload_effect:
  assumes "usageBatches pf isDate fault agent input db = Inr (ack, db')"
  obtains current new n A f where
    "valid_batch isDate input" "js_BigInt (ub_sequence input) = Some n"
    "tfind na_id (na_id agent) (agents db) = Some current" "na_revokedAt current = None"
    "new = None \<longrightarrow> (na_nodeId agent, ub_bootId input, n) \<in> batch_key ` set (usage_batches db)"
    "\<forall>b. new = Some b \<longrightarrow> (\<exists>u. b = new_row pf agent input n u) \<and> batch_key b \<notin> batch_key ` set (usage_batches db)
       \<and> nb_id b \<notin> nb_id ` set (usage_batches db)"
    "same_rows (stored_rows db new) (usage_batches db')"
    "au_ackThrough ack = bigint_toString A" "start_ack current (ub_bootId input) \<le> A"
    "\<forall>k. start_ack current (ub_bootId input) < k \<and> k \<le> A \<longrightarrow> stored db' (na_id agent) (na_nodeId agent) (ub_bootId input) k"
    "agents db' = tmodify (\<lambda>a. na_id a = na_id agent) f (agents db)"
    "\<forall>a. na_id (f a) = na_id a \<and> na_nodeId (f a) = na_nodeId a \<and> na_bootId (f a) = Some (ub_bootId input)
       \<and> na_lastAckSequence (f a) = A"
proof -
  from assms have valid: "valid_batch isDate input" and ingest: "ingestUsageBatch pf fault agent input db = Inr (ack, db')"
    by (auto simp: usageBatches_def tx_simps)
  from ingest obtain n r dbp where n: "js_BigInt (ub_sequence input) = Some n" "ingest_tx pf agent input n db = Inr (r, dbp)"
    and pub: "ack = io_ack r" "usage_batches db' = usage_batches dbp" "agents db' = agents dbp" by (rule publish_effect) auto
  from n(2) obtain current node new db1 db2 acc lastSeq g where st:
    "tfind na_id (na_id agent) (agents db) = Some current" "na_revokedAt current = None"
    "new = None \<longrightarrow> (na_nodeId agent, ub_bootId input, n) \<in> batch_key ` set (usage_batches db)"
    "\<forall>b. new = Some b \<longrightarrow> (\<exists>u. b = new_row pf agent input n u) \<and> batch_key b \<notin> batch_key ` set (usage_batches db)
       \<and> nb_id b \<notin> nb_id ` set (usage_batches db)"
    and db1: "usage_batches db1 = stored_rows db new" "agents db1 = tmodify (\<lambda>a. na_id a = na_id agent) g (agents db)"
      "\<forall>a. na_id (g a) = na_id a \<and> na_nodeId (g a) = na_nodeId a"
    and run: "process_stored pf agent node (ub_bootId input) (start_ack current (ub_bootId input)) db1 = Inr (acc, db2)"
    and rec: "record_ack pf agent (ub_bootId input) lastSeq (in_ackThrough acc) db2 = Inr ((), dbp)"
    and out: "au_ackThrough (io_ack r) = bigint_toString (in_ackThrough acc)" by (rule ingest_stages) blast
  note cov = process_covers [OF run]
  let ?h = "\<lambda>a. a\<lparr>na_bootId := Some (ub_bootId input), na_lastSequence := lastSeq, na_lastAckSequence := in_ackThrough acc,
              na_lastSeenAt := Some (pf_now pf), na_status := ''online''\<rparr>"
  have dbp: "usage_batches db' = usage_batches db2" "agents db' = tmodify (\<lambda>a. na_id a = na_id agent) ?h (agents db2)"
    using rec pub by (auto simp: record_ack_def set_agents_def)
  have "agents db' = tmodify (\<lambda>a. na_id a = na_id agent) (\<lambda>a. ?h (g a)) (agents db)"
    unfolding dbp(2) cov(3) db1(2) using db1(3) by (auto simp: tmodify_def)
  moreover have "stored db' a m b k \<longleftrightarrow> stored db2 a m b k" for a m b k by (simp add: stored_def dbp(1))
  ultimately show ?thesis
    using that [OF valid n(1) st, of "in_ackThrough acc" "\<lambda>a. ?h (g a)"] cov db1 out pub(1) dbp(1) by auto
qed

section \<open>Acknowledgements are backed\<close>

definition ack_ok :: "control_plane \<Rightarrow> NodeAgent \<Rightarrow> bool" where
  "ack_ok db a \<longleftrightarrow> 0 \<le> na_lastAckSequence a \<and> (\<forall>k. 0 < k \<and> k \<le> na_lastAckSequence a \<longrightarrow>
     (\<exists>boot. na_bootId a = Some boot \<and> boot \<noteq> [] \<and> stored db (na_id a) (na_nodeId a) boot k))"

definition ack_wf :: "control_plane \<Rightarrow> bool" where
  "ack_wf db \<longleftrightarrow> (\<forall>a \<in> set (agents db). ack_ok db a)"

lemma ack_ok_zero: "na_lastAckSequence a = 0 \<Longrightarrow> ack_ok db a"
  by (auto simp: ack_ok_def)

lemma ack_ok_mono:
  assumes "ack_ok db a" and "\<And>boot k. stored db (na_id a) (na_nodeId a) boot k \<Longrightarrow> stored db' (na_id a) (na_nodeId a) boot k"
  shows "ack_ok db' a"
  using assms unfolding ack_ok_def by blast

lemma start_ack_backed:
  assumes "ack_ok db a" and "boot \<noteq> []"
  shows "0 \<le> start_ack a boot" "0 < k \<Longrightarrow> k \<le> start_ack a boot \<Longrightarrow> stored db (na_id a) (na_nodeId a) boot k"
  using assms by (auto simp: ack_ok_def start_ack_def split: option.splits if_splits)

lemma ack_upload:
  assumes "usageBatches pf isDate fault agent input db = Inr (ack, db')" and "ack_wf db" and "agents_wf db"
    and "agent \<in> set (agents db)"
  shows "ack_wf db'" "\<exists>A. au_ackThrough ack = bigint_toString A \<and> 0 \<le> A
    \<and> (\<forall>k. 0 < k \<and> k \<le> A \<longrightarrow> stored db' (na_id agent) (na_nodeId agent) (ub_bootId input) k)"
proof -
  from assms(1) obtain current new A f where up: "valid_batch isDate input"
    "tfind na_id (na_id agent) (agents db) = Some current" "same_rows (stored_rows db new) (usage_batches db')"
    "au_ackThrough ack = bigint_toString A" "start_ack current (ub_bootId input) \<le> A"
    "\<forall>k. start_ack current (ub_bootId input) < k \<and> k \<le> A \<longrightarrow> stored db' (na_id agent) (na_nodeId agent) (ub_bootId input) k"
    "agents db' = tmodify (\<lambda>a. na_id a = na_id agent) f (agents db)"
    "\<forall>a. na_id (f a) = na_id a \<and> na_nodeId (f a) = na_nodeId a \<and> na_bootId (f a) = Some (ub_bootId input)
       \<and> na_lastAckSequence (f a) = A" by (rule upload_effect) blast
  have ids: "distinct (map na_id (agents db))" using assms(3) by (simp add: agents_wf_def)
  have one: "a = agent" if "a \<in> set (agents db)" "na_id a = na_id agent" for a
    using distinct_map_eq [OF ids that(1) assms(4)] that(2) by simp
  have "current = agent" using tfind_Some_in [OF up(2)] one by blast
  have boot: "ub_bootId input \<noteq> []" using up(1) by (simp add: valid_batch_def short_text_def)
  have mono: "stored db' a n b k" if "stored db a n b k" for a n b k
    by (rule stored_mono [OF _ that]) (rule same_rows_member [OF up(3)], simp add: stored_rows_def)
  have "ack_ok db agent" using assms(2,4) by (simp add: ack_wf_def)
  note start = start_ack_backed [OF this boot]
  have covered: "stored db' (na_id agent) (na_nodeId agent) (ub_bootId input) k" if "0 < k" "k \<le> A" for k
    using that up(6) mono start(2) [of k] \<open>current = agent\<close> by (cases "k \<le> start_ack agent (ub_bootId input)") auto
  have "0 \<le> A" using up(5) start(1) \<open>current = agent\<close> by simp
  with covered up(4) show "\<exists>A. au_ackThrough ack = bigint_toString A \<and> 0 \<le> A
    \<and> (\<forall>k. 0 < k \<and> k \<le> A \<longrightarrow> stored db' (na_id agent) (na_nodeId agent) (ub_bootId input) k)" by blast
  show "ack_wf db'"
    unfolding ack_wf_def up(7) set_tmodify
  proof clarify
    fix a assume a: "a \<in> set (agents db)"
    show "ack_ok db' (if na_id a = na_id agent then f a else a)"
    proof (cases "na_id a = na_id agent")
      case True
      with one [OF a] up(8) boot covered \<open>0 \<le> A\<close> show ?thesis by (simp add: ack_ok_def)
    next
      case False
      from a assms(2) have "ack_ok db a" by (simp add: ack_wf_def)
      with False mono show ?thesis by (auto intro: ack_ok_mono)
    qed
  qed
qed

lemma rows_upload:
  assumes "usageBatches pf isDate fault agent input db = Inr (ack, db')" and "rows_wf db"
  shows "rows_wf db'"
proof -
  from assms(1) obtain new n where up:
    "\<forall>b. new = Some b \<longrightarrow> (\<exists>u. b = new_row pf agent input n u) \<and> batch_key b \<notin> batch_key ` set (usage_batches db)
       \<and> nb_id b \<notin> nb_id ` set (usage_batches db)"
    "same_rows (stored_rows db new) (usage_batches db')" by (rule upload_effect) blast
  have "map nb_id (usage_batches db') = map nb_id (stored_rows db new)"
    "map batch_key (usage_batches db') = map batch_key (stored_rows db new)"
    by (rule same_rows_map [OF up(2)], erule same_row_sel)+
  with stored_rows_wf [OF assms(2)] up(1) show ?thesis by (auto simp: rows_wf_def)
qed

section \<open>The other operations and the stored batches\<close>

text \<open>Agents and stored batches together.\<close>

definition intake_view :: "control_plane \<Rightarrow> NodeAgent list \<times> NodeUsageBatch list" where
  "intake_view db = (agents db, usage_batches db)"

lemma intake_view_update [simp]:
  "intake_view (db\<lparr>fresh := n\<rparr>) = intake_view db" "intake_view (db\<lparr>nodes := x\<rparr>) = intake_view db"
  "intake_view (db\<lparr>command_jobs := j\<rparr>) = intake_view db" "intake_view (db\<lparr>lease_jobs := l\<rparr>) = intake_view db"
  "intake_view (db\<lparr>bindings := bs\<rparr>) = intake_view db" "intake_view (db\<lparr>register_tokens := t\<rparr>) = intake_view db"
  "intake_view (db\<lparr>out_commands := oc\<rparr>) = intake_view db" "intake_view (db\<lparr>out_transitions := ot\<rparr>) = intake_view db"
  "intake_view (db\<lparr>out_admin := oa\<rparr>) = intake_view db"
  by (simp_all add: intake_view_def)

lemma ack_wf_frame: "tframe intake_view m \<Longrightarrow> tkeeps ack_wf m"
  unfolding tkeeps_def by (auto simp: ack_wf_def ack_ok_def stored_def intake_view_def dest: tframeD)

lemma rows_wf_frame: "tframe usage_batches m \<Longrightarrow> tkeeps rows_wf m"
  unfolding tkeeps_def by (auto simp: rows_wf_def dest: tframeD)

lemma tokens_wf_frame: "tframe register_tokens m \<Longrightarrow> tkeeps tokens_wf m"
  unfolding tkeeps_def by (auto simp: tokens_wf_def dest: tframeD)

lemma complete_frame:
  assumes "\<And>db t. view (db\<lparr>nodes := t\<rparr>) = view db" "\<And>db t. view (db\<lparr>command_jobs := t\<rparr>) = view db"
    "\<And>db t. view (db\<lparr>bindings := t\<rparr>) = view db" "\<And>db t. view (db\<lparr>out_admin := t\<rparr>) = view db"
  shows "tframe view (api_completeCommand pf agent commandId input)"
  unfolding api_completeCommand_def applyInboundReport_def keep_watermarks_def update_nodes_def update_job_def Let_def
  by (intro tframe_intros) (auto intro!: tframe_intros assms split: option.splits json.splits)

lemma recover_frame: "tframe view m \<Longrightarrow> tframe view (recover_replay key m)"
  unfolding tframe_def by (blast intro: recover_keeps)

lemma queue_frame:
  assumes "\<And>db t. view (db\<lparr>nodes := t\<rparr>) = view db" "\<And>db t. view (db\<lparr>command_jobs := t\<rparr>) = view db"
    "\<And>db n. view (db\<lparr>fresh := n\<rparr>) = view db" "\<And>db t. view (db\<lparr>out_commands := t\<rparr>) = view db"
    "\<And>db t. view (db\<lparr>out_admin := t\<rparr>) = view db"
  shows "tframe view (queueCommand pf nodeId input)"
  unfolding queueCommand_def choose_key_def queue_tx_def panel_ready_def release_key_def order_job_def binding_target_def
    bump_revision_def update_job_def publish_job_def resolveExhaustedCommands_def
  by (intro tframe_intros recover_frame) (auto intro!: tframe_intros assms split: option.splits json.splits)

lemma sweep_frames:
  assumes "\<And>db t. view (db\<lparr>nodes := t\<rparr>) = view db" "\<And>db t. view (db\<lparr>command_jobs := t\<rparr>) = view db"
    "\<And>db t. view (db\<lparr>out_commands := t\<rparr>) = view db"
  shows "tframe view (cancel_exhausted pf c)" "tframe view (claim_job pf j)"
  unfolding cancel_exhausted_def update_job_def claim_job_def publish_job_def by (intro tframe_intros assms)+

section \<open>Commands and revisions under an upload\<close>

lemma jobs_wf_disable: "tkeeps jobs_wf (disableDirectBindingsForSubscriptions pf n a disabled)"
proof -
  have "tkeeps jobs_wf (disable_node_bindings pf n a disabled g ids)" for g ids
    unfolding disable_node_bindings_def queue_disable_def by (intro tkeeps_intros)
  then show ?thesis unfolding disableDirectBindingsForSubscriptions_def by (intro tkeeps_intros)
qed

text \<open>An invariant that the steps of accounting keep.\<close>

lemma batch_keeps:
  assumes "\<And>t. tkeeps I (write_unchanged sampledAt t)" "\<And>x. tkeeps I (write_changed pf n sampledAt x)"
    "\<And>x c. tkeeps I (charge_subscription sampledAt x c)" "\<And>f. tkeeps I (twrite (\<lambda>db. db\<lparr>ledger_rows := f db\<rparr>))"
    "\<And>d. tkeeps I (disableDirectBindingsForSubscriptions pf n a d)" "\<And>d. tkeeps I (revoke_leases pf n d)"
    "\<And>e t ss. tkeeps I (tally_entry pf n sampledAt ss e t)"
  shows "tkeeps I (applyDirectBatch pf a n sampledAt boot sq samples)"
  unfolding applyDirectBatch_def charge_tally_def by (intro tkeeps_intros assms)

lemma retry_keeps: "tkeeps I m \<Longrightarrow> tkeeps I (withSerializableRetry fault m)"
  by (rule tkeepsI) (blast dest: retry_Inr tkeepsD)

lemma register_retry_keeps: "tkeeps I m \<Longrightarrow> tkeeps I (with_register_retry fault m)"
  by (rule tkeepsI) (blast dest: retry_register_Inr tkeepsD)

lemma upload_keeps:
  assumes batch: "\<And>a n sampledAt boot sq samples. tkeeps I (applyDirectBatch pf a n sampledAt boot sq samples)"
    and agents: "\<And>i f. (\<And>a. na_id (f a) = na_id a \<and> na_agentId (f a) = na_agentId a \<and> na_tokenHash (f a) = na_tokenHash a
        \<and> na_nodeId (f a) = na_nodeId a \<and> na_revokedAt (f a) = na_revokedAt a) \<Longrightarrow> tkeeps I (set_agents (\<lambda>a. na_id a = i) f)"
    and rows: "\<And>p f. tkeeps I (set_batches p f)" "\<And>b. tkeeps I (insert_batch b)"
    and draw: "tkeeps I (draw_uuid pf)" and out: "\<And>t. tkeeps I (publish_transition t)" "\<And>a c. tkeeps I (publish_command a c)"
  shows "tkeeps I (usageBatches pf isDate fault agent input)"
proof -
  have loop: "tkeeps I (account_loop pf a n boot bs acc)" for a n boot bs acc
  proof (induction bs arbitrary: acc)
    case Nil
    then show ?case by (simp add: tkeeps_basic)
  next
    case (Cons b bs)
    show ?case unfolding account_loop.simps account_batch_def by (intro tkeeps_intros Cons batch rows)
  qed
  have process: "tkeeps I (process_stored pf agent node boot ack)" for node boot ack
    unfolding process_stored_def accountContiguousBatches_def advanceAck_def by (intro tkeeps_intros loop)
  have switch: "tkeeps I (switch_boot current boot)" for current boot
    unfolding switch_boot_def by (intro tkeeps_intros agents) simp
  have recorded: "tkeeps I (record_ack pf agent boot lastSeq ack)" for boot lastSeq ack
    unfolding record_ack_def by (intro agents) simp
  show ?thesis
    unfolding usageBatches_def ingestUsageBatch_def ingest_tx_def live_agent_def already_stored_def store_batch_def
      publish_pending_def publish_job_def
    by (intro tkeeps_intros retry_keeps process switch recorded rows draw out)
qed

lemma insert_batch_frame [tframe_intros]:
  "(\<And>db t. view (db\<lparr>usage_batches := t\<rparr>) = view db) \<Longrightarrow> tframe view (insert_batch b)"
  by (rule tframeI) (auto simp: insert_batch_def split: if_splits)

lemma jobs_wf_insert_batch: "tkeeps jobs_wf (insert_batch b)"
  by (rule jobs_wf_frame; intro tframe_intros; simp)

lemma jobs_wf_upload: "tkeeps jobs_wf (usageBatches pf isDate fault agent input)"
proof (rule upload_keeps)
  fix a n sampledAt boot sq samples
  show "tkeeps jobs_wf (applyDirectBatch pf a n sampledAt boot sq samples)"
    by (rule batch_keeps)
      (auto simp: revoke_leases_def charge_subscription_def Let_def intro!: jobs_wf_disable tkeeps_intros
        jobs_wf_frame [OF write_changed_frame write_changed_frame] jobs_wf_frame [OF write_unchanged_frame write_unchanged_frame]
        jobs_wf_frame [OF tally_frame tally_frame] jobs_wf_frame [OF tframe_twrite tframe_twrite])
qed (intro tkeeps_intros jobs_wf_insert_batch)+

lemma rev_quiet:
  "tkeeps revisions_wf (write_unchanged tm us)" "tkeeps revisions_wf (write_changed pf n tm e)"
  "tkeeps revisions_wf (twrite (\<lambda>db. db\<lparr>ledger_rows := f db\<rparr>))" "tkeeps revisions_wf (revoke_leases pf n d)"
  "tkeeps revisions_wf (tally_entry pf n tm ss e' t)" "tkeeps revisions_wf (insert_batch b)"
  by (rule rev_frame; intro tframe_intros tframe_twrite write_unchanged_frame write_changed_frame revoke_frame tally_frame; simp)+

lemma rev_upload: "tkeeps revisions_wf (usageBatches pf isDate fault agent input)"
proof (rule upload_keeps)
  fix a n sampledAt boot sq samples
  show "tkeeps revisions_wf (applyDirectBatch pf a n sampledAt boot sq samples)"
    by (rule batch_keeps) (auto simp: charge_subscription_def Let_def intro!: rev_disable rev_quiet tkeeps_intros)
qed (intro tkeeps_intros rev_quiet)+

lemma agents_wf_upload: "tkeeps agents_wf (usageBatches pf isDate fault agent input)"
proof (rule upload_keeps)
  fix i and f :: "NodeAgent \<Rightarrow> NodeAgent"
  assume "\<And>a. na_id (f a) = na_id a \<and> na_agentId (f a) = na_agentId a \<and> na_tokenHash (f a) = na_tokenHash a
        \<and> na_nodeId (f a) = na_nodeId a \<and> na_revokedAt (f a) = na_revokedAt a"
  then show "tkeeps agents_wf (set_agents (\<lambda>a. na_id a = i) f)" by (intro agents_wf_set) (simp add: live_def)
qed (rule agents_wf_frame; intro tframe_intros batch_leaves; simp)+

lemma tokens_wf_upload: "tkeeps tokens_wf (usageBatches pf isDate fault agent input)"
  by (rule upload_keeps; rule tokens_wf_frame; intro tframe_intros applyDirectBatch_frame; simp)

section \<open>Heartbeats and credentials\<close>

lemma heartbeat_frame:
  assumes "\<And>db t. view (db\<lparr>nodes := t\<rparr>) = view db" "\<And>db t. view (db\<lparr>agents := t\<rparr>) = view db"
    "\<And>db t. view (db\<lparr>out_admin := t\<rparr>) = view db"
  shows "tframe view (heartbeat pf agent beat)"
  unfolding heartbeat_def live_agent_def Let_def by (intro tframe_intros assms)

lemma heartbeat_effect:
  assumes "heartbeat pf agent beat db = Inr (r, db')"
  obtains current f where "tfind na_id (na_id agent) (agents db) = Some current"
    "agents db' = tmodify (\<lambda>a. na_id a = na_id agent) f (agents db)" "usage_batches db' = usage_batches db"
    "hr_ackThrough r = bigint_toString (if na_bootId current \<noteq> Some (hd_bootId beat) then 0 else na_lastAckSequence current)"
    "\<forall>a. na_id (f a) = na_id a \<and> na_agentId (f a) = na_agentId a \<and> na_tokenHash (f a) = na_tokenHash a
       \<and> na_nodeId (f a) = na_nodeId a \<and> na_revokedAt (f a) = na_revokedAt a \<and> na_bootId (f a) = Some (hd_bootId beat)
       \<and> na_lastAckSequence (f a) = (if na_bootId current \<noteq> Some (hd_bootId beat) then 0 else na_lastAckSequence a)"
proof -
  from assms obtain configRevision node current dba dbb p g b where
    cur: "tfind na_id (na_id agent) (agents db) = Some current"
    and upd: "set_agents (\<lambda>a. na_id a = na_id agent)
       (\<lambda>a. a\<lparr>na_bootId := Some (hd_bootId beat), na_version := Some (hd_version beat), na_status := ''online'',
              na_xrayStatus := hd_xrayStatus beat, na_queueDepth := hd_queueDepth beat,
              na_configRevision := configRevision, na_lastSeenAt := Some (pf_now pf),
              na_lastSequence := (if na_bootId current \<noteq> Some (hd_bootId beat) then 0 else na_lastSequence a),
              na_lastAckSequence := (if na_bootId current \<noteq> Some (hd_bootId beat) then 0 else na_lastAckSequence a)\<rparr>) db = Inr ((), dba)"
      (is "set_agents _ ?f _ = _")
    and rest: "set_nodes p g dba = Inr ((), dbb)" "twhen b (publish_admin (na_nodeId agent)) dbb = Inr ((), db')"
    and r: "hr_ackThrough r = bigint_toString (if na_bootId current \<noteq> Some (hd_bootId beat) then 0 else na_lastAckSequence current)"
    unfolding heartbeat_def live_agent_def Let_def tx_simps by auto
  from upd rest have "agents db' = tmodify (\<lambda>a. na_id a = na_id agent) ?f (agents db)" "usage_batches db' = usage_batches db"
    by (auto simp: set_agents_def set_nodes_def twhen_def publish_admin_def split: if_splits)
  with cur r show ?thesis by (intro that [of current ?f]) simp_all
qed

lemma ack_heartbeat:
  assumes "heartbeat pf agent beat db = Inr (r, db')" and "ack_wf db" and "agents_wf db" and "agent \<in> set (agents db)"
  shows "ack_wf db'" "\<exists>A. hr_ackThrough r = bigint_toString A \<and> 0 \<le> A
    \<and> (\<forall>k. 0 < k \<and> k \<le> A \<longrightarrow> stored db' (na_id agent) (na_nodeId agent) (hd_bootId beat) k)"
proof -
  from assms(1) obtain current f where hb: "tfind na_id (na_id agent) (agents db) = Some current"
    "agents db' = tmodify (\<lambda>a. na_id a = na_id agent) f (agents db)" "usage_batches db' = usage_batches db"
    "hr_ackThrough r = bigint_toString (if na_bootId current \<noteq> Some (hd_bootId beat) then 0 else na_lastAckSequence current)"
    "\<forall>a. na_id (f a) = na_id a \<and> na_nodeId (f a) = na_nodeId a \<and> na_bootId (f a) = Some (hd_bootId beat)
       \<and> na_lastAckSequence (f a) = (if na_bootId current \<noteq> Some (hd_bootId beat) then 0 else na_lastAckSequence a)"
    by (rule heartbeat_effect) blast
  have ids: "distinct (map na_id (agents db))" using assms(3) by (simp add: agents_wf_def)
  have one: "a = agent" if "a \<in> set (agents db)" "na_id a = na_id agent" for a
    using distinct_map_eq [OF ids that(1) assms(4)] that(2) by simp
  have cur: "current = agent" using tfind_Some_in [OF hb(1)] one by blast
  have ok: "ack_ok db agent" using assms(2,4) by (simp add: ack_wf_def)
  have rows: "stored db' = stored db" by (intro ext) (simp add: stored_def hb(3))
  show "\<exists>A. hr_ackThrough r = bigint_toString A \<and> 0 \<le> A
    \<and> (\<forall>k. 0 < k \<and> k \<le> A \<longrightarrow> stored db' (na_id agent) (na_nodeId agent) (hd_bootId beat) k)"
    using hb(4) ok unfolding cur rows ack_ok_def by (cases "na_bootId agent = Some (hd_bootId beat)") force+
  show "ack_wf db'"
    unfolding ack_wf_def hb(2) set_tmodify
  proof clarify
    fix a assume a: "a \<in> set (agents db)"
    then have ok_a: "ack_ok db a" using assms(2) by (simp add: ack_wf_def)
    show "ack_ok db' (if na_id a = na_id agent then f a else a)"
    proof (cases "na_id a = na_id agent \<and> na_bootId agent = Some (hd_bootId beat)")
      case True
      with one [OF a] hb(5) ok cur show ?thesis by (simp add: ack_ok_def rows)
    next
      case False
      with ok_a hb(5) cur show ?thesis by (auto simp: ack_ok_def rows)
    qed
  qed
qed

lemma insert_agent_frame [tframe_intros]:
  "(\<And>db t. view (db\<lparr>agents := t\<rparr>) = view db) \<Longrightarrow> tframe view (insert_agent a)"
  by (rule tframeI) (auto simp: insert_agent_def split: if_splits)

lemma credential_frame:
  assumes "\<And>db t. view (db\<lparr>agents := t\<rparr>) = view db" "\<And>db n. view (db\<lparr>fresh := n\<rparr>) = view db"
  shows "tframe view (createCredential pf nodeId agentId)" "tframe view (revokeCredential pf nodeId recordId)"
  unfolding createCredential_def revokeCredential_def Let_def by (intro tframe_intros assms)+

lemma ack_set_agents:
  assumes "\<And>a. na_id (f a) = na_id a \<and> na_nodeId (f a) = na_nodeId a \<and> na_bootId (f a) = na_bootId a
    \<and> na_lastAckSequence (f a) = na_lastAckSequence a"
  shows "tkeeps ack_wf (set_agents p f)"
  by (rule tkeepsI) (auto simp: set_agents_def ack_wf_def ack_ok_def stored_def assms)

lemma ack_insert_agent:
  assumes "na_lastAckSequence a = 0"
  shows "tkeeps ack_wf (insert_agent a)"
proof (rule tkeepsI)
  fix db r db' assume wf: "ack_wf db" and run: "insert_agent a db = Inr (r, db')"
  then have "agents db' = agents db @ [a]" "usage_batches db' = usage_batches db"
    by (auto simp: insert_agent_def split: if_splits)
  with wf ack_ok_zero [OF assms] show "ack_wf db'" by (auto simp: ack_wf_def ack_ok_def stored_def)
qed

lemma ack_other: "tkeeps ack_wf (draw_uuid pf)" "tkeeps ack_wf (draw_random pf)" "tkeeps ack_wf (set_nodes p f)"
  "tkeeps ack_wf (set_tokens q g)" "tkeeps ack_wf (insert_job j)" "tkeeps ack_wf (publish_admin n)"
  by (rule ack_wf_frame; intro tframe_intros; simp)+

lemma ack_credential: "tkeeps ack_wf (createCredential pf nodeId agentId)" "tkeeps ack_wf (revokeCredential pf nodeId recordId)"
  unfolding createCredential_def revokeCredential_def Let_def
  by (intro tkeeps_intros ack_other ack_set_agents ack_insert_agent; simp add: new_agent_def)+

section \<open>Nodes and registration\<close>

lemma insert_node_frame [tframe_intros]:
  "(\<And>db t. view (db\<lparr>nodes := t\<rparr>) = view db) \<Longrightarrow> tframe view (insert_node n)"
  by (rule tframeI) (auto simp: insert_node_def split: if_splits)

lemma insert_token_frame [tframe_intros]:
  "(\<And>db t. view (db\<lparr>register_tokens := t\<rparr>) = view db) \<Longrightarrow> tframe view (insert_token r)"
  by (rule tframeI) (auto simp: insert_token_def split: if_splits)

lemma create_node_frame:
  assumes "\<And>db t. view (db\<lparr>nodes := t\<rparr>) = view db" "\<And>db t. view (db\<lparr>register_tokens := t\<rparr>) = view db"
    "\<And>db n. view (db\<lparr>fresh := n\<rparr>) = view db"
  shows "tframe view (createAgentNode pf name panel)"
  unfolding createAgentNode_def Let_def by (intro tframe_intros assms)

lemma register_retry_frame: "tframe view m \<Longrightarrow> tframe view (with_register_retry fault m)"
  unfolding tframe_def by (blast intro: register_retry_keeps)

lemma issue_token_frame:
  assumes "\<And>db t. view (db\<lparr>nodes := t\<rparr>) = view db" "\<And>db t. view (db\<lparr>register_tokens := t\<rparr>) = view db"
    "\<And>db n. view (db\<lparr>fresh := n\<rparr>) = view db"
  shows "tframe view (issueRegisterToken pf fault nodeId)"
  unfolding issueRegisterToken_def issueRegisterTokenOnce_def Let_def
  by (intro tframe_intros register_retry_frame assms)

lemma tokens_insert: "tkeeps tokens_wf (insert_token r)"
  by (rule tkeepsI) (auto simp: insert_token_def tokens_wf_def split: if_splits)

lemma tokens_set:
  "(\<And>r. rt_id (f r) = rt_id r \<and> rt_tokenHash (f r) = rt_tokenHash r) \<Longrightarrow> tkeeps tokens_wf (set_tokens p f)"
  by (rule tkeepsI) (auto simp: set_tokens_def tokens_wf_def map_key_tmodify)

lemma tokens_other: "tkeeps tokens_wf (draw_uuid pf)" "tkeeps tokens_wf (draw_random pf)" "tkeeps tokens_wf (set_nodes p f)"
  "tkeeps tokens_wf (insert_node n)" "tkeeps tokens_wf (insert_agent a)" "tkeeps tokens_wf (insert_job j)"
  "tkeeps tokens_wf (publish_admin m)"
  by (rule tokens_wf_frame; intro tframe_intros; simp)+

lemma tokens_node: "tkeeps tokens_wf (createAgentNode pf name panel)"
  unfolding createAgentNode_def Let_def by (intro tkeeps_intros tokens_other tokens_insert)

lemma tokens_issue: "tkeeps tokens_wf (issueRegisterToken pf fault nodeId)"
  unfolding issueRegisterToken_def issueRegisterTokenOnce_def Let_def
  by (intro tkeeps_intros register_retry_keeps tokens_other tokens_insert tokens_set) simp

text \<open>An invariant that the steps of a registration keep.\<close>

lemma register_keeps:
  assumes "\<And>u i n. tkeeps I (insert_agent (registered_agent pf u i n input))"
    "\<And>row. tkeeps I (set_tokens (\<lambda>r. rt_id r = row) (\<lambda>r. r\<lparr>rt_usedAt := Some (pf_now pf)\<rparr>))"
    "\<And>n spec. tkeeps I (set_nodes (\<lambda>x. nd_id x = n) (register_node pf spec))" "\<And>j. tkeeps I (insert_job j)"
    "tkeeps I (draw_uuid pf)" "tkeeps I (draw_random pf)" "\<And>n. tkeeps I (publish_admin n)"
  shows "tkeeps I (register_agent pf fault input)"
proof -
  have "tkeeps I (mint_credential pf input agentId row node)" for agentId row node
    unfolding mint_credential_def by (intro tkeeps_intros assms)
  then have "tkeeps I (register_tx pf input agentId)" for agentId
    unfolding register_tx_def Let_def by (auto intro!: tkeeps_intros split: option.splits)
  then show ?thesis unfolding register_agent_def registerOnce_def
    by (intro tkeeps_intros register_retry_keeps assms)
qed

lemma register_node_sel [simp]: "nd_id (register_node pf spec n) = nd_id n"
  by (simp add: register_node_def split: option.splits)

lemma register_keeps_others:
  "tkeeps jobs_wf (register_agent pf fault input)" "tkeeps tokens_wf (register_agent pf fault input)"
  "tkeeps ack_wf (register_agent pf fault input)" "tkeeps rows_wf (register_agent pf fault input)"
proof -
  show "tkeeps jobs_wf (register_agent pf fault input)"
    by (rule register_keeps) (intro tkeeps_intros jobs_wf_frame tframe_intros; simp)+
  show "tkeeps tokens_wf (register_agent pf fault input)"
    by (rule register_keeps) (intro tokens_other tokens_set; simp)+
  show "tkeeps ack_wf (register_agent pf fault input)"
    by (rule register_keeps) (intro ack_other ack_insert_agent; simp add: registered_agent_def new_agent_def)+
  show "tkeeps rows_wf (register_agent pf fault input)"
    by (rule register_keeps; rule rows_wf_frame; intro tframe_intros; simp)
qed

lemma rev_insert_node: "0 \<le> nd_agentConfigRevision n \<Longrightarrow> tkeeps revisions_wf (insert_node n)"
  by (rule tkeepsI) (auto simp: insert_node_def revisions_within_def reached_def split: if_splits)

lemma rev_tokens: "tkeeps revisions_wf (insert_token r)" "tkeeps revisions_wf (set_tokens p f)"
  by (rule rev_frame; intro tframe_intros; simp)+

lemma rev_node: "tkeeps revisions_wf (createAgentNode pf name panel)"
  unfolding createAgentNode_def Let_def
  by (intro tkeeps_intros rev_insert_node rev_tokens) (simp add: pending_node_def)

lemma rev_issue: "tkeeps revisions_wf (issueRegisterToken pf fault nodeId)"
  unfolding issueRegisterToken_def issueRegisterTokenOnce_def Let_def
  by (intro tkeeps_intros register_retry_keeps rev_set_nodes rev_tokens) simp

lemma mint_rev:
  assumes "mint_credential pf input agentId row node db = Inr (i, db')" and "revisions_wf db"
    and "tfind nd_id (nd_id node) (nodes db) = Some node"
  shows "revisions_wf db'"
proof -
  from assms(1) obtain spec u db1 agent db2 db3 db4 where st:
    "draw_uuid pf db = Inr (u, db1)"
    "insert_agent (registered_agent pf u agentId (nd_id node) input) db1 = Inr (agent, db2)"
    "set_tokens (\<lambda>r. rt_id r = rt_id row) (\<lambda>r. r\<lparr>rt_usedAt := Some (pf_now pf)\<rparr>) db2 = Inr ((), db3)"
    and node: "set_nodes (\<lambda>n. nd_id n = nd_id node) (register_node pf spec) db3 = Inr ((), db4)"
    and job: "(case spec of
         None \<Rightarrow> tret ()
       | Some s \<Rightarrow>
           tbind (draw_uuid pf) (\<lambda>j.
           tbind (insert_job (new_job pf j (''onboarding:'' @ nd_id node) (nd_id node) (na_id agent) ENSURE_INBOUND
                    (nd_agentConfigRevision node + 1) (panel_json s) None)) (\<lambda>_. tret ()))) db4 = Inr ((), db')"
    by (rule mint_stages) blast
  have same: "nodes db3 = nodes db" "command_jobs db3 = command_jobs db"
    using st by (auto simp: draw_uuid_def insert_agent_def set_tokens_def split: if_splits)
  with assms(2) have wf: "revisions_wf db3" by (simp add: revisions_within_def reached_def)
  show ?thesis
  proof (cases spec)
    case None
    have "tkeeps revisions_wf (set_nodes (\<lambda>n. nd_id n = nd_id node) (register_node pf None))"
      by (rule rev_set_nodes) (simp add: register_node_def)
    with wf node job None show ?thesis by (auto dest: tkeepsD)
  next
    case (Some s)
    let ?g = "\<lambda>n. n\<lparr>nd_onboardingSpec := Some (JObj (mput ''activateOnFirstValidation''
              (JBool (onboarding_flag n ''activateOnFirstValidation'' = Some (JBool True))) (panel_json s))),
            nd_registrationStatus := Some ''agent_ready'', nd_agentLastSeenAt := Some (pf_now pf)\<rparr>"
    have "bump_revision (nd_id node) ?g db3 = Inr (nd_agentConfigRevision node + 1, db4)"
      using node assms(3) by (auto simp: bump_revision_def tx_simps same Some register_node_def set_nodes_def tmodify_def)
    from bump_reaches [OF wf this] have "revisions_within {(nd_id node, nd_agentConfigRevision node + 1)} db4" by simp
    moreover have "tkeeps (revisions_within {(nd_id node, nd_agentConfigRevision node + 1)}) (tbind (draw_uuid pf) (\<lambda>j.
           tbind (insert_job (new_job pf j (''onboarding:'' @ nd_id node) (nd_id node) (na_id agent) ENSURE_INBOUND
                    (nd_agentConfigRevision node + 1) (panel_json s) None)) (\<lambda>_. tret ())))"
      by (intro tkeeps_intros) (simp add: new_job_def)
    ultimately have "revisions_within {(nd_id node, nd_agentConfigRevision node + 1)} db'"
      using job Some by (auto dest: tkeepsD)
    then show ?thesis by (simp add: revisions_within_def)
  qed
qed

lemma tfind_self: "tfind key k rows = Some r \<Longrightarrow> tfind key (key r) rows = Some r"
  by (auto dest: tfind_Some_in)

lemma register_rev: "tkeeps revisions_wf (register_tx pf input agentId)"
proof (rule tkeepsI)
  fix db r db' assume wf: "revisions_wf db" and run: "register_tx pf input agentId db = Inr (r, db')"
  from run show "revisions_wf db'"
    by (auto simp: register_tx_def Let_def tx_simps split: option.splits
        intro: wf mint_rev [OF _ wf tfind_self])
qed

lemma rev_register: "tkeeps revisions_wf (register_agent pf fault input)"
  unfolding register_agent_def registerOnce_def by (intro tkeeps_intros register_retry_keeps register_rev)

lemma agents_wf_register: "tkeeps agents_wf (register_agent pf fault input)"
  unfolding register_agent_def registerOnce_def
  by (intro tkeeps_intros register_retry_keeps agents_wf_other) (rule tkeepsI, rule register_wf)

section \<open>The whole invariant\<close>

definition service_wf :: "control_plane \<Rightarrow> bool" where
  "service_wf db \<longleftrightarrow> rows_wf db \<and> jobs_wf db \<and> revisions_wf db \<and> agents_wf db \<and> tokens_wf db \<and> ack_wf db"

lemma service_keepsI:
  assumes "tkeeps rows_wf m" "tkeeps jobs_wf m" "tkeeps revisions_wf m" "tkeeps agents_wf m" "tkeeps tokens_wf m" "tkeeps ack_wf m"
  shows "tkeeps service_wf m"
  using assms unfolding tkeeps_def service_wf_def by meson

lemma service_result: "tkeeps service_wf (post_commandResult pf request commandId body)"
  unfolding post_commandResult_def
  by (intro service_keepsI tkeeps_intros jobs_wf_complete rev_complete rows_wf_frame agents_wf_frame tokens_wf_frame
      ack_wf_frame complete_frame; simp)

lemma service_credential: "tkeeps service_wf (createCredential pf nodeId agentId)" "tkeeps service_wf (revokeCredential pf nodeId recordId)"
  by (intro service_keepsI agents_wf_credential agents_wf_revoke ack_credential jobs_wf_frame rev_frame rows_wf_frame
      tokens_wf_frame credential_frame; simp)+

lemma service_node: "tkeeps service_wf (createAgentNode pf name panel)"
  by (intro service_keepsI rev_node tokens_node jobs_wf_frame rows_wf_frame agents_wf_frame ack_wf_frame create_node_frame; simp)

lemma service_token: "tkeeps service_wf (issueRegisterToken pf fault nodeId)"
  by (intro service_keepsI rev_issue tokens_issue jobs_wf_frame rows_wf_frame agents_wf_frame ack_wf_frame issue_token_frame; simp)

lemma service_register: "tkeeps service_wf (register_agent pf fault input)"
  by (intro service_keepsI register_keeps_others rev_register agents_wf_register)

lemma service_queue: "tkeeps service_wf (queueCommand pf nodeId input)"
  by (intro service_keepsI jobs_wf_queue rev_queue rows_wf_frame agents_wf_frame tokens_wf_frame ack_wf_frame queue_frame; simp)

lemma service_sweep:
  assumes "service_wf db"
  shows "service_wf (snd (retryDueCommands pf budget db))"
proof -
  have "tkeeps service_wf (cancel_exhausted pf c)" for c
    by (intro service_keepsI jobs_wf_cancel rev_cancel rows_wf_frame agents_wf_frame tokens_wf_frame ack_wf_frame sweep_frames; simp)
  moreover have "tkeeps service_wf (claim_job pf j)" for j
    by (intro service_keepsI jobs_wf_claim rev_claim rows_wf_frame agents_wf_frame tokens_wf_frame ack_wf_frame sweep_frames; simp)
  ultimately show ?thesis using sweep_keeps [of service_wf pf db budget] assms by blast
qed

lemma service_upload: "tkeeps service_wf (post_usageBatches pf isDate fault request batch)"
proof (rule tkeepsI)
  fix db r db' assume wf: "service_wf db" and run: "post_usageBatches pf isDate fault request batch db = Inr (r, db')"
  then obtain a where a: "a \<in> set (agents db)" and up: "usageBatches pf isDate fault a batch db = Inr (r, db')"
    by (auto simp: post_usageBatches_def guarded_Inr dest: admitted(1))
  from wf have "jobs_wf db'" "revisions_wf db'" "agents_wf db'" "tokens_wf db'"
    using tkeepsD [OF jobs_wf_upload _ up] tkeepsD [OF rev_upload _ up] tkeepsD [OF agents_wf_upload _ up]
      tkeepsD [OF tokens_wf_upload _ up] by (simp_all add: service_wf_def)
  with rows_upload [OF up] ack_upload(1) [OF up _ _ a] wf show "service_wf db'" by (simp add: service_wf_def)
qed

lemma service_heartbeat: "tkeeps service_wf (post_heartbeat pf request beat)"
proof (rule tkeepsI)
  fix db r db' assume wf: "service_wf db" and run: "post_heartbeat pf request beat db = Inr (r, db')"
  then obtain a where a: "a \<in> set (agents db)" and hb: "heartbeat pf a beat db = Inr (r, db')"
    by (auto simp: post_heartbeat_def guarded_Inr tx_simps dest: admitted(1))
  have "tkeeps jobs_wf (heartbeat pf a beat)" "tkeeps rows_wf (heartbeat pf a beat)" "tkeeps tokens_wf (heartbeat pf a beat)"
    by (intro jobs_wf_frame rows_wf_frame tokens_wf_frame heartbeat_frame; simp)+
  moreover have "tkeeps revisions_wf (heartbeat pf a beat)" "tkeeps agents_wf (heartbeat pf a beat)"
    unfolding heartbeat_def live_agent_def Let_def by (intro tkeeps_intros rev_set_nodes; simp add: live_def)+
  ultimately have "jobs_wf db'" "rows_wf db'" "tokens_wf db'" "revisions_wf db'" "agents_wf db'"
    using wf hb unfolding service_wf_def by (blast dest: tkeepsD)+
  with ack_heartbeat(1) [OF hb _ _ a] wf show "service_wf db'" by (simp add: service_wf_def)
qed

lemma node_moves_reached:
  assumes "list_all2 node_moves ns ns'"
  shows "map nd_id ns' = map nd_id ns" "n' \<in> set ns' \<Longrightarrow> \<exists>n \<in> set ns. node_moves n n'"
proof -
  from assms show "map nd_id ns' = map nd_id ns" by (induction rule: list_all2_induct) (auto simp: node_moves_def)
  from assms show "n' \<in> set ns' \<Longrightarrow> \<exists>n \<in> set ns. node_moves n n'" by (induction rule: list_all2_induct) auto
qed

lemma service_elsewhere:
  assumes "service_wf db" "usage_batches db' = usage_batches db" "agents db' = agents db" "command_jobs db' = command_jobs db"
    "lease_jobs db' = lease_jobs db" "register_tokens db' = register_tokens db" "list_all2 node_moves (nodes db) (nodes db')"
  shows "service_wf db'"
proof -
  note moves = node_moves_reached [OF assms(7)]
  have ids: "nd_id ` set (nodes db') = nd_id ` set (nodes db)" using arg_cong [OF moves(1), of set] by simp
  have "snd x \<le> nd_agentConfigRevision n" if "reached db x" "n \<in> set (nodes db')" "nd_id n = fst x" for x n
    using moves(2) [OF that(2)] that(1,3) by (force simp: reached_def node_moves_def)
  then have "reached db' x" if "reached db x" for x
    using that ids unfolding reached_def by auto
  moreover have "0 \<le> nd_agentConfigRevision n" if "n \<in> set (nodes db')" for n
    using moves(2) [OF that] assms(1) by (auto simp: node_moves_def service_wf_def revisions_within_def)
  ultimately have "revisions_wf db'" using assms(1,4) moves(1) by (simp add: revisions_within_def service_wf_def)
  with assms show ?thesis
    by (simp add: service_wf_def rows_wf_def jobs_wf_def agents_wf_def tokens_wf_def ack_wf_def ack_ok_def stored_def)
qed

text \<open>Reclaiming keeps every row and touches only payloads of accounted ones.\<close>

lemma rows_wf_same: "same_rows (usage_batches db) (usage_batches db') \<Longrightarrow> rows_wf db' \<longleftrightarrow> rows_wf db"
  using same_rows_map [of "usage_batches db" "usage_batches db'" nb_id] same_row_sel(1)
    same_rows_map [of "usage_batches db" "usage_batches db'" batch_key] same_row_sel(2) by (simp add: rows_wf_def)

lemma redacts_same_row: "redacts b b' \<Longrightarrow> same_row b b'"
  by (cases b; cases b') (auto simp: redacts_def same_row_alt)

lemma reclaim_rows:
  assumes "rows_wf db" and "reorders scan" and "redactSettledUsagePayloads scan blank fault daysEnv now db = (n, db')"
  shows "same_rows (usage_batches db) (usage_batches db')" "db' = db\<lparr>usage_batches := usage_batches db'\<rparr>"
  using reclaim_redacts [OF _ assms(2,3)] assms(1) by (auto simp: rows_wf_def intro: list_all2_mono redacts_same_row)

lemma service_reclaim:
  assumes "service_wf db" and "reorders scan"
    and "redactSettledUsagePayloads scan blank fault daysEnv now db = (n, db')"
  shows "service_wf db'"
proof -
  have "rows_wf db" using assms(1) by (simp add: service_wf_def)
  note rows = reclaim_rows [OF this assms(2,3)]
  have keep: "stored db' a node boot k" if "stored db a node boot k" for a node boot k
    by (rule stored_mono [OF same_rows_member [OF rows(1)] that])
  have other: "agents db' = agents db" "command_jobs db' = command_jobs db" "lease_jobs db' = lease_jobs db"
    "register_tokens db' = register_tokens db" "nodes db' = nodes db" by (subst rows(2), simp)+
  have "rows_wf db'" using rows_wf_same [OF rows(1)] \<open>rows_wf db\<close> by blast
  moreover have "ack_wf db'" using assms(1) keep other(1) by (auto simp: service_wf_def ack_wf_def intro: ack_ok_mono)
  ultimately show ?thesis using assms(1) other
    by (simp add: service_wf_def jobs_wf_def agents_wf_def tokens_wf_def revisions_within_def reached_def)
qed

lemma service_step_wf: "service_step db db' \<Longrightarrow> service_wf db \<Longrightarrow> service_wf db'"
proof (induction rule: service_step.induct)
  case (sweep pf budget db e db')
  then show ?case using service_sweep [of db pf budget] by simp
next
  case (reclaim scan blank fault' daysEnv now db n db')
  then show ?case by (blast intro: service_reclaim)
next
  case (elsewhere db' db)
  then show ?case by (blast intro: service_elsewhere)
qed (blast intro: tkeepsD service_heartbeat service_upload service_result service_credential service_node service_token
    service_register service_queue)+

lemma service_reachable_wf: "service_reachable db db' \<Longrightarrow> service_wf db \<Longrightarrow> service_wf db'"
  by (induction rule: service_reachable.induct) (auto dest: service_step_wf)

section \<open>Properties\<close>

text \<open>
  C12: under every sequence of heartbeats, uploads, command results, credential rotations,
  registrations, orders, sweeps and reclaiming, whoever sends them, the tables keep their invariant: batches,
  commands, agents and tokens have unique keys, a node has at most one live agent, every command
  names a node whose revision counter has reached it, and every acknowledged number is backed by a
  stored batch.
\<close>

theorem service_keeps_invariant:
  assumes "service_reachable db db'" and "service_wf db"
  shows "service_wf db'"
  using assms by (rule service_reachable_wf)

lemma demo_onboarding_service_wf: "service_wf demo_onboarding"
  by (simp add: service_wf_def rows_wf_def jobs_wf_def revisions_within_def agents_wf_def tokens_wf_def ack_wf_def
      demo_onboarding_def demo_db_def demo_node_def)

theorem service_keeps_invariant_witness:
  "\<exists>r db'. register_agent demo_platform (\<lambda>k. None) demo_register demo_onboarding = Inr (r, db') \<and> service_wf db'"
proof -
  obtain r db' where run: "register_agent demo_platform (\<lambda>k. None) demo_register demo_onboarding = Inr (r, db')"
    using demo_registers by (auto split: sum.splits)
  have "service_reachable demo_onboarding db'"
    by (rule service_reachable.stepped [OF service_reachable.initial service_step.registration [OF run]])
  from service_keeps_invariant [OF this demo_onboarding_service_wf] run show ?thesis by blast
qed

text \<open>
  An acknowledgement never runs ahead of storage: whenever the control plane answers an upload
  with a number, it has stored a batch of that node and boot for every number up to it, in this
  upload or before.
\<close>

theorem acknowledged_batches_are_stored:
  assumes "service_reachable db0 db" and "service_wf db0"
    and "post_usageBatches pf isDate fault request batch db = Inr (ack, db')"
  shows "\<exists>node A. rq_nodeId request = Some node \<and> au_ackThrough ack = bigint_toString A \<and> 0 \<le> A
    \<and> (\<forall>k. 0 < k \<and> k \<le> A \<longrightarrow> (\<exists>b \<in> set (usage_batches db'). batch_key b = (node, ub_bootId batch, k)))"
proof -
  from assms(3) obtain a where a: "canActivate pf db request = Inr a" and up: "usageBatches pf isDate fault a batch db = Inr (ack, db')"
    by (auto simp: post_usageBatches_def guarded_Inr)
  have "service_wf db" using assms(1,2) by (rule service_reachable_wf)
  with ack_upload(2) [OF up _ _ admitted(1) [OF a]] admitted(3) [OF a] show ?thesis
    unfolding service_wf_def stored_def by blast
qed

definition demo_service :: control_plane where
  "demo_service = demo_db\<lparr>agents := [demo_credential]\<rparr>"

lemma demo_uploads:
  "case post_usageBatches demo_platform (\<lambda>_. True) (\<lambda>n. None) demo_request (demo_batch ''1'' ''60'' ''80'') demo_service of
     Inl e \<Rightarrow> False | Inr (ack, db) \<Rightarrow> au_ackThrough ack = ''1'' \<and> length (usage_batches db) = 1"
  by code_simp

lemma demo_service_wf: "service_wf demo_service"
  by (simp add: service_wf_def rows_wf_def jobs_wf_def revisions_within_def agents_wf_def tokens_wf_def ack_wf_def ack_ok_zero
      demo_service_def demo_db_def demo_node_def demo_credential_def demo_agent_def)

theorem acknowledged_batches_are_stored_witness:
  "\<exists>ack db' A. post_usageBatches demo_platform (\<lambda>_. True) (\<lambda>n. None) demo_request (demo_batch ''1'' ''60'' ''80'') demo_service
      = Inr (ack, db') \<and> au_ackThrough ack = bigint_toString A \<and> 0 \<le> A"
proof -
  obtain ack db' where run: "post_usageBatches demo_platform (\<lambda>_. True) (\<lambda>n. None) demo_request
      (demo_batch ''1'' ''60'' ''80'') demo_service = Inr (ack, db')"
    using demo_uploads by (auto split: sum.splits)
  from acknowledged_batches_are_stored [OF service_reachable.initial demo_service_wf run] run show ?thesis by blast
qed

end
