(* ===== verification/ApiClient.thy ===== *)
theory ApiClient
  imports RunnerSpec ServiceSpec
begin

text \<open>
  The two sides together: \<open>AgentApiClient\<close> (\<open>apps/node-agent/src/api-client.ts\<close>) calls the
  endpoints of the control plane.  The outside of the agent is then the control plane's tables and
  the rest of the world \<open>'y\<close>: Xray, the helper, the clock and the network, which may lose a
  request or its answer.
\<close>

section \<open>Requests\<close>

record ApiClientOptions =
  ac_token :: string
  ac_agentId :: string
  ac_nodeId :: string

datatype transport = Delivered | Request_lost | Answer_lost

text \<open>
  A link: the client's options and what the world decides at the time of a call, namely the
  platform the control plane runs on, its database's faults, the network and the peer address the
  control plane sees.  \<open>lk_sha256json\<close> is the digest of a payload, the same at all times,
  \<open>lk_isDate\<close> is the validator of dates, \<open>lk_errorText\<close> the text of an error
  and \<open>lk_version\<close> the agent's build.
\<close>

record 'y link =
  lk_options :: ApiClientOptions
  lk_platform :: "'y \<Rightarrow> platform"
  lk_faults :: "'y \<Rightarrow> db_faults"
  lk_transport :: "'y \<Rightarrow> transport"
  lk_ip :: "'y \<Rightarrow> string option"
  lk_sha256json :: "json \<Rightarrow> string"
  lk_isDate :: "string \<Rightarrow> bool"
  lk_errorText :: "agent_error \<Rightarrow> string"
  lk_version :: string

definition link_platform :: "'y link \<Rightarrow> 'y \<Rightarrow> platform" where
  "link_platform lk y = (lk_platform lk y)\<lparr>pf_sha256json := lk_sha256json lk\<rparr>"

lemma link_platform_sha [simp]: "pf_sha256json (link_platform lk y) = lk_sha256json lk"
  by (simp add: link_platform_def)

definition request_headers :: "'y link \<Rightarrow> 'y \<Rightarrow> AgentAuthenticatedRequest" where
  "request_headers lk y = \<lparr>rq_authorization = Some (''Bearer '' @ ac_token (lk_options lk)),
     rq_agentId = Some (ac_agentId (lk_options lk)), rq_nodeId = Some (ac_nodeId (lk_options lk)), rq_ip = lk_ip lk y\<rparr>"

text \<open>
  \<open>request\<close>: a refused request and a lost one throw alike; when the answer is lost the control
  plane has acted and the agent does not know.
\<close>

definition request ::
  "'y link \<Rightarrow> (platform \<Rightarrow> AgentAuthenticatedRequest \<Rightarrow> (control_plane, 'a) tx) \<Rightarrow> (control_plane \<times> 'y, 'a) act" where
  "request lk endpoint x = (case x of (db, y) \<Rightarrow>
     if lk_transport lk y = Request_lost then (Inl (External ''timeout''), x)
     else case endpoint (link_platform lk y) (request_headers lk y) db of
       Inl e \<Rightarrow> (Inl (External ''HTTP''), x)
     | Inr (a, db') \<Rightarrow> (if lk_transport lk y = Answer_lost then Inl (External ''timeout'') else Inr a, (db', y)))"

section \<open>Calls\<close>

definition client_getConfig :: "'y link \<Rightarrow> (control_plane \<times> 'y, AgentConfigSnapshot) act" where
  "client_getConfig lk = request lk get_config"

definition client_whoami :: "'y link \<Rightarrow> (control_plane \<times> 'y, string option) act" where
  "client_whoami lk = abind (request lk get_whoami) (\<lambda>ip. aret (Some ip))"

definition client_heartbeat :: "'y link \<Rightarrow> AgentHeartbeat \<Rightarrow> (control_plane \<times> 'y, HeartbeatResponse) act" where
  "client_heartbeat lk beat =
     abind (request lk (\<lambda>pf rq. post_heartbeat pf rq \<lparr>hd_bootId = hb_bootId beat, hd_version = lk_version lk,
       hd_configRevision = hb_configRevision beat, hd_queueDepth = hb_queueDepth beat,
       hd_xrayStatus = (if hb_xrayHealthy beat then ''healthy'' else ''offline'')\<rparr>)) (\<lambda>answer.
     aret \<lparr>hbr_configRevision = hr_configRevision answer, hbr_ackThrough = hr_ackThrough answer\<rparr>)"

definition client_uploadBatch :: "'y link \<Rightarrow> UsageBatch \<Rightarrow> (control_plane \<times> 'y, UsageBatchAck) act" where
  "client_uploadBatch lk batch x =
     abind (request lk (\<lambda>pf rq. post_usageBatches pf (lk_isDate lk) (lk_faults lk (snd x)) rq batch)) (\<lambda>answer.
     aret \<lparr>ack_accepted = au_accepted answer, ack_duplicate = au_duplicate answer, ack_ackThrough = au_ackThrough answer\<rparr>) x"

definition client_reportCommandResult :: "'y link \<Rightarrow> CommandResult \<Rightarrow> (control_plane \<times> 'y, unit) act" where
  "client_reportCommandResult lk result =
     abind (request lk (\<lambda>pf rq. post_commandResult pf rq (res_commandId result)
       \<lparr>cr_status = res_status result, cr_output = res_result result,
        cr_error = map_option (lk_errorText lk) (res_error result)\<rparr>)) (\<lambda>_. aret ())"

section \<open>The connected agent\<close>

text \<open>A call to the rest of the world.\<close>

definition beyond :: "('y, 'a) act \<Rightarrow> (control_plane \<times> 'y, 'a) act" where
  "beyond m x = (case m (snd x) of (r, y) \<Rightarrow> (r, (fst x, y)))"

definition connect :: "'y link \<Rightarrow> 'y agent_env \<Rightarrow> (control_plane \<times> 'y) agent_env" where
  "connect lk env =
     \<lparr>env_inboundTag = env_inboundTag env, env_publicHost = env_publicHost env, env_hasApplier = env_hasApplier env,
      env_restartToleranceMs = env_restartToleranceMs env, env_now = (\<lambda>x. env_now env (snd x)),
      env_nowMs = (\<lambda>x. env_nowMs env (snd x)), env_sleep = (\<lambda>ms x. (fst x, env_sleep env ms (snd x))),
      env_randomUUID = (\<lambda>x. case env_randomUUID env (snd x) of (u, y) \<Rightarrow> (u, (fst x, y))),
      env_sha256hex = env_sha256hex env, sdk_getSysStats = beyond (sdk_getSysStats env),
      sdk_getInboundUsers = (\<lambda>tag. beyond (sdk_getInboundUsers env tag)),
      sdk_getAllUsersStats = beyond (sdk_getAllUsersStats env),
      sdk_addVlessUser = (\<lambda>tag email uuid flow. beyond (sdk_addVlessUser env tag email uuid flow)),
      sdk_removeUser = (\<lambda>tag email. beyond (sdk_removeUser env tag email)),
      env_helperInstalled = (\<lambda>x. env_helperInstalled env (snd x)),
      env_writeRequest = (\<lambda>payload. beyond (env_writeRequest env payload)),
      env_readResult = (\<lambda>x. env_readResult env (snd x)), api_getConfig = client_getConfig lk,
      api_whoami = client_whoami lk, api_uploadBatch = client_uploadBatch lk, api_heartbeat = client_heartbeat lk,
      api_reportCommandResult = client_reportCommandResult lk\<rparr>"

lemma connect_sel [simp]:
  "env_inboundTag (connect lk env) = env_inboundTag env"
  "api_getConfig (connect lk env) = client_getConfig lk" "api_whoami (connect lk env) = client_whoami lk"
  "api_uploadBatch (connect lk env) = client_uploadBatch lk" "api_heartbeat (connect lk env) = client_heartbeat lk"
  "api_reportCommandResult (connect lk env) = client_reportCommandResult lk"
  "sdk_getSysStats (connect lk env) = beyond (sdk_getSysStats env)"
  "sdk_getInboundUsers (connect lk env) tag = beyond (sdk_getInboundUsers env tag)"
  "sdk_getAllUsersStats (connect lk env) = beyond (sdk_getAllUsersStats env)"
  "sdk_addVlessUser (connect lk env) tag email uuid flow = beyond (sdk_addVlessUser env tag email uuid flow)"
  "sdk_removeUser (connect lk env) tag email = beyond (sdk_removeUser env tag email)"
  "env_writeRequest (connect lk env) payload = beyond (env_writeRequest env payload)"
  "env_sleep (connect lk env) ms x = (fst x, env_sleep env ms (snd x))"
  "env_randomUUID (connect lk env) x = (case env_randomUUID env (snd x) of (u, y) \<Rightarrow> (u, (fst x, y)))"
  by (simp_all add: connect_def)

lemma connect_listing: "unique_listing env \<Longrightarrow> unique_listing (connect lk env)"
  by (auto simp: unique_listing_def beyond_def split: prod.splits)

section \<open>What a call does to the tables\<close>

lemma request_effect:
  assumes "request lk endpoint (db, y) = (r, x')"
  shows "(x' = (db, y) \<and> (\<exists>e. r = Inl e))
    \<or> (\<exists>a db'. endpoint (link_platform lk y) (request_headers lk y) db = Inr (a, db') \<and> x' = (db', y)
         \<and> (\<forall>a'. r = Inr a' \<longrightarrow> a' = a))"
  using assms by (auto simp: request_def split: if_splits sum.splits prod.splits)

text \<open>A relation on the tables that every endpoint respects is respected by the call.\<close>

lemma request_moves:
  assumes "\<And>pf rq db a db'. endpoint pf rq db = Inr (a, db') \<Longrightarrow> R db db'" and "\<And>db. R db db"
  shows "R (fst x) (fst (snd (request lk endpoint x)))"
proof -
  obtain db y r x' where x: "x = (db, y)" "request lk endpoint x = (r, x')" by (metis surj_pair)
  from request_effect [OF x(2) [unfolded x(1)]] show ?thesis using assms x by auto
qed

lemma beyond_tables [simp]: "fst (snd (beyond m x)) = fst x"
  by (simp add: beyond_def split: prod.splits)

lemma then_ret [simp]: "snd (abind m (\<lambda>a. aret (f a)) x) = snd (m x)"
  by (simp add: abind_def aret_def split: prod.splits sum.splits)

lemma connect_moves:
  assumes "\<And>db. R db db" and "\<And>pf rq i body db a db'. post_commandResult pf rq i body db = Inr (a, db') \<Longrightarrow> R db db'"
  shows "moves (connect lk env) (\<lambda>x x'. R (fst x) (fst x'))"
proof -
  have "R (fst x) (fst (snd (client_reportCommandResult lk result x)))" for result x
    unfolding client_reportCommandResult_def then_ret by (rule request_moves) (use assms in blast)+
  moreover have "R (fst x) (fst (snd (client_getConfig lk x)))" for x
    unfolding client_getConfig_def
    by (rule request_moves) (auto simp: get_config_def guarded_Inr tx_simps assms(1))
  moreover have "R (fst x) (fst (snd (client_whoami lk x)))" for x
    unfolding client_whoami_def then_ret
    by (rule request_moves) (auto simp: get_whoami_def tx_simps assms(1))
  ultimately show ?thesis using assms(1) by (auto simp: moves_def split: prod.splits)
qed

end
