(* ===== verification/Delivery.thy ===== *)
theory Delivery
  imports ApiClient
begin

text \<open>
  No usage is lost between the agent and the control plane: a batch the agent has recorded is
  pending in its store until the control plane has it under the same number with the same
  content, in every interleaving of the agent's loop with the rest of the service, whatever
  requests, answers and transactions are lost.
\<close>

section \<open>Where a batch is\<close>

definition row_key :: "string \<Rightarrow> BatchRow \<Rightarrow> string \<times> string \<times> int" where
  "row_key node r = (node, br_boot_id r, int (dec_val (br_sequence r)))"

text \<open>
  The control plane's row for a batch: it carries the digest of the batch's content, and the
  content itself until it is accounted; afterwards the raw payload may be reclaimed.
\<close>

definition holds :: "(json \<Rightarrow> string) \<Rightarrow> NodeUsageBatch \<Rightarrow> BatchRow \<Rightarrow> bool" where
  "holds H b r \<longleftrightarrow> nb_payloadHash b = H (canonicalBatchPayload (br_payload r))
     \<and> (nb_payload b = br_payload r \<or> nb_accountedAt b \<noteq> None)"

definition kept_at :: "(json \<Rightarrow> string) \<Rightarrow> string \<Rightarrow> control_plane \<Rightarrow> BatchRow \<Rightarrow> bool" where
  "kept_at H node db r \<longleftrightarrow> (\<exists>b \<in> set (usage_batches db). batch_key b = row_key node r \<and> holds H b r)"

definition safe :: "(json \<Rightarrow> string) \<Rightarrow> string \<Rightarrow> agent_store \<Rightarrow> control_plane \<Rightarrow> BatchRow \<Rightarrow> bool" where
  "safe H node st db r \<longleftrightarrow> r \<in> set (st_batches st) \<or> kept_at H node db r"

text \<open>A pending row describes its payload, and numbers start at one.\<close>

definition describes :: "BatchRow \<Rightarrow> bool" where
  "describes r \<longleftrightarrow> ub_bootId (br_payload r) = br_boot_id r \<and> ub_sequence (br_payload r) = br_sequence r
     \<and> decimal_pattern (br_sequence r) \<and> 1 \<le> dec_val (br_sequence r)"

text \<open>
  The two sides agree: what the control plane has under a pending number is the pending batch,
  and of the running boot it holds only numbers that were given out.
\<close>

definition agreed :: "(json \<Rightarrow> string) \<Rightarrow> string \<Rightarrow> agent_store \<Rightarrow> control_plane \<Rightarrow> bool" where
  "agreed H node st db \<longleftrightarrow>
     (\<forall>r \<in> set (st_batches st). \<forall>b \<in> set (usage_batches db). batch_key b = row_key node r \<longrightarrow> holds H b r)
     \<and> (\<forall>b \<in> set (usage_batches db). nb_nodeId b = node \<and> nb_bootId b = st_bootId st \<longrightarrow>
          nb_sequence b < int (dec_val (next_sequence st)))"

definition in_flight :: "(json \<Rightarrow> string) \<Rightarrow> string \<Rightarrow> BatchRow set \<Rightarrow> agent_store \<Rightarrow> control_plane \<times> 'y \<Rightarrow> bool" where
  "in_flight H node S st x \<longleftrightarrow> store_wf st \<and> service_wf (fst x) \<and> 1 \<le> dec_val (next_sequence st)
     \<and> (\<forall>r \<in> set (st_batches st). describes r) \<and> agreed H node st (fst x) \<and> (\<forall>r \<in> S. safe H node st (fst x) r)"

section \<open>The tables move\<close>

text \<open>Rows are kept, and none of the node's is new.\<close>

definition table_moves :: "string \<Rightarrow> control_plane \<Rightarrow> control_plane \<Rightarrow> bool" where
  "table_moves node db db' \<longleftrightarrow> (service_wf db \<longrightarrow> service_wf db'
     \<and> (\<forall>b \<in> set (usage_batches db). \<exists>b' \<in> set (usage_batches db'). same_row b b')
     \<and> (\<forall>b' \<in> set (usage_batches db'). nb_nodeId b' = node \<longrightarrow> (\<exists>b \<in> set (usage_batches db). same_row b b')))"

lemma table_moves_refl [simp]: "table_moves node db db"
  unfolding table_moves_def by (meson same_row_refl)

lemma holds_mono: "holds H b r \<Longrightarrow> same_row b b' \<Longrightarrow> holds H b' r"
  by (auto simp: holds_def same_row_alt)

lemma kept_mono:
  assumes "\<And>b. b \<in> set (usage_batches db) \<Longrightarrow> \<exists>b' \<in> set (usage_batches db'). same_row b b'" and "kept_at H node db r"
  shows "kept_at H node db' r"
  using assms unfolding kept_at_def by (metis same_row_sel(2) holds_mono)

lemma key_parts: "batch_key b = (n, boot, k) \<longleftrightarrow> nb_nodeId b = n \<and> nb_bootId b = boot \<and> nb_sequence b = k"
  by (simp add: batch_key_def)

lemma same_row_key: "same_row b b' \<Longrightarrow> nb_nodeId b' = nb_nodeId b \<and> nb_bootId b' = nb_bootId b \<and> nb_sequence b' = nb_sequence b"
  using same_row_sel(2) by (simp add: batch_key_def)

lemma in_flight_moves:
  assumes "table_moves node (fst x) (fst x')" and "in_flight H node S st x"
  shows "in_flight H node S st x'"
proof -
  have kept: "safe H node st (fst x') r" if "safe H node st (fst x) r" for r
    using that assms by (auto simp: safe_def table_moves_def in_flight_def intro: kept_mono)
  have origin: "\<exists>b \<in> set (usage_batches (fst x)). same_row b b'" if "b' \<in> set (usage_batches (fst x'))" "nb_nodeId b' = node" for b'
    using that assms by (simp add: table_moves_def in_flight_def)
  have ag: "agreed H node st (fst x)" using assms(2) by (simp add: in_flight_def)
  have "holds H b' r"
    if r: "r \<in> set (st_batches st)" and b': "b' \<in> set (usage_batches (fst x'))" "batch_key b' = row_key node r" for r b'
  proof -
    from b'(2) have "nb_nodeId b' = node" by (simp add: row_key_def key_parts)
    with origin b'(1) obtain b where b: "b \<in> set (usage_batches (fst x))" "same_row b b'" by blast
    with b'(2) same_row_sel(2) [OF b(2)] r ag show ?thesis by (auto simp: agreed_def intro: holds_mono)
  qed
  moreover have "nb_sequence b' < int (dec_val (next_sequence st))"
    if b': "b' \<in> set (usage_batches (fst x'))" "nb_nodeId b' = node" "nb_bootId b' = st_bootId st" for b'
  proof -
    from origin b' obtain b where b: "b \<in> set (usage_batches (fst x))" "same_row b b'" by blast
    with b' same_row_key [OF b(2)] ag show ?thesis by (simp add: agreed_def)
  qed
  ultimately have "agreed H node st (fst x')" by (simp add: agreed_def)
  with assms kept show ?thesis by (simp add: in_flight_def table_moves_def)
qed

section \<open>Store operations\<close>

lemma step_rows:
  assumes "store_step st st'" and "store_wf st" and "r \<in> set (st_batches st')"
  shows "r \<in> set (st_batches st) \<or> (br_boot_id r = st_bootId st \<and> br_sequence r = next_sequence st
    \<and> ub_bootId (br_payload r) = st_bootId st \<and> ub_sequence (br_payload r) = next_sequence st)"
  using assms
proof (induction rule: store_step.induct)
  case (sample cs t online st res st')
  from sample(2) [unfolded recordSample_eq [OF sample(3,1)]] sample(4) show ?case
    by (auto simp: push_batch_def sample_batch_def split: if_splits)
next
  case (ack boot n st count st')
  then show ?case using ackThrough_eq [OF ack(2) ackThrough_Inr [OF ack(1)], of boot] by auto
next
  case (snapshot now snap st applied st')
  then show ?case using batches_snapshot [OF snapshot(1)] by simp
next
  case (restore now users st st')
  then show ?case using batches_restore [OF restore(1)] by simp
next
  case (upsert now user st st')
  then show ?case using batches_upsert [OF upsert(1)] by simp
qed (simp_all add: batches_ops clearInboundState_def)

lemma in_flight_step:
  assumes step: "store_step st st'" and grow: "set (st_batches st) \<subseteq> set (st_batches st')" and inv: "in_flight H node S st x"
  shows "in_flight H node S st' x"
proof -
  from inv have wf: "store_wf st" and one: "1 \<le> dec_val (next_sequence st)" and ag: "agreed H node st (fst x)"
    and desc: "\<forall>r \<in> set (st_batches st). describes r" by (auto simp: in_flight_def)
  have mono: "seq_mono st st'" by (rule store_step_seq_mono [OF step wf])
  note rows = step_rows [OF step wf]
  have dec: "decimal_pattern (next_sequence st)" using wf by (simp add: store_wf_def batches_wf_def)
  have "describes r" if "r \<in> set (st_batches st')" for r
    using rows [OF that] desc one dec by (auto simp: describes_def)
  moreover have "agreed H node st' (fst x)"
    unfolding agreed_def
  proof (intro conjI ballI impI)
    fix r b assume r: "r \<in> set (st_batches st')" and b: "b \<in> set (usage_batches (fst x))" "batch_key b = row_key node r"
    from rows [OF r] show "holds H b r"
    proof
      assume "r \<in> set (st_batches st)"
      then show ?thesis using ag b by (simp add: agreed_def)
    next
      assume "br_boot_id r = st_bootId st \<and> br_sequence r = next_sequence st
        \<and> ub_bootId (br_payload r) = st_bootId st \<and> ub_sequence (br_payload r) = next_sequence st"
      with b ag have False by (force simp: agreed_def row_key_def key_parts)
      then show ?thesis ..
    qed
  next
    fix b assume "b \<in> set (usage_batches (fst x))" "nb_nodeId b = node \<and> nb_bootId b = st_bootId st'"
    then show "nb_sequence b < int (dec_val (next_sequence st'))"
      using ag mono by (force simp: agreed_def seq_mono_def)
  qed
  moreover have "\<forall>r \<in> S. safe H node st' (fst x) r" using inv grow by (auto simp: in_flight_def safe_def)
  ultimately show ?thesis
    using inv store_step_wf [OF step wf] mono one by (auto simp: in_flight_def seq_mono_def)
qed

section \<open>Acknowledgements\<close>

lemma ack_forgets_stored:
  assumes inv: "in_flight H node S st x" and A: "0 \<le> A" "\<forall>k. 0 < k \<and> k \<le> A \<longrightarrow> stored (fst x) a node boot k"
    and ack: "ackThrough boot (bigint_toString A) st = Inr (n, st')"
  shows "in_flight H node S st' x" "safe H node st (fst x) r \<Longrightarrow> safe H node st' (fst x) r"
proof -
  from inv have wf: "store_wf st" and ag: "agreed H node st (fst x)" and desc: "\<forall>r \<in> set (st_batches st). describes r"
    by (auto simp: in_flight_def)
  have shown: "bigint_toString A = show_nat (nat A)" using A(1) by (rule bigint_toString_nonneg)
  have st': "st' = st\<lparr>st_batches := tdelete (acked boot (nat A)) (st_batches st)\<rparr>"
    using ackThrough_eq [OF wf ackThrough_Inr [OF ack], of boot] ack by (simp add: shown)
  have safe: "safe H node st' (fst x) r" if "safe H node st (fst x) r" for r
  proof (cases "r \<in> set (st_batches st) \<and> acked boot (nat A) r")
    case True
    then have k: "br_boot_id r = boot" "int (dec_val (br_sequence r)) \<le> A" "0 < int (dec_val (br_sequence r))"
      using desc A(1) by (auto simp: acked_def describes_def)
    from A(2) k(2,3) have "stored (fst x) a node boot (int (dec_val (br_sequence r)))" by blast
    then obtain b where b: "b \<in> set (usage_batches (fst x))" "batch_key b = row_key node r"
      using k(1) by (auto simp: stored_def row_key_def)
    with ag True have "kept_at H node (fst x) r" by (auto simp: agreed_def kept_at_def)
    then show ?thesis by (simp add: safe_def)
  next
    case False
    with that show ?thesis by (auto simp: safe_def st')
  qed
  then show "safe H node st (fst x) r \<Longrightarrow> safe H node st' (fst x) r" .
  have "store_wf st'" by (rule ackThrough_wf [OF wf ack])
  moreover have "next_sequence st' = next_sequence st" "st_bootId st' = st_bootId st"
    by (simp_all add: st' next_sequence_def getMeta_def)
  ultimately show "in_flight H node S st' x"
    using inv safe by (auto simp: in_flight_def agreed_def st')
qed

section \<open>Uploads and heartbeats\<close>

lemma pending_unique:
  assumes "store_wf st" and "r \<in> set (st_batches st)" and "r' \<in> set (st_batches st)" and "row_key node r' = row_key node r"
  shows "r' = r"
proof -
  have "decimal_pattern (br_sequence r)" "decimal_pattern (br_sequence r')"
    using assms(1-3) by (auto simp: store_wf_def batches_wf_def list_all_iff)
  with assms(4) have "(br_boot_id r', br_sequence r') = (br_boot_id r, br_sequence r)"
    by (auto simp: row_key_def dest: dec_val_inject)
  moreover have "distinct (map (\<lambda>b. (br_boot_id b, br_sequence b)) (st_batches st))"
    using assms(1) by (simp add: store_wf_def batches_wf_def)
  ultimately show ?thesis
    using distinct_map_eq [of "\<lambda>b. (br_boot_id b, br_sequence b)" "st_batches st" r' r] assms(2,3) by simp
qed

lemma upload_in_flight:
  assumes inv: "in_flight H node S st (db, y)" and r: "describes r" "br_payload r = batch" "safe H node st db r"
    and ep: "post_usageBatches pf isDate fault rq batch db = Inr (ack, db')" and rq: "rq_nodeId rq = Some node"
    and sha: "pf_sha256json pf = H"
  shows "in_flight H node S st (db', y)" and "safe H node st db r' \<Longrightarrow> safe H node st db' r'"
    and "\<exists>A a. au_ackThrough ack = bigint_toString A \<and> 0 \<le> A \<and> (\<forall>k. 0 < k \<and> k \<le> A \<longrightarrow> stored db' a node (ub_bootId batch) k)"
proof -
  from inv have wf: "store_wf st" and swf: "service_wf db" and ag: "agreed H node st db" by (auto simp: in_flight_def)
  from ep obtain a where a: "canActivate pf db rq = Inr a" and up: "usageBatches pf isDate fault a batch db = Inr (ack, db')"
    by (auto simp: post_usageBatches_def guarded_Inr)
  have node: "na_nodeId a = node" using admitted(3) [OF a] rq by simp
  from ack_upload(2) [OF up _ _ admitted(1) [OF a]] swf node
  show "\<exists>A a. au_ackThrough ack = bigint_toString A \<and> 0 \<le> A \<and> (\<forall>k. 0 < k \<and> k \<le> A \<longrightarrow> stored db' a node (ub_bootId batch) k)"
    by (auto simp: service_wf_def)
  from up obtain new n where vb: "valid_batch isDate batch" "js_BigInt (ub_sequence batch) = Some n"
    and new: "\<forall>b. new = Some b \<longrightarrow> (\<exists>u. b = new_row pf a batch n u) \<and> batch_key b \<notin> batch_key ` set (usage_batches db)
       \<and> nb_id b \<notin> nb_id ` set (usage_batches db)"
    and rows: "same_rows (stored_rows db new) (usage_batches db')" by (rule upload_effect) blast
  have n: "n = int (dec_val (br_sequence r))" using valid_batch_sequence(1) [OF vb(1)] vb(2) r(1,2) by (simp add: describes_def)
  have kept: "\<exists>b' \<in> set (usage_batches db'). same_row b b'" if "b \<in> set (usage_batches db)" for b
    by (rule same_rows_member [OF rows]) (use that in \<open>simp add: stored_rows_def\<close>)
  then have "kept_at H node db' x" if "kept_at H node db x" for x using kept_mono [OF _ that] by blast
  then have safe: "safe H node st db' x" if "safe H node st db x" for x using that by (auto simp: safe_def)
  then show "safe H node st db r' \<Longrightarrow> safe H node st db' r'" .
  have origin: "(\<exists>b \<in> set (usage_batches db). same_row b b') \<or>
      (batch_key b' = row_key node r \<and> holds H b' r \<and> row_key node r \<notin> batch_key ` set (usage_batches db))"
    if "b' \<in> set (usage_batches db')" for b'
  proof -
    from same_rows_member' [OF rows that] obtain b where b: "b \<in> set (stored_rows db new)" "same_row b b'" by blast
    show ?thesis
    proof (cases "b \<in> set (usage_batches db)")
      case True
      with b(2) show ?thesis by blast
    next
      case False
      with b(1) have "new = Some b" by (auto simp: stored_rows_def split: option.splits)
      with new obtain u where u: "b = new_row pf a batch n u" "batch_key b \<notin> batch_key ` set (usage_batches db)" by blast
      have "batch_key b = row_key node r" "holds H b r"
        using u(1) n node r(1,2) sha by (auto simp: new_row_def batch_key_def row_key_def describes_def holds_def)
      with u(2) same_row_sel(2) [OF b(2)] holds_mono [OF _ b(2)] show ?thesis by simp
    qed
  qed
  have pending: "r \<in> set (st_batches st)" if "row_key node r \<notin> batch_key ` set (usage_batches db)"
    using r(3) that by (force simp: safe_def kept_at_def)
  have "agreed H node st db'"
    unfolding agreed_def
  proof (intro conjI ballI impI)
    fix r' b' assume r': "r' \<in> set (st_batches st)" and b': "b' \<in> set (usage_batches db')" "batch_key b' = row_key node r'"
    from origin [OF b'(1)] show "holds H b' r'"
    proof
      assume "\<exists>b \<in> set (usage_batches db). same_row b b'"
      then obtain b where b: "b \<in> set (usage_batches db)" "same_row b b'" by blast
      with b'(2) r' ag same_row_sel(2) [OF b(2)] show ?thesis by (auto simp: agreed_def intro: holds_mono)
    next
      assume "batch_key b' = row_key node r \<and> holds H b' r \<and> row_key node r \<notin> batch_key ` set (usage_batches db)"
      with pending_unique [OF wf pending r', of node] b'(2) r(2) show ?thesis by simp
    qed
  next
    fix b' assume b': "b' \<in> set (usage_batches db')" "nb_nodeId b' = node \<and> nb_bootId b' = st_bootId st"
    from origin [OF b'(1)] show "nb_sequence b' < int (dec_val (next_sequence st))"
    proof
      assume "\<exists>b \<in> set (usage_batches db). same_row b b'"
      then obtain b where b: "b \<in> set (usage_batches db)" "same_row b b'" by blast
      with b'(2) ag same_row_key [OF b(2)] show ?thesis by (simp add: agreed_def)
    next
      assume new_b: "batch_key b' = row_key node r \<and> holds H b' r \<and> row_key node r \<notin> batch_key ` set (usage_batches db)"
      then have "r \<in> set (st_batches st)" using pending by simp
      then have "br_boot_id r = st_bootId st \<longrightarrow> dec_val (br_sequence r) < dec_val (next_sequence st)"
        using wf by (auto simp: store_wf_def batches_wf_def list_all_iff)
      with new_b b'(2) show ?thesis by (simp add: row_key_def key_parts)
    qed
  qed
  with inv tkeepsD [OF service_upload swf ep] safe show "in_flight H node S st (db', y)" by (auto simp: in_flight_def)
qed

lemma heartbeat_in_flight:
  assumes inv: "in_flight H node S st (db, y)" and ep: "post_heartbeat pf rq beat db = Inr (r, db')" and rq: "rq_nodeId rq = Some node"
  shows "in_flight H node S st (db', y)"
    and "\<exists>A a. hr_ackThrough r = bigint_toString A \<and> 0 \<le> A \<and> (\<forall>k. 0 < k \<and> k \<le> A \<longrightarrow> stored db' a node (hd_bootId beat) k)"
proof -
  from inv have swf: "service_wf db" by (simp add: in_flight_def)
  from ep obtain a where a: "canActivate pf db rq = Inr a" and hb: "heartbeat pf a beat db = Inr (r, db')"
    by (auto simp: post_heartbeat_def guarded_Inr tx_simps)
  have node: "na_nodeId a = node" using admitted(3) [OF a] rq by simp
  from ack_heartbeat(2) [OF hb _ _ admitted(1) [OF a]] swf node
  show "\<exists>A a. hr_ackThrough r = bigint_toString A \<and> 0 \<le> A \<and> (\<forall>k. 0 < k \<and> k \<le> A \<longrightarrow> stored db' a node (hd_bootId beat) k)"
    by (auto simp: service_wf_def)
  have "usage_batches db' = usage_batches db" using hb by (rule heartbeat_effect)
  with tkeepsD [OF service_heartbeat swf ep] have "table_moves node db db'"
    unfolding table_moves_def by (metis same_row_refl)
  with in_flight_moves [OF _ inv, of "(db', y)"] show "in_flight H node S st (db', y)" by simp
qed

section \<open>The agent's loop\<close>

lemma moves_mono: "moves env R \<Longrightarrow> (\<And>x x'. R x x' \<Longrightarrow> R' x x') \<Longrightarrow> moves env R'"
  unfolding moves_def by blast

lemma result_keeps_rows: "post_commandResult pf rq i body db = Inr (a, db') \<Longrightarrow> usage_batches db' = usage_batches db"
  by (rule tframeD [of usage_batches "post_commandResult pf rq i body"])
    (auto simp: post_commandResult_def guarded_def intro!: tframe_intros complete_frame)

lemma table_moves_same: "usage_batches db' = usage_batches db \<Longrightarrow> (service_wf db \<Longrightarrow> service_wf db') \<Longrightarrow> table_moves node db db'"
  unfolding table_moves_def by (metis same_row_refl)

lemma connected_moves: "moves (connect lk env) (\<lambda>x x'. table_moves node (fst x) (fst x'))"
  by (rule connect_moves) (auto intro!: table_moves_same dest: result_keeps_rows tkeepsD [OF service_result])

text \<open>A batch that may be uploaded: it is described by a row that is pending or already kept.\<close>

definition uploadable :: "(json \<Rightarrow> string) \<Rightarrow> string \<Rightarrow> UsageBatch \<Rightarrow> agent_store \<Rightarrow> control_plane \<times> 'y \<Rightarrow> bool" where
  "uploadable H node batch st x \<longleftrightarrow> (\<exists>r. describes r \<and> br_payload r = batch \<and> safe H node st (fst x) r)"

abbreviation link_node :: "'y link \<Rightarrow> string" where
  "link_node lk \<equiv> ac_nodeId (lk_options lk)"

lemma client_upload:
  assumes inv: "in_flight (lk_sha256json lk) (link_node lk) S st x" and fine: "uploadable (lk_sha256json lk) (link_node lk) batch st x"
    and call: "client_uploadBatch lk batch x = (r, x')"
  shows "in_flight (lk_sha256json lk) (link_node lk) S st x' \<and> (\<forall>b. uploadable (lk_sha256json lk) (link_node lk) b st x \<longrightarrow> uploadable (lk_sha256json lk) (link_node lk) b st x')
      \<and> (\<forall>ack k st'. r = Inr ack \<longrightarrow> ackThrough (ub_bootId batch) (ack_ackThrough ack) st = Inr (k, st') \<longrightarrow>
           in_flight (lk_sha256json lk) (link_node lk) S st' x' \<and> (\<forall>b. uploadable (lk_sha256json lk) (link_node lk) b st x \<longrightarrow> uploadable (lk_sha256json lk) (link_node lk) b st' x'))"
proof -
  obtain db y where x: "x = (db, y)" by (cases x)
  let ?endpoint = "\<lambda>pf rq. post_usageBatches pf (lk_isDate lk) (lk_faults lk y) rq batch"
  obtain q x1 where req: "request lk ?endpoint (db, y) = (q, x1)" by (cases "request lk ?endpoint (db, y)")
  have x1: "x' = x1" and r: "\<And>ack. r = Inr ack \<Longrightarrow> \<exists>answer. q = Inr answer \<and> ack_ackThrough ack = au_ackThrough answer"
    using call req by (auto simp: x client_uploadBatch_def abind_def aret_def split: sum.splits)
  from fine obtain row where row: "describes row" "br_payload row = batch" "safe (lk_sha256json lk) (link_node lk) st db row"
    by (auto simp: uploadable_def x)
  from request_effect [OF req] show ?thesis
  proof
    assume "x1 = (db, y) \<and> (\<exists>e. q = Inl e)"
    then show ?thesis using inv r x x1 by auto
  next
    assume "\<exists>a db'. ?endpoint (link_platform lk y) (request_headers lk y) db = Inr (a, db') \<and> x1 = (db', y) \<and> (\<forall>a'. q = Inr a' \<longrightarrow> a' = a)"
    then obtain a db' where ep: "?endpoint (link_platform lk y) (request_headers lk y) db = Inr (a, db')" and x': "x' = (db', y)"
      and a: "\<And>a'. q = Inr a' \<Longrightarrow> a' = a" using x1 by auto
    have rq: "rq_nodeId (request_headers lk y) = Some (link_node lk)" by (simp add: request_headers_def)
    note up = upload_in_flight [OF inv [unfolded x] row ep rq link_platform_sha]
    have one: "uploadable (lk_sha256json lk) (link_node lk) b st x'" if "uploadable (lk_sha256json lk) (link_node lk) b st x" for b
      using that up(2) by (auto simp: uploadable_def x x')
    moreover have "in_flight (lk_sha256json lk) (link_node lk) S st' x' \<and> (\<forall>b. uploadable (lk_sha256json lk) (link_node lk) b st x \<longrightarrow> uploadable (lk_sha256json lk) (link_node lk) b st' x')"
      if ack: "r = Inr ack" "ackThrough (ub_bootId batch) (ack_ackThrough ack) st = Inr (k, st')" for ack k st'
    proof -
      from r [OF ack(1)] a have "ack_ackThrough ack = au_ackThrough a" by auto
      with up(3) obtain A i where A: "ack_ackThrough ack = bigint_toString A" "0 \<le> A"
        "\<forall>k. 0 < k \<and> k \<le> A \<longrightarrow> stored (fst x') i (link_node lk) (ub_bootId batch) k" by (auto simp: x')
      note gone = ack_forgets_stored [OF up(1) [folded x'] A(2,3) ack(2) [unfolded A(1)]]
      have "uploadable (lk_sha256json lk) (link_node lk) b st' x'" if "uploadable (lk_sha256json lk) (link_node lk) b st x" for b
        using one [OF that] unfolding uploadable_def by (blast intro: gone(2))
      with gone(1) show ?thesis by blast
    qed
    ultimately show ?thesis using up(1) by (simp add: x')
  qed
qed

lemma client_beat:
  assumes inv: "in_flight (lk_sha256json lk) (link_node lk) S st x" and call: "client_heartbeat lk hb x = (r, x')"
  shows "in_flight (lk_sha256json lk) (link_node lk) S st x' \<and> (\<forall>resp k st'. r = Inr resp \<longrightarrow>
      ackThrough (hb_bootId hb) (hbr_ackThrough resp) st = Inr (k, st') \<longrightarrow> in_flight (lk_sha256json lk) (link_node lk) S st' x')"
proof -
  obtain db y where x: "x = (db, y)" by (cases x)
  let ?body = "\<lparr>hd_bootId = hb_bootId hb, hd_version = lk_version lk, hd_configRevision = hb_configRevision hb,
    hd_queueDepth = hb_queueDepth hb, hd_xrayStatus = (if hb_xrayHealthy hb then ''healthy'' else ''offline'')\<rparr>"
  let ?endpoint = "\<lambda>pf rq. post_heartbeat pf rq ?body"
  obtain q x1 where req: "request lk ?endpoint (db, y) = (q, x1)" by (cases "request lk ?endpoint (db, y)")
  have x1: "x' = x1" and r: "\<And>resp. r = Inr resp \<Longrightarrow> \<exists>answer. q = Inr answer \<and> hbr_ackThrough resp = hr_ackThrough answer"
    using call req by (auto simp: x client_heartbeat_def abind_def aret_def split: sum.splits)
  from request_effect [OF req] show ?thesis
  proof
    assume "x1 = (db, y) \<and> (\<exists>e. q = Inl e)"
    then show ?thesis using inv r x x1 by auto
  next
    assume "\<exists>a db'. ?endpoint (link_platform lk y) (request_headers lk y) db = Inr (a, db') \<and> x1 = (db', y) \<and> (\<forall>a'. q = Inr a' \<longrightarrow> a' = a)"
    then obtain a db' where ep: "?endpoint (link_platform lk y) (request_headers lk y) db = Inr (a, db')" and x': "x' = (db', y)"
      and a: "\<And>a'. q = Inr a' \<Longrightarrow> a' = a" using x1 by auto
    have rq: "rq_nodeId (request_headers lk y) = Some (link_node lk)" by (simp add: request_headers_def)
    note up = heartbeat_in_flight [OF inv [unfolded x] ep rq]
    have "in_flight (lk_sha256json lk) (link_node lk) S st' x'"
      if ack: "r = Inr resp" "ackThrough (hb_bootId hb) (hbr_ackThrough resp) st = Inr (k, st')" for resp k st'
    proof -
      from r [OF ack(1)] a have "hbr_ackThrough resp = hr_ackThrough a" by auto
      with up(2) obtain A i where A: "hbr_ackThrough resp = bigint_toString A" "0 \<le> A"
        "\<forall>k. 0 < k \<and> k \<le> A \<longrightarrow> stored (fst x') i (link_node lk) (hb_bootId hb) k" by (auto simp: x')
      show ?thesis by (rule ack_forgets_stored(1) [OF up(1) [folded x'] A(2,3) ack(2) [unfolded A(1)]])
    qed
    with up(1) show ?thesis by (simp add: x')
  qed
qed

interpretation delivery: runner_invariant "connect lk env" "in_flight (lk_sha256json lk) (link_node lk) S" "uploadable (lk_sha256json lk) (link_node lk)"
  for lk :: "'y link" and env :: "'y agent_env" and S
proof unfold_locales
  show "moves (connect lk env) (\<lambda>x x'. \<forall>st. in_flight (lk_sha256json lk) (link_node lk) S st x \<longrightarrow> in_flight (lk_sha256json lk) (link_node lk) S st x')"
    by (rule moves_mono [OF connected_moves]) (blast intro: in_flight_moves)
next
  fix st x batch n
  assume inv: "in_flight (lk_sha256json lk) (link_node lk) S st x" and "batch \<in> set (listPendingBatches n st)"
  then obtain r where "r \<in> set (st_batches st)" "br_payload r = batch" by (auto simp: listPendingBatches_def dest: in_set_takeD)
  with inv show "uploadable (lk_sha256json lk) (link_node lk) batch st x" by (auto simp: uploadable_def in_flight_def safe_def)
next
  fix st st' x
  assume "store_step st st'" "set (st_batches st) \<subseteq> set (st_batches st')" "in_flight (lk_sha256json lk) (link_node lk) S st x"
  then show "in_flight (lk_sha256json lk) (link_node lk) S st' x" by (rule in_flight_step)
next
  fix st x batch r x'
  assume "in_flight (lk_sha256json lk) (link_node lk) S st x" "uploadable (lk_sha256json lk) (link_node lk) batch st x" "api_uploadBatch (connect lk env) batch x = (r, x')"
  then show "in_flight (lk_sha256json lk) (link_node lk) S st x' \<and> (\<forall>b. uploadable (lk_sha256json lk) (link_node lk) b st x \<longrightarrow> uploadable (lk_sha256json lk) (link_node lk) b st x')
      \<and> (\<forall>ack k st'. r = Inr ack \<longrightarrow> ackThrough (ub_bootId batch) (ack_ackThrough ack) st = Inr (k, st') \<longrightarrow>
           in_flight (lk_sha256json lk) (link_node lk) S st' x' \<and> (\<forall>b. uploadable (lk_sha256json lk) (link_node lk) b st x \<longrightarrow> uploadable (lk_sha256json lk) (link_node lk) b st' x'))"
    unfolding connect_sel by (rule client_upload)
next
  fix st x hb r x'
  assume "in_flight (lk_sha256json lk) (link_node lk) S st x" "api_heartbeat (connect lk env) hb x = (r, x')"
  then show "in_flight (lk_sha256json lk) (link_node lk) S st x' \<and> (\<forall>resp k st'. r = Inr resp \<longrightarrow>
      ackThrough (hb_bootId hb) (hbr_ackThrough resp) st = Inr (k, st') \<longrightarrow> in_flight (lk_sha256json lk) (link_node lk) S st' x')"
    unfolding connect_sel by (rule client_beat)
qed

section \<open>The rest of the service\<close>

lemma tframe_at: "tframe view m \<Longrightarrow> tkeeps (\<lambda>s. view s = v) m"
  by (simp add: tframe_def)

lemma service_step_rows:
  assumes "service_step db db'" and "b \<in> set (usage_batches db)" and "service_wf db"
  shows "\<exists>b' \<in> set (usage_batches db'). same_row b b'"
  using assms
proof (induction rule: service_step.induct)
  case (upload pf isDate fault request batch db r2 db')
  then obtain a where "usageBatches pf isDate fault a batch db = Inr (r2, db')" by (auto simp: post_usageBatches_def guarded_Inr)
  then obtain new where rows: "same_rows (stored_rows db new) (usage_batches db')" by (rule upload_effect)
  show ?case by (rule same_rows_member [OF rows]) (use upload(2) in \<open>simp add: stored_rows_def\<close>)
next
  case (heartbeat pf request beat db r1 db')
  then obtain a where hb: "heartbeat pf a beat db = Inr (r1, db')" by (auto simp: post_heartbeat_def guarded_Inr tx_simps)
  have "usage_batches db' = usage_batches db" using hb by (rule heartbeat_effect)
  with heartbeat(2) show ?case by (auto intro: bexI [of _ b])
next
  case (result pf request commandId body db r3 db')
  with result_keeps_rows [OF result(1)] show ?case by (auto intro: bexI [of _ b])
next
  case (credential pf nodeId agentId db r4 db')
  have "tframe usage_batches (createCredential pf nodeId agentId)" by (rule credential_frame) simp_all
  from tframeD [OF this credential(1)] credential(2) show ?case by (auto intro: bexI [of _ b])
next
  case (revocation pf nodeId recordId db r5 db')
  have "tframe usage_batches (revokeCredential pf nodeId recordId)" by (rule credential_frame) simp_all
  from tframeD [OF this revocation(1)] revocation(2) show ?case by (auto intro: bexI [of _ b])
next
  case (node pf name panel db r6 db')
  have "tframe usage_batches (createAgentNode pf name panel)" by (rule create_node_frame) simp_all
  from tframeD [OF this node(1)] node(2) show ?case by (auto intro: bexI [of _ b])
next
  case (token pf fault nodeId db r7 db')
  have "tframe usage_batches (issueRegisterToken pf fault nodeId)" by (rule issue_token_frame) simp_all
  from tframeD [OF this token(1)] token(2) show ?case by (auto intro: bexI [of _ b])
next
  case (registration pf fault input db r8 db')
  have "tframe usage_batches (register_agent pf fault input)"
    unfolding tframe_def by (rule allI, rule register_keeps; rule tframe_at; intro tframe_intros; simp)
  from tframeD [OF this registration(1)] registration(2) show ?case by (auto intro: bexI [of _ b])
next
  case (order pf nodeId request' db r9 db')
  have "tframe usage_batches (queueCommand pf nodeId request')" by (rule queue_frame) simp_all
  from tframeD [OF this order(1)] order(2) show ?case by (auto intro: bexI [of _ b])
next
  case (sweep pf budget db e db')
  have "usage_batches (snd (retryDueCommands pf budget db)) = usage_batches db"
    by (rule sweep_keeps [where I = "\<lambda>s. usage_batches s = usage_batches db"])
      (use sweep_frames [where view = usage_batches] in \<open>simp_all add: tframe_def\<close>)
  with sweep show ?case by (auto intro: bexI [of _ b])
next
  case (reclaim scan blank fault' daysEnv now db n db')
  then have "rows_wf db" by (simp add: service_wf_def)
  from same_rows_member [OF reclaim_rows(1) [OF this reclaim(1,2)] reclaim(3)] show ?case .
next
  case (elsewhere db' db)
  then show ?case by (auto intro: bexI [of _ b])
qed

text \<open>
  What happens without the agent: the world changes, and the control plane takes any step in which
  nobody else uploads for the agent's node.
\<close>

definition alongside :: "string \<Rightarrow> control_plane \<times> 'y \<Rightarrow> control_plane \<times> 'y \<Rightarrow> bool" where
  "alongside node x x' \<longleftrightarrow> fst x' = fst x \<or> (service_step (fst x) (fst x') \<and>
     (\<forall>b' \<in> set (usage_batches (fst x')). nb_nodeId b' = node \<longrightarrow> (\<exists>b \<in> set (usage_batches (fst x)). same_row b b')))"

lemma alongside_moves: "alongside node x x' \<Longrightarrow> table_moves node (fst x) (fst x')"
  by (auto simp: alongside_def table_moves_def intro: service_step_wf service_step_rows) (meson same_row_refl)+

section \<open>Properties\<close>

text \<open>
  C2: a usage batch that the agent has recorded is never lost.  Whatever the agent does from then
  on (sampling, uploading, beating, executing commands, restarting its loop, in any order and with
  every call free to fail, its answer lost or the database's transaction retried), and whatever
  the service does meanwhile for others, the batch is pending in the agent's store or the control
  plane has it under the agent's node, its boot and its number with the digest of its content,
  and with the content itself until it is accounted.
\<close>

theorem recorded_batch_never_lost:
  assumes "runner_reachable (connect lk env) (alongside (link_node lk)) w w'" and "unique_listing env"
    and "in_flight (lk_sha256json lk) (link_node lk) {} (w_store w) (w_ext w)" and "r \<in> set (st_batches (w_store w))"
  shows "r \<in> set (st_batches (w_store w')) \<or>
    (\<exists>b \<in> set (usage_batches (fst (w_ext w'))). batch_key b = (link_node lk, br_boot_id r, int (dec_val (br_sequence r)))
       \<and> nb_payloadHash b = lk_sha256json lk (canonicalBatchPayload (br_payload r))
       \<and> (nb_payload b = br_payload r \<or> nb_accountedAt b \<noteq> None))"
proof -
  have start: "world_inv (in_flight (lk_sha256json lk) (link_node lk) {r}) w" using assms(3,4) by (simp add: world_inv_def in_flight_def safe_def)
  have quiet: "in_flight (lk_sha256json lk) (link_node lk) {r} st x'" if "alongside (link_node lk) x x'" "in_flight (lk_sha256json lk) (link_node lk) {r} st x" for st x x'
    by (rule in_flight_moves [OF alongside_moves [OF that(1)] that(2)])
  from delivery.runner_keeps [OF assms(1) connect_listing [OF assms(2)] start quiet]
  show ?thesis by (simp add: world_inv_def in_flight_def safe_def kept_at_def row_key_def holds_def)
qed

definition demo_link :: "demo link" where
  "demo_link = \<lparr>lk_options = \<lparr>ac_token = ''t1'', ac_agentId = ''agent-1'', ac_nodeId = ''n1''\<rparr>,
     lk_platform = (\<lambda>y. demo_platform), lk_faults = (\<lambda>y n. if n = 1 then Some (DbError ''P2034'' []) else None),
     lk_transport = (\<lambda>y. Delivered), lk_ip = (\<lambda>y. None), lk_sha256json = pf_sha256json demo_platform, lk_isDate = (\<lambda>s. True), lk_errorText = (\<lambda>e. []),
     lk_version = ''go-1''\<rparr>"

definition demo_row :: BatchRow where
  "demo_row = \<lparr>br_boot_id = ''boot-1'', br_sequence = ''1'', br_sampled_at = ''2026'', br_payload = demo_batch ''1'' ''60'' ''80''\<rparr>"

definition demo_pending :: "(control_plane \<times> demo) runner_world" where
  "demo_pending = newRunner (setMeta (sequenceKey ''boot-1'') ''2'' (ex_store\<lparr>st_batches := [demo_row]\<rparr>)) (demo_service, [])"

lemma demo_delivers:
  "case flushBatches (connect demo_link listing_env) demo_pending of
     (r, w) \<Rightarrow> st_batches (w_store w) = [] \<and> map nb_sequence (usage_batches (fst (w_ext w))) = [1]"
  by code_simp

lemma demo_in_flight: "in_flight (lk_sha256json demo_link) (link_node demo_link) {} (w_store demo_pending) (w_ext demo_pending)"
proof -
  have "store_wf (w_store demo_pending)" "1 \<le> dec_val (next_sequence (w_store demo_pending))" "describes demo_row" by code_simp+
  moreover have "st_batches (w_store demo_pending) = [demo_row]" "w_ext demo_pending = (demo_service, [])"
    "usage_batches demo_service = []"
    by (simp_all add: demo_pending_def newRunner_def demo_service_def demo_db_def)
  ultimately show ?thesis using demo_service_wf by (simp add: in_flight_def agreed_def)
qed

theorem recorded_batch_never_lost_witness:
  "\<exists>r w'. flushBatches (connect demo_link listing_env) demo_pending = (r, w') \<and> st_batches (w_store w') = []
     \<and> (\<exists>b \<in> set (usage_batches (fst (w_ext w'))). batch_key b = (''n1'', ''boot-1'', 1)
       \<and> (nb_payload b = demo_batch ''1'' ''60'' ''80'' \<or> nb_accountedAt b \<noteq> None))"
proof -
  obtain r w' where run: "flushBatches (connect demo_link listing_env) demo_pending = (r, w')" "st_batches (w_store w') = []"
    using demo_delivers by (auto split: prod.splits)
  have reach: "runner_reachable (connect demo_link listing_env) (alongside (link_node demo_link)) demo_pending w'"
    by (rule runner_reachable.more [OF runner_reachable.here runner_step.flushed [OF run(1)]])
  have "demo_row \<in> set (st_batches (w_store demo_pending))" by (simp add: demo_pending_def newRunner_def)
  from recorded_batch_never_lost [OF reach demo_unique demo_in_flight this] run show ?thesis
    by (auto simp: demo_link_def demo_row_def dec_val_eval)
qed

end
