(* ===== verification/JsonText.thy ===== *)
theory JsonText
  imports AgentTypes JsNumber
begin

text \<open>
  \<open>JSON.stringify\<close> and \<open>JSON.parse\<close> as the wire uses them.  A value is plain when its numbers are
  integers that a JavaScript number represents exactly and no object repeats a key; plain values
  are what is printed here.  The parser reads every JSON text whose characters and numbers the
  model represents; the others, an escape above \<open>\u00ff\<close> or an overflowing number, are errors.
\<close>

section \<open>Printing\<close>

definition hex_digit :: "nat \<Rightarrow> char" where
  "hex_digit n = (if n < 10 then char_of (48 + n) else char_of (87 + n))"

definition escape :: "char \<Rightarrow> string" where
  "escape c = (let n = (of_char c :: nat) in
     if c = CHR 0x22 then [CHR 0x5C, CHR 0x22]
     else if c = CHR 0x5C then [CHR 0x5C, CHR 0x5C]
     else if n = 8 then CHR 0x5C # ''b''
     else if n = 9 then CHR 0x5C # ''t''
     else if n = 10 then CHR 0x5C # ''n''
     else if n = 12 then CHR 0x5C # ''f''
     else if n = 13 then CHR 0x5C # ''r''
     else if n < 32 then CHR 0x5C # ''u00'' @ [hex_digit (n div 16), hex_digit (n mod 16)]
     else [c])"

definition quote_text :: "string \<Rightarrow> string" where
  "quote_text s = [CHR 0x22] @ concat (map escape s) @ [CHR 0x22]"

fun join :: "string \<Rightarrow> string list \<Rightarrow> string" where
  "join sep [] = []"
| "join sep [s] = s"
| "join sep (s # t # ts) = s @ sep @ join sep (t # ts)"

fun JSON_stringify :: "json \<Rightarrow> string" where
  "JSON_stringify JNull = ''null''"
| "JSON_stringify (JBool b) = (if b then ''true'' else ''false'')"
| "JSON_stringify (JNum q) = bigint_toString (floor q)"
| "JSON_stringify (JStr s) = quote_text s"
| "JSON_stringify (JArr vs) = ''['' @ join '','' (map JSON_stringify vs) @ '']''"
| "JSON_stringify (JObj ms) = ''{'' @ join '','' (map (\<lambda>(k, v). quote_text k @ '':'' @ JSON_stringify v) ms) @ ''}''"

fun plain :: "json \<Rightarrow> bool" where
  "plain (JNum q) = (is_integer q \<and> \<bar>q\<bar> < 2 ^ 53)"
| "plain (JArr vs) = (\<forall>v \<in> set vs. plain v)"
| "plain (JObj ms) = (distinct (map fst ms) \<and> (\<forall>(k, v) \<in> set ms. plain v))"
| "plain _ = True"

section \<open>Parsing\<close>

definition is_ws :: "char \<Rightarrow> bool" where
  "is_ws c \<longleftrightarrow> (let n = (of_char c :: nat) in n = 32 \<or> n = 9 \<or> n = 10 \<or> n = 13)"

definition skip_ws :: "string \<Rightarrow> string" where
  "skip_ws = dropWhile is_ws"

definition unescape :: "char \<Rightarrow> char option" where
  "unescape e =
     (if e = CHR 0x22 \<or> e = CHR 0x5C \<or> e = CHR ''/'' then Some e
      else if e = CHR ''b'' then Some (CHR 0x08)
      else if e = CHR ''t'' then Some (CHR 0x09)
      else if e = CHR ''n'' then Some (CHR 0x0A)
      else if e = CHR ''f'' then Some (CHR 0x0C)
      else if e = CHR ''r'' then Some (CHR 0x0D)
      else None)"

text \<open>What follows an opening quote, up to and without the closing one.\<close>

fun parse_chars :: "string \<Rightarrow> (string \<times> string) option" where
  "parse_chars [] = None"
| "parse_chars (c # s) =
     (if c = CHR 0x22 then Some ([], s)
      else if c = CHR 0x5C then (case s of
          [] \<Rightarrow> None
        | e # r \<Rightarrow>
            if e = CHR ''u'' then (case r of
                h1 # h2 # h3 # h4 # r' \<Rightarrow>
                  (case radix_val 16 0 [h1, h2, h3, h4] of
                     Some n \<Rightarrow> if n < 256 then map_option (apfst (Cons (char_of n))) (parse_chars r') else None
                   | None \<Rightarrow> None)
              | _ \<Rightarrow> None)
            else (case unescape e of None \<Rightarrow> None | Some d \<Rightarrow> map_option (apfst (Cons d)) (parse_chars r)))
      else if (of_char c :: nat) < 32 then None
      else map_option (apfst (Cons c)) (parse_chars s))"

text \<open>The number token: \<open>-?(0|[1-9]\d*)(\.\d+)?([eE][+-]?\d+)?\<close>.\<close>

definition number_char :: "char \<Rightarrow> bool" where
  "number_char c \<longleftrightarrow> is_digit c \<or> c \<in> {CHR ''-'', CHR ''+'', CHR ''.'', CHR ''e'', CHR ''E''}"

definition number_token :: "string \<Rightarrow> bool" where
  "number_token t = (case span_digits (if take 1 t = ''-'' then drop 1 t else t) of (whole, r) \<Rightarrow>
     decimal_pattern whole \<and> (case r of
         c # cs \<Rightarrow> if c = CHR ''.'' then (case span_digits cs of (f, e) \<Rightarrow> f \<noteq> [] \<and> exponent_part e \<noteq> None)
                   else exponent_part r \<noteq> None
       | [] \<Rightarrow> True))"

definition parse_number :: "string \<Rightarrow> (json \<times> string) option" where
  "parse_number s = (let t = takeWhile number_char s in
     if number_token t then (case js_Number t of Num q \<Rightarrow> Some (JNum q, dropWhile number_char s) | _ \<Rightarrow> None) else None)"

definition literal :: "string \<Rightarrow> json \<Rightarrow> string \<Rightarrow> (json \<times> string) option" where
  "literal word v s = (if take (length word) s = word then Some (v, drop (length word) s) else None)"

text \<open>The values, with a bound on the nesting; of a repeated key the last value counts.\<close>

fun parse_value :: "nat \<Rightarrow> string \<Rightarrow> (json \<times> string) option"
and parse_elements :: "nat \<Rightarrow> string \<Rightarrow> (json list \<times> string) option"
and parse_members :: "nat \<Rightarrow> string \<Rightarrow> json_object \<Rightarrow> (json_object \<times> string) option" where
  "parse_value 0 s = None"
| "parse_value (Suc n) s = (case skip_ws s of
       [] \<Rightarrow> None
     | c # r \<Rightarrow>
         if c = CHR 0x22 then map_option (apfst JStr) (parse_chars r)
         else if c = CHR ''{'' then
           (if take 1 (skip_ws r) = ''}'' then Some (JObj [], drop 1 (skip_ws r))
            else map_option (apfst JObj) (parse_members n r []))
         else if c = CHR ''['' then
           (if take 1 (skip_ws r) = '']'' then Some (JArr [], drop 1 (skip_ws r))
            else map_option (apfst JArr) (parse_elements n r))
         else if c = CHR ''t'' then literal ''true'' (JBool True) (c # r)
         else if c = CHR ''f'' then literal ''false'' (JBool False) (c # r)
         else if c = CHR ''n'' then literal ''null'' JNull (c # r)
         else parse_number (c # r))"
| "parse_elements 0 s = None"
| "parse_elements (Suc n) s = (case parse_value n s of
       None \<Rightarrow> None
     | Some (v, r) \<Rightarrow> (case skip_ws r of
           [] \<Rightarrow> None
         | c # r' \<Rightarrow> if c = CHR '','' then map_option (apfst (Cons v)) (parse_elements n r')
                     else if c = CHR '']'' then Some ([v], r') else None))"
| "parse_members 0 s acc = None"
| "parse_members (Suc n) s acc = (case skip_ws s of
       [] \<Rightarrow> None
     | q # r \<Rightarrow> if q \<noteq> CHR 0x22 then None else (case parse_chars r of
           None \<Rightarrow> None
         | Some (k, r1) \<Rightarrow> (case skip_ws r1 of
               [] \<Rightarrow> None
             | d # r2 \<Rightarrow> if d \<noteq> CHR '':'' then None else (case parse_value n r2 of
                   None \<Rightarrow> None
                 | Some (v, r3) \<Rightarrow> (case skip_ws r3 of
                       [] \<Rightarrow> None
                     | c # r4 \<Rightarrow> if c = CHR '','' then parse_members n r4 (mput k v acc)
                                 else if c = CHR ''}'' then Some (mput k v acc, r4) else None)))))"

definition JSON_parse :: "string \<Rightarrow> json option" where
  "JSON_parse s = (case parse_value (2 * length s + 2) s of
       Some (v, r) \<Rightarrow> if skip_ws r = [] then Some v else None
     | None \<Rightarrow> None)"

section \<open>Reading back strings\<close>

lemma hex_val_digit: "d < 16 \<Longrightarrow> hex_val (hex_digit d) = Some d"
  by (auto simp: hex_val_def hex_digit_def Let_def)

lemma hex_escape: "n < 256 \<Longrightarrow> radix_val 16 0 [CHR ''0'', CHR ''0'', hex_digit (n div 16), hex_digit (n mod 16)] = Some n"
proof -
  assume "n < 256"
  moreover have "hex_val (CHR ''0'') = Some 0" by (simp add: hex_val_def Let_def)
  ultimately show ?thesis by (simp add: hex_val_digit)
qed

lemma char_eqI: "(of_char c :: nat) = of_char d \<Longrightarrow> c = d"
  by (metis char_of_char)

lemma parse_escape: "parse_chars (escape c @ s) = map_option (apfst (Cons c)) (parse_chars s)"
proof -
  let ?n = "of_char c :: nat"
  have named: "?n = 8 \<Longrightarrow> c = CHR 0x08" "?n = 9 \<Longrightarrow> c = CHR 0x09" "?n = 10 \<Longrightarrow> c = CHR 0x0A"
    "?n = 12 \<Longrightarrow> c = CHR 0x0C" "?n = 13 \<Longrightarrow> c = CHR 0x0D"
    by (auto intro: char_eqI)
  consider "c = CHR 0x22" | "c = CHR 0x5C" | "?n \<in> {8, 9, 10, 12, 13}"
    | "c \<noteq> CHR 0x22" "c \<noteq> CHR 0x5C" "?n \<notin> {8, 9, 10, 12, 13}" "?n < 32"
    | "c \<noteq> CHR 0x22" "c \<noteq> CHR 0x5C" "32 \<le> ?n" by force
  then show ?thesis
  proof cases
    case 3
    with named have "c \<in> {CHR 0x08, CHR 0x09, CHR 0x0A, CHR 0x0C, CHR 0x0D}" by auto
    then show ?thesis by (auto simp: escape_def unescape_def Let_def)
  next
    case 4
    then show ?thesis using hex_escape [of ?n] by (simp add: escape_def Let_def)
  next
    case 5
    then show ?thesis by (simp add: escape_def Let_def)
  qed (simp_all add: escape_def unescape_def Let_def)
qed

lemma parse_quoted: "parse_chars (concat (map escape s) @ CHR 0x22 # r) = Some (s, r)"
  by (induction s) (simp_all add: parse_escape)

section \<open>Reading back numbers\<close>

lemma takeWhile_prefix: "\<forall>c \<in> set s. P c \<Longrightarrow> r = [] \<or> \<not> P (hd r) \<Longrightarrow> takeWhile P (s @ r) = s \<and> dropWhile P (s @ r) = r"
  by (cases r) auto

lemma js_Number_show_nat: "n < 2 ^ 53 \<Longrightarrow> js_Number (show_nat n) = Num (of_nat n)"
  using js_Number_decimal [OF decimal_pattern_show_nat] by simp

lemma js_trim_minus:
  assumes "s \<noteq> []" and "list_all is_digit s"
  shows "js_trim (CHR ''-'' # s) = CHR ''-'' # s"
proof -
  obtain t c where s: "s = t @ [c]" using assms(1) by (cases s rule: rev_cases) auto
  with assms(2) have "\<not> is_space c" "\<not> is_space (CHR ''-'')" by (auto simp: is_digit_def is_space_def Let_def)
  with s show ?thesis by (simp add: js_trim_def)
qed

lemma decimal_literal_show_nat: "decimal_literal (show_nat n) = Some (of_nat n)"
proof -
  have "show_nat n \<noteq> []" "list_all is_digit (show_nat n)"
    using decimal_pattern_digits [OF decimal_pattern_show_nat [of n]] by auto
  moreover have "digits_val 0 (show_nat n) = n" by (simp flip: dec_val_def)
  ultimately show ?thesis by (simp add: decimal_literal_def span_digits_all exponent_part_def)
qed

lemma js_Number_minus: "n < 2 ^ 53 \<Longrightarrow> js_Number (CHR ''-'' # show_nat n) = Num (- of_nat n)"
proof -
  assume n: "n < 2 ^ 53"
  have s: "show_nat n \<noteq> []" "list_all is_digit (show_nat n)"
    using decimal_pattern_digits [OF decimal_pattern_show_nat [of n]] by auto
  then have "show_nat n \<noteq> ''Infinity''" by (auto simp: is_digit_def)
  with n show ?thesis by (simp add: js_Number_def js_trim_minus [OF s] decimal_literal_show_nat to_number_nat)
qed

lemma number_token_decimal: "decimal_pattern s \<Longrightarrow> number_token s \<and> number_token (CHR ''-'' # s)"
proof -
  assume s: "decimal_pattern s"
  then have d: "s \<noteq> []" "list_all is_digit s" using decimal_pattern_digits by auto
  then have "take 1 s \<noteq> ''-''" by (cases s) (auto simp: is_digit_def)
  with s d show ?thesis by (simp add: number_token_def span_digits_all)
qed

lemma parse_number_printed:
  assumes "\<bar>i\<bar> < 2 ^ 53" and "r = [] \<or> \<not> number_char (hd r)"
  shows "parse_number (bigint_toString i @ r) = Some (JNum (of_int i), r)"
proof -
  have digits: "\<forall>c \<in> set (show_nat n). number_char c" for n
    using show_nat_digits [of n] by (auto simp: number_char_def list_all_iff)
  then have "\<forall>c \<in> set (bigint_toString i). number_char c" by (auto simp: bigint_toString_def number_char_def)
  note token = takeWhile_prefix [OF this assms(2)]
  show ?thesis
  proof (cases "i < 0")
    case True
    with assms(1) have "nat (- i) < 2 ^ 53" by (simp add: nat_less_iff)
    from js_Number_minus [OF this] True token show ?thesis
      using number_token_decimal [OF decimal_pattern_show_nat] by (simp add: parse_number_def Let_def bigint_toString_def)
  next
    case False
    with assms(1) have "nat i < 2 ^ 53" by (simp add: nat_less_iff)
    from js_Number_show_nat [OF this] False token show ?thesis
      using number_token_decimal [OF decimal_pattern_show_nat] by (simp add: parse_number_def Let_def bigint_toString_def)
  qed
qed

section \<open>Reading back values\<close>

abbreviation delimited :: "string \<Rightarrow> bool" where
  "delimited r \<equiv> r = [] \<or> \<not> number_char (hd r)"

text \<open>The text of the value is read back, whatever delimited text follows it.\<close>

definition reads_back :: "json \<Rightarrow> bool" where
  "reads_back v \<longleftrightarrow> (\<forall>n r. 2 * length (JSON_stringify v) \<le> n \<longrightarrow> delimited r
     \<longrightarrow> parse_value n (JSON_stringify v @ r) = Some (v, r))"

lemma skip_ws_Cons: "\<not> is_ws c \<Longrightarrow> skip_ws (c # s) = c # s"
  by (simp add: skip_ws_def)

lemma punctuation [simp]:
  "\<not> is_ws (CHR 0x22)" "\<not> is_ws (CHR '','')" "\<not> is_ws (CHR '':'')" "\<not> is_ws (CHR ''['')" "\<not> is_ws (CHR '']'')"
  "\<not> is_ws (CHR ''{'')" "\<not> is_ws (CHR ''}'')" "\<not> is_ws (CHR ''n'')" "\<not> is_ws (CHR ''t'')" "\<not> is_ws (CHR ''f'')"
  "\<not> number_char (CHR '','')" "\<not> number_char (CHR '']'')" "\<not> number_char (CHR ''}'')"
  by (simp_all add: is_ws_def number_char_def is_digit_def Let_def)

lemma number_first:
  obtains c t where "bigint_toString i = c # t" "is_digit c \<or> c = CHR ''-''"
proof (cases "i < 0")
  case False
  have "show_nat (nat i) \<noteq> []" "list_all is_digit (show_nat (nat i))"
    using decimal_pattern_digits [OF decimal_pattern_show_nat] by auto
  with False that show ?thesis by (cases "show_nat (nat i)") (auto simp: bigint_toString_def)
qed (use that in \<open>simp add: bigint_toString_def\<close>)

lemma stringify_first:
  obtains c t where "JSON_stringify v = c # t" "\<not> is_ws c" "c \<notin> {CHR '']'', CHR ''}''}"
proof (cases v)
  case (JNum q)
  obtain c t where "bigint_toString (floor q) = c # t" "is_digit c \<or> c = CHR ''-''" by (rule number_first)
  moreover from this(2) have "\<not> is_ws c" "c \<notin> {CHR '']'', CHR ''}''}" by (auto simp: is_digit_def is_ws_def Let_def)
  ultimately show ?thesis using that JNum by simp
next
  case (JBool b)
  with that show ?thesis by (cases b) auto
qed (use that in \<open>auto simp: quote_text_def\<close>)

lemma join_Cons: "join sep (t # ts) = (if ts = [] then t else t @ sep @ join sep ts)"
  by (cases ts) auto

lemma parse_elements_printed:
  assumes "vs \<noteq> []" and "\<forall>v \<in> set vs. reads_back v"
    and "2 * length (join '','' (map JSON_stringify vs)) + 1 \<le> n"
  shows "parse_elements n (join '','' (map JSON_stringify vs) @ CHR '']'' # r) = Some (vs, r)"
  using assms
proof (induction vs arbitrary: n)
  case (Cons v vs)
  then obtain m where n: "n = Suc m" by (cases n) auto
  have v: "2 * length (JSON_stringify v) \<le> m \<Longrightarrow> delimited s \<Longrightarrow> parse_value m (JSON_stringify v @ s) = Some (v, s)" for s
    using Cons.prems(2) unfolding reads_back_def by auto
  show ?case
  proof (cases "vs = []")
    case True
    with Cons.prems(3) n v [of "CHR '']'' # r"] show ?thesis by (simp add: skip_ws_Cons)
  next
    case False
    let ?rest = "join '','' (map JSON_stringify vs) @ CHR '']'' # r"
    have "parse_elements m ?rest = Some (vs, r)"
      using Cons.IH [of m] Cons.prems False n by (simp add: join_Cons)
    moreover have "parse_value m (JSON_stringify v @ CHR '','' # ?rest) = Some (v, CHR '','' # ?rest)"
      using v [of "CHR '','' # ?rest"] Cons.prems(3) False n by (simp add: join_Cons)
    ultimately show ?thesis using False n by (simp add: join_Cons skip_ws_Cons)
  qed
qed simp

lemma mput_new: "k \<notin> fst ` set m \<Longrightarrow> mput k v m = m @ [(k, v)]"
  by (induction k v m rule: mput.induct) auto

definition member_text :: "string \<times> json \<Rightarrow> string" where
  "member_text = (\<lambda>(k, v). quote_text k @ '':'' @ JSON_stringify v)"

lemma parse_members_printed:
  assumes "ms \<noteq> []" and "\<forall>(k, v) \<in> set ms. reads_back v" and "distinct (map fst (acc @ ms))"
    and "2 * length (join '','' (map member_text ms)) + 1 \<le> n"
  shows "parse_members n (join '','' (map member_text ms) @ CHR ''}'' # r) acc = Some (acc @ ms, r)"
  using assms
proof (induction ms arbitrary: n acc)
  case (Cons kv ms)
  obtain k v where kv: "kv = (k, v)" by (cases kv)
  from Cons.prems(4) obtain m where n: "n = Suc m" by (cases n) auto
  have v: "2 * length (JSON_stringify v) \<le> m \<Longrightarrow> delimited s \<Longrightarrow> parse_value m (JSON_stringify v @ s) = Some (v, s)" for s
    using Cons.prems(2) unfolding reads_back_def kv by auto
  have put: "mput k v acc = acc @ [(k, v)]" using Cons.prems(3) by (intro mput_new) (auto simp: kv)
  have key: "parse_members (Suc m) (quote_text k @ CHR '':'' # s) acc = (case parse_value m s of
       None \<Rightarrow> None
     | Some (v, r3) \<Rightarrow> (case skip_ws r3 of
           [] \<Rightarrow> None
         | c # r4 \<Rightarrow> if c = CHR '','' then parse_members m r4 (mput k v acc)
                     else if c = CHR ''}'' then Some (mput k v acc, r4) else None))" for s
    by (simp add: quote_text_def skip_ws_Cons parse_quoted)
  show ?case
  proof (cases "ms = []")
    case True
    with Cons.prems(4) n v [of "CHR ''}'' # r"] show ?thesis
      by (simp del: parse_members.simps add: key put kv member_text_def skip_ws_Cons)
  next
    case False
    let ?rest = "join '','' (map member_text ms) @ CHR ''}'' # r"
    have "parse_members m ?rest (acc @ [(k, v)]) = Some (acc @ (k, v) # ms, r)"
      using Cons.IH [of "acc @ [(k, v)]" m] Cons.prems False n by (simp add: join_Cons kv)
    moreover have "parse_value m (JSON_stringify v @ CHR '','' # ?rest) = Some (v, CHR '','' # ?rest)"
      using v [of "CHR '','' # ?rest"] Cons.prems(4) False n by (simp add: join_Cons kv member_text_def)
    ultimately show ?thesis using False n
      by (simp del: parse_members.simps add: join_Cons skip_ws_Cons key put kv member_text_def)
  qed
qed simp

lemma parse_literals:
  assumes "0 < n"
  shows "parse_value n (CHR ''n'' # CHR ''u'' # CHR ''l'' # CHR ''l'' # r) = Some (JNull, r)"
    and "parse_value n (CHR ''t'' # CHR ''r'' # CHR ''u'' # CHR ''e'' # r) = Some (JBool True, r)"
    and "parse_value n (CHR ''f'' # CHR ''a'' # CHR ''l'' # CHR ''s'' # CHR ''e'' # r) = Some (JBool False, r)"
  using assms by (cases n; simp add: literal_def skip_ws_Cons)+

lemma stringify_reads_back: "plain v \<Longrightarrow> reads_back v"
proof (induction v)
  case (JArr vs)
  then have vs: "\<forall>v \<in> set vs. reads_back v" by auto
  show ?case unfolding reads_back_def
  proof (intro allI impI)
    fix n r assume n: "2 * length (JSON_stringify (JArr vs)) \<le> n"
    then obtain m where m: "n = Suc m" by (cases n) auto
    show "parse_value n (JSON_stringify (JArr vs) @ r) = Some (JArr vs, r)"
    proof (cases vs)
      case (Cons v us)
      obtain c t where "JSON_stringify v = c # t" "\<not> is_ws c" "c \<notin> {CHR '']'', CHR ''}''}" by (rule stringify_first)
      then have "take 1 (skip_ws (join '','' (map JSON_stringify vs) @ CHR '']'' # r)) \<noteq> '']''"
        by (auto simp: Cons join_Cons skip_ws_Cons)
      with parse_elements_printed [of vs m r] vs n m Cons show ?thesis by (simp add: skip_ws_Cons)
    qed (simp add: m skip_ws_Cons)
  qed
next
  case (JObj ms)
  then have ms: "\<forall>(k, v) \<in> set ms. reads_back v" "distinct (map fst ms)" by (auto simp: snds.simps)
  have printed: "JSON_stringify (JObj ms) = ''{'' @ join '','' (map member_text ms) @ ''}''" by (simp add: member_text_def)
  show ?case unfolding reads_back_def
  proof (intro allI impI)
    fix n r assume n: "2 * length (JSON_stringify (JObj ms)) \<le> n"
    then obtain m where m: "n = Suc m" by (cases n) auto
    show "parse_value n (JSON_stringify (JObj ms) @ r) = Some (JObj ms, r)"
    proof (cases ms)
      case (Cons kv us)
      then have "take 1 (skip_ws (join '','' (map member_text ms) @ CHR ''}'' # r)) \<noteq> ''}''"
        by (auto simp: join_Cons skip_ws_Cons member_text_def quote_text_def split: prod.splits)
      with parse_members_printed [of ms "[]" m r] ms n m Cons show ?thesis
        unfolding printed by (simp add: skip_ws_Cons)
    qed (simp add: m skip_ws_Cons)
  qed
next
  case (JNum q)
  then obtain i where q: "q = of_int i" "\<bar>i\<bar> < 2 ^ 53" by (auto simp: is_integer_def)
  obtain c t where first: "bigint_toString i = c # t" "is_digit c \<or> c = CHR ''-''" by (rule number_first)
  show ?case unfolding reads_back_def
  proof (intro allI impI)
    fix n r assume n: "2 * length (JSON_stringify (JNum q)) \<le> n" and r: "delimited r"
    with first q obtain m where m: "n = Suc m" by (cases n) auto
    have "\<not> is_ws c" "c \<notin> {CHR 0x22, CHR ''{'', CHR ''['', CHR ''t'', CHR ''f'', CHR ''n''}"
      using first(2) by (auto simp: is_digit_def is_ws_def Let_def)
    with parse_number_printed [OF q(2) r] first show "parse_value n (JSON_stringify (JNum q) @ r) = Some (JNum q, r)"
      by (simp add: m q skip_ws_Cons)
  qed
next
  case (JStr s)
  show ?case unfolding reads_back_def
  proof (intro allI impI)
    fix n r assume "2 * length (JSON_stringify (JStr s)) \<le> n"
    then obtain m where "n = Suc m" by (cases n) (auto simp: quote_text_def)
    then show "parse_value n (JSON_stringify (JStr s) @ r) = Some (JStr s, r)"
      by (simp add: quote_text_def skip_ws_Cons parse_quoted)
  qed
qed (auto simp: reads_back_def parse_literals)

lemma JSON_parse_before:
  assumes "plain v" and "delimited r" and "skip_ws r = []"
  shows "JSON_parse (JSON_stringify v @ r) = Some v"
proof -
  let ?t = "JSON_stringify v @ r"
  have "2 * length (JSON_stringify v) \<le> 2 * length ?t + 2" by simp
  with stringify_reads_back [OF assms(1)] assms(2) have "parse_value (2 * length ?t + 2) ?t = Some (v, r)"
    unfolding reads_back_def by blast
  with assms(3) show ?thesis by (simp only: JSON_parse_def option.case prod.case simp_thms if_True)
qed

lemma JSON_round_trip: "plain v \<Longrightarrow> JSON_parse (JSON_stringify v) = Some v"
  using JSON_parse_before [of v "[]"] by (simp add: skip_ws_def)

section \<open>A printed value is one line\<close>

lemma escape_printable: "c \<in> set (escape d) \<Longrightarrow> 32 \<le> (of_char c :: nat)"
  by (auto simp: escape_def hex_digit_def Let_def split: if_splits)

lemma set_join: "set (join sep ts) \<subseteq> set sep \<union> (\<Union>t \<in> set ts. set t)"
  by (induction sep ts rule: join.induct) auto

lemma quote_printable: "c \<in> set (quote_text s) \<Longrightarrow> 32 \<le> (of_char c :: nat)"
  by (auto simp: quote_text_def dest: escape_printable)

lemma stringify_printable: "c \<in> set (JSON_stringify v) \<Longrightarrow> 32 \<le> (of_char c :: nat)"
proof (induction v arbitrary: c)
  case (JNum q)
  have "c \<in> set (show_nat n) \<Longrightarrow> 32 \<le> (of_char c :: nat)" for n
    using show_nat_digits [of n] by (auto simp: list_all_iff is_digit_def)
  with JNum show ?case by (auto simp: bigint_toString_def split: if_splits)
next
  case (JArr vs)
  then show ?case using set_join [of "'',''" "map JSON_stringify vs"] by fastforce
next
  case (JObj ms)
  have "32 \<le> (of_char c :: nat)" if "c \<in> set (member_text kv)" "kv \<in> set ms" for kv
    using that JObj.IH [of kv "snd kv"] by (auto simp: member_text_def snds.simps dest: quote_printable split: prod.splits)
  moreover have "JSON_stringify (JObj ms) = ''{'' @ join '','' (map member_text ms) @ ''}''" by (simp add: member_text_def)
  ultimately show ?case using JObj.prems set_join [of "'',''" "map member_text ms"] by fastforce
qed (auto split: if_splits dest: quote_printable)

end
