(* ===== verification/EventStream.thy ===== *)
theory EventStream
  imports JsonText Effects CommandQueue
begin

text \<open>
  The command stream from the control plane to an agent: the events the service emits
  (\<open>toEvent\<close> of \<open>agent/agent-events.service.ts\<close>) and their consumption by \<open>consumeEvents\<close> and
  \<open>parseSseFrame\<close> of \<open>apps/node-agent/src/api-client.ts\<close>.  The text arrives in chunks cut anywhere.
\<close>

section \<open>Cutting a text into frames\<close>

abbreviation LF :: char where "LF \<equiv> CHR 0x0A"

abbreviation CR :: char where "CR \<equiv> CHR 0x0D"

text \<open>\<open>text.replace(/\r\n/g, '\n')\<close>.\<close>

fun replace_crlf :: "string \<Rightarrow> string" where
  "replace_crlf (a # b # s) = (if a = CR \<and> b = LF then LF # replace_crlf s else a # replace_crlf (b # s))"
| "replace_crlf s = s"

text \<open>\<open>buffer.indexOf('\n\n')\<close>: what stands before and after the first empty line.\<close>

fun next_frame :: "string \<Rightarrow> (string \<times> string) option" where
  "next_frame (a # b # s) =
     (if a = LF \<and> b = LF then Some ([], s)
      else map_option (\<lambda>(frame, rest). (a # frame, rest)) (next_frame (b # s)))"
| "next_frame s = None"

lemma next_frame_eq: "next_frame s = Some (f, r) \<Longrightarrow> s = f @ [LF, LF] @ r"
  by (induction s arbitrary: f r rule: next_frame.induct) (auto split: if_splits)

text \<open>The inner loop over the buffer: the complete frames and what stays in the buffer.\<close>

function frames :: "string \<Rightarrow> string list \<times> string" where
  "frames s = (case next_frame s of
       None \<Rightarrow> ([], s)
     | Some (f, r) \<Rightarrow> (case frames r of (fs, rest) \<Rightarrow> (f # fs, rest)))"
  by pat_completeness auto
termination by (relation "measure length") (auto dest: next_frame_eq)

declare frames.simps [simp del]

definition read_chunk :: "string \<Rightarrow> string \<Rightarrow> string list \<times> string" where
  "read_chunk buffer value = frames (replace_crlf (buffer @ value))"

section \<open>Reading a frame\<close>

definition starts_with :: "string \<Rightarrow> string \<Rightarrow> bool" where
  "starts_with p s \<longleftrightarrow> take (length p) s = p"

fun truthy :: "json option \<Rightarrow> bool" where
  "truthy None = False"
| "truthy (Some JNull) = False"
| "truthy (Some (JBool b)) = b"
| "truthy (Some (JNum q)) = (q \<noteq> 0)"
| "truthy (Some (JStr s)) = (s \<noteq> [])"
| "truthy (Some _) = True"

text \<open>\<open>value.key\<close> of a parsed value; only \<open>null\<close> has no properties to read.\<close>

fun json_get :: "json \<Rightarrow> string \<Rightarrow> json option" where
  "json_get (JObj ms) key = map_of ms key"
| "json_get _ key = None"

definition frame_lines :: "string \<Rightarrow> string list" where
  "frame_lines frame = js_split LF (filter (\<lambda>c. c \<noteq> CR) frame)"

definition frame_data :: "string \<Rightarrow> string" where
  "frame_data frame = join [LF] (map (\<lambda>l. dropWhile is_space (drop 5 l)) (filter (starts_with ''data:'') (frame_lines frame)))"

definition parseSseFrame :: "string \<Rightarrow> (agent_error, json option) result" where
  "parseSseFrame frame =
     (if (case find (starts_with ''event:'') (frame_lines frame) of None \<Rightarrow> False | Some l \<Rightarrow> js_trim (drop 6 l) = ''keepalive'')
      then Inr None
      else if frame_data frame = [] then Inr None
      else case JSON_parse (frame_data frame) of
        None \<Rightarrow> Inl (External ''SyntaxError'')
      | Some JNull \<Rightarrow> Inl (External ''TypeError'')
      | Some parsed \<Rightarrow>
          Inr (if truthy (json_get parsed ''commandId'') \<and> truthy (json_get parsed ''type'')
                 \<and> truthy (json_get parsed ''targetRevision'') \<and> truthy (json_get parsed ''payload'')
               then Some parsed else None))"

section \<open>Consuming the stream\<close>

definition handle_frame :: "(json \<Rightarrow> ('w, unit) act) \<Rightarrow> string \<Rightarrow> ('w, unit) act" where
  "handle_frame onCommand frame =
     abind (alift (parseSseFrame frame)) (\<lambda>command. case command of None \<Rightarrow> aret () | Some c \<Rightarrow> onCommand c)"

text \<open>The outer loop over the chunks the connection yields; \<open>aborted\<close> is the signal.\<close>

fun consume_loop :: "('w \<Rightarrow> bool) \<Rightarrow> (json \<Rightarrow> ('w, unit) act) \<Rightarrow> string \<Rightarrow> string list \<Rightarrow> ('w, unit) act" where
  "consume_loop aborted onCommand buffer [] = aret ()"
| "consume_loop aborted onCommand buffer (value # values) =
     abind (aget aborted) (\<lambda>stop.
       if stop then aret ()
       else case read_chunk buffer value of (fs, rest) \<Rightarrow>
         abind (afor fs (handle_frame onCommand)) (\<lambda>_. consume_loop aborted onCommand rest values))"

definition consumeEvents :: "bool \<Rightarrow> ('w \<Rightarrow> bool) \<Rightarrow> (json \<Rightarrow> ('w, unit) act) \<Rightarrow> string list \<Rightarrow> ('w, unit) act" where
  "consumeEvents ok aborted onCommand chunks =
     (if \<not> ok then athrow (External ''HTTP'') else consume_loop aborted onCommand [] chunks)"

lemma keeps_consume [keeps_intros]:
  assumes "\<And>c. keeps I (onCommand c)"
  shows "keeps I (consumeEvents ok aborted onCommand chunks)"
proof -
  have one: "keeps I (handle_frame onCommand f)" for f
    unfolding handle_frame_def by (intro keeps_intros assms)
  have "keeps I (consume_loop aborted onCommand buffer chunks)" for buffer
    by (induction chunks arbitrary: buffer) (auto intro!: keeps_intros one split: prod.splits)
  then show ?thesis by (auto simp: consumeEvents_def intro!: keeps_intros)
qed

section \<open>What the service emits\<close>

definition command_json :: "AgentCommand \<Rightarrow> json" where
  "command_json c = JObj [(''commandId'', JStr (cmd_id c)), (''type'', JStr (type_text (cmd_type c))),
     (''targetRevision'', JStr (cmd_targetRevision c)), (''payload'', JObj (cmd_payload c)),
     (''createdAt'', JStr (cmd_createdAt c))]"

record MessageEvent =
  me_id :: string
  me_type :: string
  me_data :: string

definition toEvent :: "AgentCommand \<Rightarrow> MessageEvent" where
  "toEvent c = \<lparr>me_id = cmd_id c, me_type = ''command'', me_data = JSON_stringify (command_json c)\<rparr>"

text \<open>
  \<open>stream\<close>: between the commands of \<open>loadPending\<close> and of \<open>publish\<close> the timer emits keep-alive events.
\<close>

datatype stream_message = Send AgentCommand | Keepalive string

fun message_event :: "stream_message \<Rightarrow> MessageEvent" where
  "message_event (Send c) = toEvent c"
| "message_event (Keepalive occurredAt) =
     \<lparr>me_id = [], me_type = ''keepalive'', me_data = JSON_stringify (JObj [(''occurredAt'', JStr occurredAt)])\<rparr>"

text \<open>
  A frame that carries an event, by the event stream format: lines of a field name, a colon and the
  value, the first of the \<open>event\<close> lines naming the type and one line holding the data.  Only the
  first line may be empty.
\<close>

definition carries :: "MessageEvent \<Rightarrow> string \<Rightarrow> bool" where
  "carries e frame \<longleftrightarrow> CR \<notin> set frame \<and> [] \<notin> set (tl (js_split LF frame))
     \<and> find (starts_with ''event:'') (js_split LF frame) = Some (''event: '' @ me_type e)
     \<and> filter (starts_with ''data:'') (js_split LF frame) = [''data: '' @ me_data e]"

fun sent :: "stream_message list \<Rightarrow> json list" where
  "sent [] = []"
| "sent (Send c # ms) = command_json c # sent ms"
| "sent (Keepalive t # ms) = sent ms"

section \<open>Where a text is cut does not matter\<close>

text \<open>No carriage return stands before another one; the protocol's line ends are \<open>\n\<close> or \<open>\r\n\<close>.\<close>

abbreviation single_crs :: "string \<Rightarrow> bool" where
  "single_crs s \<equiv> successively (\<lambda>a b. \<not> (a = CR \<and> b = CR)) s"

lemma replace_crlf_other: "a \<noteq> CR \<Longrightarrow> replace_crlf (a # s) = a # replace_crlf s"
  by (cases s) auto

lemma replace_crlf_twice: "single_crs (x @ y) \<Longrightarrow> replace_crlf (replace_crlf x @ y) = replace_crlf (x @ y)"
proof (induction x rule: replace_crlf.induct)
  case (1 a b s)
  show ?case
  proof (cases "a = CR \<and> b = LF")
    case True
    with 1 have "single_crs (s @ y)" by (cases "s @ y") auto
    with 1(1) True show ?thesis by (simp add: replace_crlf_other)
  next
    case False
    with 1 have b: "replace_crlf (replace_crlf (b # s) @ y) = replace_crlf ((b # s) @ y)" by simp
    show ?thesis
    proof (cases "a = CR")
      case True
      with 1(3) False have "b \<noteq> CR" "b \<noteq> LF" by auto
      then have "replace_crlf (b # s) = b # replace_crlf s" by (simp add: replace_crlf_other)
      with b True \<open>b \<noteq> LF\<close> show ?thesis by simp
    next
      case other: False
      with b show ?thesis by (simp add: replace_crlf_other)
    qed
  qed
qed auto

lemma replace_crlf_append: "g = [] \<or> last g \<noteq> CR \<Longrightarrow> replace_crlf (g @ y) = replace_crlf g @ replace_crlf y"
proof (induction g rule: replace_crlf.induct)
  case (1 a b s)
  then show ?case by (cases s) (auto simp: replace_crlf_other split: if_splits)
qed (auto simp: replace_crlf_other)

lemma replace_crlf_length: "length (replace_crlf s) \<le> length s"
  by (induction s rule: replace_crlf.induct) auto

lemma replace_crlf_prefix:
  assumes "replace_crlf (g @ b) = g @ b" and "g = [] \<or> last g \<noteq> CR"
  shows "replace_crlf g = g"
proof -
  have eq: "replace_crlf g @ replace_crlf b = g @ b" using assms replace_crlf_append by metis
  then have "length (replace_crlf g) + length (replace_crlf b) = length g + length b" by (metis length_append)
  with replace_crlf_length [of g] replace_crlf_length [of b] have "length (replace_crlf g) = length g" by linarith
  with eq show ?thesis by simp
qed

lemma next_frame_rest: "next_frame s = Some (f, r) \<Longrightarrow> next_frame (f @ LF # LF # r') = Some (f, r')"
proof (induction s arbitrary: f rule: next_frame.induct)
  case (1 a b s)
  show ?case
  proof (cases "a = LF \<and> b = LF")
    case False
    with 1(2) obtain f' where f: "f = a # f'" "next_frame (b # s) = Some (f', r)" by auto
    with 1(1) False have IH: "next_frame (f' @ LF # LF # r') = Some (f', r')" by blast
    have "\<not> (a = LF \<and> hd (f' @ [LF]) = LF)"
      using next_frame_eq [OF f(2)] False by (cases f') auto
    with IH f show ?thesis by (cases f') auto
  qed (use 1 in auto)
qed auto

text \<open>What precedes the rest of a buffer can be put before any text.\<close>

lemma frames_prefix:
  "frames s = (fs, rest) \<Longrightarrow>
     \<exists>g. s = g @ rest \<and> (g = [] \<or> last g = LF) \<and> (\<forall>z. frames (g @ z) = (fs @ fst (frames z), snd (frames z)))"
proof (induction s arbitrary: fs rest rule: frames.induct)
  case (1 s)
  show ?case
  proof (cases "next_frame s")
    case None
    with 1(2) show ?thesis by (intro exI [of _ "[]"]) (simp add: frames.simps [of s])
  next
    case (Some fr)
    then obtain f r where f: "next_frame s = Some (f, r)" by (cases fr) auto
    obtain fs' where fs: "frames r = (fs', rest)" "fs = f # fs'"
      using 1(2) f by (auto simp: frames.simps [of s] split: prod.splits)
    obtain g where g: "r = g @ rest" "g = [] \<or> last g = LF"
      "\<forall>z. frames (g @ z) = (fs' @ fst (frames z), snd (frames z))"
      using 1(1) [OF f refl fs(1)] by blast
    have "frames ((f @ LF # LF # g) @ z) = (fs @ fst (frames z), snd (frames z))" for z
      using next_frame_rest [OF f, of "g @ z"] g(3) fs(2) by (simp add: frames.simps [of "f @ LF # LF # g @ z"])
    moreover have "s = (f @ LF # LF # g) @ rest" using next_frame_eq [OF f] g(1) by simp
    ultimately show ?thesis using g(2) by (intro exI [of _ "f @ LF # LF # g"]) auto
  qed
qed

lemma read_chunk_appends:
  assumes "frames (replace_crlf t) = (fs, buffer)" and "single_crs (t @ value)"
    and "read_chunk buffer value = (fs', buffer')"
  shows "frames (replace_crlf (t @ value)) = (fs @ fs', buffer')"
proof -
  obtain g where g: "replace_crlf t = g @ buffer" "g = [] \<or> last g = LF"
    "\<forall>z. frames (g @ z) = (fs @ fst (frames z), snd (frames z))"
    using frames_prefix [OF assms(1)] by blast
  have t: "single_crs (t @ [])" using assms(2) by (simp add: successively_append_iff)
  have "replace_crlf (g @ buffer) = g @ buffer" using replace_crlf_twice [OF t] g(1) by simp
  moreover have whole: "g = [] \<or> last g \<noteq> CR" using g(2) by auto
  ultimately have "replace_crlf g = g" by (rule replace_crlf_prefix)
  moreover have "replace_crlf (t @ value) = replace_crlf (g @ buffer @ value)"
    using replace_crlf_twice [OF assms(2)] g(1) by simp
  ultimately have "replace_crlf (t @ value) = g @ replace_crlf (buffer @ value)"
    using replace_crlf_append [OF whole] by simp
  with g(3) assms(3) show ?thesis by (simp add: read_chunk_def)
qed

lemma abind_assoc: "abind (abind m f) h = abind m (\<lambda>a. abind (f a) h)"
  by (rule ext) (auto simp: abind_def split: prod.splits sum.splits)

lemma abind_aret [simp]: "abind (aret a) f = f a" "abind m aret = m"
  by (rule ext, auto simp: abind_def aret_def split: prod.splits sum.splits)+

lemma abind_aget [simp]: "abind (aget (\<lambda>_. c)) f = f c"
  by (rule ext) (simp add: abind_def aget_def)

lemma afor_append: "afor (xs @ ys) f = abind (afor xs f) (\<lambda>_. afor ys f)"
  by (induction xs) (simp_all add: abind_assoc)

lemma consume_loop_frames:
  assumes "frames (replace_crlf t) = (fs, buffer)" and "single_crs (t @ concat chunks)"
  shows "abind (afor fs (handle_frame onCommand)) (\<lambda>_. consume_loop (\<lambda>_. False) onCommand buffer chunks)
    = afor (fst (frames (replace_crlf (t @ concat chunks)))) (handle_frame onCommand)"
  using assms
proof (induction chunks arbitrary: t fs buffer)
  case (Cons v chunks)
  obtain fs' buffer' where chunk: "read_chunk buffer v = (fs', buffer')" by (cases "read_chunk buffer v")
  have "single_crs (t @ v)" using Cons.prems(2) by (auto simp: successively_append_iff)
  from read_chunk_appends [OF Cons.prems(1) this chunk]
  have "frames (replace_crlf (t @ v)) = (fs @ fs', buffer')" .
  from Cons.IH [OF this] Cons.prems(2) chunk show ?case by (simp add: afor_append abind_assoc)
qed simp

lemma consumed_frames:
  assumes "single_crs (concat chunks)"
  shows "consumeEvents True (\<lambda>_. False) onCommand chunks
    = afor (fst (frames (replace_crlf (concat chunks)))) (handle_frame onCommand)"
proof -
  have "frames (replace_crlf []) = ([], [])" by (simp add: frames.simps)
  from consume_loop_frames [OF this, of chunks onCommand] assms show ?thesis by (simp add: consumeEvents_def)
qed

section \<open>What is sent is handed on\<close>

lemma next_frame_lines:
  assumes "f \<noteq> []" and "[] \<notin> set (tl (js_split LF f))"
  shows "next_frame (f @ LF # LF # r) = Some (f, r)"
  using assms
proof (induction f)
  case (Cons a f)
  show ?case
  proof (cases f)
    case Nil
    with Cons.prems show ?thesis by (cases "a = LF") auto
  next
    case (Cons b f')
    have "[] \<notin> set (tl (js_split LF f))" and "\<not> (a = LF \<and> b = LF)"
      using Cons.prems(2) Cons by (cases "js_split LF f"; auto simp: js_split_Cons_other split: if_splits)+
    with Cons.IH Cons show ?thesis by auto
  qed
qed simp

lemma replace_crlf_none: "CR \<notin> set s \<Longrightarrow> replace_crlf s = s"
  by (induction s) (auto simp: replace_crlf_other)

lemma single_crs_none: "CR \<notin> set s \<Longrightarrow> single_crs s"
  by (induction s rule: induct_list012) auto

lemma filter_cr: "CR \<notin> set s \<Longrightarrow> filter (\<lambda>c. c \<noteq> CR) s = s"
  by (auto simp: filter_id_conv)

lemma parse_keepalive: "carries (message_event (Keepalive t)) frame \<Longrightarrow> parseSseFrame frame = Inr None"
proof -
  assume "carries (message_event (Keepalive t)) frame"
  then have "find (starts_with ''event:'') (frame_lines frame) = Some ''event: keepalive''"
    by (simp add: carries_def frame_lines_def filter_cr)
  moreover have "js_trim '' keepalive'' = ''keepalive''" by (simp add: js_trim_def is_space_def)
  ultimately show ?thesis by (simp add: parseSseFrame_def)
qed

text \<open>A command the service sends names its id and a revision, and its payload is plain JSON.\<close>

definition sendable :: "stream_message \<Rightarrow> bool" where
  "sendable m = (case m of
     Send c \<Rightarrow> cmd_id c \<noteq> [] \<and> cmd_targetRevision c \<noteq> [] \<and> plain (JObj (cmd_payload c))
   | Keepalive t \<Rightarrow> True)"

lemma parse_command:
  assumes "carries (toEvent c) frame" and "sendable (Send c)"
  shows "parseSseFrame frame = Inr (Some (command_json c))"
proof -
  have lines: "frame_lines frame = js_split LF frame"
    using assms(1) by (simp add: carries_def frame_lines_def filter_cr)
  then have type: "find (starts_with ''event:'') (frame_lines frame) = Some ''event: command''"
    using assms(1) by (simp add: carries_def toEvent_def)
  have "js_trim '' command'' = ''command''" by (simp add: js_trim_def is_space_def)
  moreover have "frame_data frame = JSON_stringify (command_json c)"
    using assms(1) by (simp add: lines frame_data_def carries_def toEvent_def command_json_def is_space_def)
  moreover have "plain (command_json c)" using assms(2) by (simp add: sendable_def command_json_def)
  then have "JSON_parse (JSON_stringify (command_json c)) = Some (command_json c)" by (rule JSON_round_trip)
  moreover have "JSON_stringify (command_json c) \<noteq> []" by (simp add: command_json_def)
  moreover have "type_text (cmd_type c) \<noteq> []" by (simp add: type_text_def split: command_type.splits)
  ultimately show ?thesis using assms(2) by (simp add: parseSseFrame_def type sendable_def command_json_def)
qed

lemma stream_frames:
  assumes "list_all2 (\<lambda>m f. carries (message_event m) f) ms fs"
  shows "frames (concat (map (\<lambda>f. f @ [LF, LF]) fs)) = (fs, []) \<and> CR \<notin> set (concat (map (\<lambda>f. f @ [LF, LF]) fs))"
  using assms
proof (induction rule: list_all2_induct)
  case (Cons m ms f fs)
  then have "f \<noteq> []" by (auto simp: carries_def starts_with_def)
  with Cons(1) have "next_frame (f @ LF # LF # concat (map (\<lambda>f. f @ [LF, LF]) fs)) = Some (f, concat (map (\<lambda>f. f @ [LF, LF]) fs))"
    by (intro next_frame_lines) (auto simp: carries_def)
  with Cons show ?case by (simp add: frames.simps [of "f @ _"] carries_def)
qed (simp add: frames.simps)

lemma handled_frames:
  assumes "list_all2 (\<lambda>m f. carries (message_event m) f) ms fs" and "list_all sendable ms"
  shows "afor fs (handle_frame onCommand) = afor (sent ms) onCommand"
  using assms
proof (induction rule: list_all2_induct)
  case (Cons m ms f fs)
  have lift: "abind (alift (Inr a)) h = h a" for a :: "json option" and h :: "json option \<Rightarrow> ('a, unit) act"
    by (rule ext) (simp add: abind_def alift_def)
  show ?case
  proof (cases m)
    case (Send c)
    with Cons parse_command [of c f] show ?thesis by (simp add: handle_frame_def lift)
  next
    case (Keepalive t)
    with Cons parse_keepalive [of t f] show ?thesis by (simp add: handle_frame_def lift)
  qed
qed simp

text \<open>
  C3: the command stream is lossless and in order.  Whatever messages the service emits, commands
  with an id, a revision and a plain payload or keep-alive events, however the text of their frames
  is cut into chunks on its way, the agent hands exactly the commands to \<open>onCommand\<close>, each as the
  value that was sent, in the order they were sent, and stops only where \<open>onCommand\<close> throws.
\<close>

theorem event_stream_lossless:
  assumes "list_all2 (\<lambda>m f. carries (message_event m) f) ms fs" and "list_all sendable ms"
    and "concat chunks = concat (map (\<lambda>f. f @ [LF, LF]) fs)"
  shows "consumeEvents True (\<lambda>_. False) onCommand chunks = afor (sent ms) onCommand"
proof -
  have "CR \<notin> set (concat chunks)" using stream_frames [OF assms(1)] assms(3) by simp
  then have "consumeEvents True (\<lambda>_. False) onCommand chunks = afor (fst (frames (concat chunks))) (handle_frame onCommand)"
    using consumed_frames [OF single_crs_none] replace_crlf_none by metis
  with stream_frames [OF assms(1)] assms show ?thesis by (simp add: handled_frames)
qed

section \<open>An example\<close>

definition demo_send :: AgentCommand where
  "demo_send = \<lparr>cmd_id = ''c1'', cmd_type = DISABLE_USER, cmd_targetRevision = ''7'',
     cmd_payload = [(''email'', JStr ''a''), (''limit'', JNum 12)], cmd_createdAt = ''now''\<rparr>"

definition demo_frames :: "string list" where
  "demo_frames =
     [[LF] @ ''event: keepalive'' @ [LF] @ ''data: '' @ me_data (message_event (Keepalive ''t'')),
      ''event: command'' @ [LF] @ ''id: c1'' @ [LF] @ ''data: '' @ me_data (toEvent demo_send)]"

lemma demo_carried: "list_all2 (\<lambda>m f. carries (message_event m) f) [Keepalive ''t'', Send demo_send] demo_frames"
  by code_simp

theorem event_stream_lossless_witness:
  "consumeEvents True (\<lambda>_. False) (\<lambda>c. amodify (\<lambda>w. w @ [c]))
     [take 40 (concat (map (\<lambda>f. f @ [LF, LF]) demo_frames)), drop 40 (concat (map (\<lambda>f. f @ [LF, LF]) demo_frames))] []
     = (Inr (), [command_json demo_send])"
proof -
  have "list_all sendable [Keepalive ''t'', Send demo_send]"
    by (simp add: sendable_def demo_send_def is_integer_def)
  from event_stream_lossless [OF demo_carried this, of "[take 40 (concat (map (\<lambda>f. f @ [LF, LF]) demo_frames)), drop 40 (concat (map (\<lambda>f. f @ [LF, LF]) demo_frames))]"
    "\<lambda>c. amodify (\<lambda>w. w @ [c])"]
  show ?thesis by (simp add: amodify_def)
qed

end
