(* ===== verification/RetentionSpec.thy ===== *)
theory RetentionSpec
  imports ServiceSpec
begin

text \<open>
  Reclaiming payloads is invisible to metering: the intake of batches and the heartbeats give the
  same answers with and without it.  The proof is a simulation: two databases that differ only in
  payloads of accounted batches stay so under every transaction, which answers the same on both.
\<close>

section \<open>Simulation of transactions\<close>

text \<open>\<open>tsim R m m'\<close>: on related states \<open>m\<close> and \<open>m'\<close> fail alike or answer alike and stay related.\<close>

definition answers :: "('s \<Rightarrow> 's \<Rightarrow> bool) \<Rightarrow> (api_error, 'a \<times> 's) result \<Rightarrow> (api_error, 'a \<times> 's) result \<Rightarrow> bool" where
  "answers R r r' \<longleftrightarrow> (case r of Inl e \<Rightarrow> r' = Inl e | Inr (a, t) \<Rightarrow> \<exists>t'. r' = Inr (a, t') \<and> R t t')"

definition tsim :: "('s \<Rightarrow> 's \<Rightarrow> bool) \<Rightarrow> ('s, 'a) tx \<Rightarrow> ('s, 'a) tx \<Rightarrow> bool" where
  "tsim R m m' \<longleftrightarrow> (\<forall>s s'. R s s' \<longrightarrow> answers R (m s) (m' s'))"

lemma answers_simps [simp]:
  "answers R (Inl e) r' \<longleftrightarrow> r' = Inl e" "answers R (Inr (a, t)) r' \<longleftrightarrow> (\<exists>t'. r' = Inr (a, t') \<and> R t t')"
  by (simp_all add: answers_def)

lemma tsimD: "tsim R m m' \<Longrightarrow> R s s' \<Longrightarrow> answers R (m s) (m' s')"
  by (simp add: tsim_def)

named_theorems tsim_intros \<open>transactions that simulate each other\<close>

lemma tsimI:
  assumes "\<And>s s' e. R s s' \<Longrightarrow> m s = Inl e \<Longrightarrow> m' s' = Inl e"
    and "\<And>s s' a t. R s s' \<Longrightarrow> m s = Inr (a, t) \<Longrightarrow> \<exists>t'. m' s' = Inr (a, t') \<and> R t t'"
  shows "tsim R m m'"
  using assms unfolding tsim_def answers_def by (auto split: sum.splits)

lemma tsim_Inl: "tsim R m m' \<Longrightarrow> R s s' \<Longrightarrow> m s = Inl e \<Longrightarrow> m' s' = Inl e"
  using tsimD [of R m m' s s'] by simp

lemma tsim_Inr: "tsim R m m' \<Longrightarrow> R s s' \<Longrightarrow> m s = Inr (a, t) \<Longrightarrow> \<exists>t'. m' s' = Inr (a, t') \<and> R t t'"
  using tsimD [of R m m' s s'] by simp

lemma tsim_basic [tsim_intros]:
  "tsim R (tret a) (tret a)" "tsim R (tthrow e) (tthrow e)" "tsim R (tlift r) (tlift r)"
  "tsim R (tfound v e) (tfound v e)" "tsim R (tassert b e) (tassert b e)"
  by (auto intro!: tsimI simp: tret_def)

lemma tsim_bind [tsim_intros]:
  assumes "tsim R m m'" and "\<And>a. tsim R (f a) (f' a)"
  shows "tsim R (tbind m f) (tbind m' f')"
proof (rule tsimI)
  fix s s' e assume "R s s'" "tbind m f s = Inl e"
  then show "tbind m' f' s' = Inl e"
    using tsim_Inl [OF assms(1)] tsim_Inr [OF assms(1)] tsim_Inl [OF assms(2)] unfolding tbind_Inl by metis
next
  fix s s' a t assume R: "R s s'" and "tbind m f s = Inr (a, t)"
  then obtain b u where "m s = Inr (b, u)" "f b u = Inr (a, t)" by (auto simp: tbind_Inr)
  with tsim_Inr [OF assms(1) R] tsim_Inr [OF assms(2)] show "\<exists>t'. tbind m' f' s' = Inr (a, t') \<and> R t t'"
    unfolding tbind_Inr by metis
qed

text \<open>A value that may differ between the sides.\<close>

lemma tsim_bind_read:
  "(\<And>s s'. R s s' \<Longrightarrow> tsim R (f (g s)) (f' (g' s'))) \<Longrightarrow> tsim R (tbind (tread g) f) (tbind (tread g') f')"
  by (auto simp: tsim_def tbind_def tread_def)

lemma tsim_when [tsim_intros]: "(b \<Longrightarrow> tsim R m m') \<Longrightarrow> tsim R (twhen b m) (twhen b m')"
  by (simp add: twhen_def tsim_basic)

lemma tsim_if [tsim_intros]:
  "(b \<Longrightarrow> tsim R m m') \<Longrightarrow> (\<not> b \<Longrightarrow> tsim R n n') \<Longrightarrow> tsim R (if b then m else n) (if b then m' else n')"
  by simp

lemma tsim_case_option [tsim_intros]:
  "tsim R m m' \<Longrightarrow> (\<And>a. tsim R (n a) (n' a)) \<Longrightarrow> tsim R (case v of None \<Rightarrow> m | Some a \<Rightarrow> n a) (case v of None \<Rightarrow> m' | Some a \<Rightarrow> n' a)"
  by (cases v) simp_all

lemma tsim_case_prod [tsim_intros]:
  "(\<And>a b. tsim R (f a b) (f' a b)) \<Longrightarrow> tsim R (case p of (a, b) \<Rightarrow> f a b) (case p of (a, b) \<Rightarrow> f' a b)"
  by (cases p) simp

lemma tsim_for [tsim_intros]: "(\<And>x. tsim R (f x) (f' x)) \<Longrightarrow> tsim R (tfor xs f) (tfor xs f')"
  by (induction xs) (auto intro: tsim_bind tsim_basic)

lemma tsim_fold [tsim_intros]: "(\<And>x c. tsim R (f x c) (f' x c)) \<Longrightarrow> tsim R (tfold f xs c) (tfold f' xs c)"
  by (induction xs arbitrary: c) (auto intro: tsim_bind tsim_basic)

lemma retry_loop_sim:
  assumes "\<And>n. answers R (m n) (m' n)"
  shows "answers R (retry_loop limit retryable m k) (retry_loop limit retryable m' k)"
proof (induction "limit - k" arbitrary: k)
  case 0
  with assms [of k] show ?case
    by (cases "m k") (auto simp: retry_loop.simps [of limit retryable m k] retry_loop.simps [of limit retryable m' k])
next
  case (Suc d)
  from Suc(1) [of "Suc k"] Suc(2) have "answers R (retry_loop limit retryable m (Suc k)) (retry_loop limit retryable m' (Suc k))" by simp
  with assms [of k] show ?case
    by (cases "m k") (auto simp: retry_loop.simps [of limit retryable m k] retry_loop.simps [of limit retryable m' k])
qed

lemma tsim_retry [tsim_intros]:
  assumes "tsim R m m'"
  shows "tsim R (withSerializableRetry fault m) (withSerializableRetry fault m')"
  unfolding tsim_def withSerializableRetry_def
proof (intro allI impI retry_loop_sim)
  fix s s' n assume "R s s'"
  with tsimD [OF assms] show "answers R (attempt_tx fault m s n) (attempt_tx fault m' s' n)"
    by (simp add: attempt_tx_def split: option.splits)
qed

section \<open>Databases that differ in reclaimed payloads\<close>

definition alike :: "control_plane \<Rightarrow> control_plane \<Rightarrow> bool" where
  "alike db db' \<longleftrightarrow> (\<exists>rows. db' = db\<lparr>usage_batches := rows\<rparr> \<and> redacted (usage_batches db) rows)"

lemma alikeI: "redacted (usage_batches db) rows \<Longrightarrow> db' = db\<lparr>usage_batches := rows\<rparr> \<Longrightarrow> alike db db'"
  by (auto simp: alike_def)

lemma alikeE:
  assumes "alike db db'"
  obtains rows where "db' = db\<lparr>usage_batches := rows\<rparr>" "redacted (usage_batches db) rows"
  using assms by (auto simp: alike_def)

lemma alike_refl [simp]: "alike db db"
  unfolding alike_def by (rule exI [of _ "usage_batches db"]) simp

lemma alike_trans: "alike a b \<Longrightarrow> alike b c \<Longrightarrow> alike a c"
  by (elim alikeE, rule alikeI) (auto intro: redacted_trans)

lemma alike_tables:
  assumes "alike db db'"
  shows "subscriptions db' = subscriptions db" "bindings db' = bindings db" "snapshots db' = snapshots db"
    "ledger_rows db' = ledger_rows db" "nodes db' = nodes db" "agents db' = agents db" "command_jobs db' = command_jobs db"
    "lease_jobs db' = lease_jobs db" "register_tokens db' = register_tokens db" "fresh db' = fresh db"
    "out_commands db' = out_commands db" "out_transitions db' = out_transitions db" "out_admin db' = out_admin db"
    "redacted (usage_batches db) (usage_batches db')"
  using assms by (auto simp: alike_def)

lemma alike_read [tsim_intros]: "(\<And>db rows. f (db\<lparr>usage_batches := rows\<rparr>) = f db) \<Longrightarrow> tsim alike (tread f) (tread f)"
  by (rule tsimI) (auto simp: alike_def)

lemma alike_write:
  assumes "\<And>db rows. f (db\<lparr>usage_batches := rows\<rparr>) = (f db)\<lparr>usage_batches := rows\<rparr>" and "\<And>db. usage_batches (f db) = usage_batches db"
  shows "tsim alike (twrite f) (twrite f)"
  by (rule tsimI) (auto simp: alike_def assms)

lemma alike_set [tsim_intros]:
  "tsim alike (set_subscriptions p1 f1) (set_subscriptions p1 f1)" "tsim alike (set_bindings p2 f2) (set_bindings p2 f2)"
  "tsim alike (set_snapshots p3 f3) (set_snapshots p3 f3)" "tsim alike (set_nodes p4 f4) (set_nodes p4 f4)"
  "tsim alike (set_agents p5 f5) (set_agents p5 f5)" "tsim alike (set_jobs p6 f6) (set_jobs p6 f6)"
  "tsim alike (set_leases p7 f7) (set_leases p7 f7)"
  unfolding set_defs by (rule alike_write; simp)+

lemma alike_publish [tsim_intros]:
  "tsim alike (publish_command a c) (publish_command a c)" "tsim alike (publish_transition t) (publish_transition t)"
  "tsim alike (publish_admin n) (publish_admin n)"
  unfolding publish_command_def publish_transition_def publish_admin_def by (rule alike_write; simp)+

lemma alike_draw [tsim_intros]: "tsim alike (draw_uuid pf) (draw_uuid pf)"
  by (rule tsimI) (auto simp: draw_uuid_def elim!: alikeE intro!: alikeI)

lemma alike_insert_job [tsim_intros]: "tsim alike (insert_job job) (insert_job job)"
  by (rule tsimI) (auto simp: insert_job_def elim!: alikeE intro!: alikeI split: if_splits)

section \<open>Accounting a batch\<close>

lemma alike_resolve [tsim_intros]: "tsim alike (resolveExhaustedCommands pf b n t) (resolveExhaustedCommands pf b n t)"
  unfolding resolveExhaustedCommands_def by (intro tsim_intros)

lemma alike_lease [tsim_intros]: "tsim alike (createOrRefreshLeaseRevocationJob job f) (createOrRefreshLeaseRevocationJob job f)"
  unfolding createOrRefreshLeaseRevocationJob_def Let_def by (intro tsim_intros alike_write) simp_all

lemma alike_bump [tsim_intros]: "tsim alike (bump_revision nodeId f) (bump_revision nodeId f)"
  unfolding bump_revision_def by (intro tsim_intros) simp

lemma alike_queue_disable [tsim_intros]: "tsim alike (queue_disable pf n a r st b) (queue_disable pf n a r st b)"
  unfolding queue_disable_def by (intro tsim_intros) simp

lemma alike_disable [tsim_intros]:
  "tsim alike (disableDirectBindingsForSubscriptions pf n a ds) (disableDirectBindingsForSubscriptions pf n a ds)"
  unfolding disableDirectBindingsForSubscriptions_def disable_node_bindings_def agent_for_node_def
  by (intro tsim_intros) simp_all

lemma alike_revoke [tsim_intros]: "tsim alike (revoke_leases pf n d) (revoke_leases pf n d)"
  unfolding revoke_leases_def by (intro tsim_intros)

lemma alike_tally [tsim_intros]: "tsim alike (tally_entry pf n t snaps e acc) (tally_entry pf n t snaps e acc)"
  unfolding tally_entry_def Let_def by (intro tsim_intros)

lemma alike_write_entries [tsim_intros]:
  "tsim alike (write_unchanged t es) (write_unchanged t es)" "tsim alike (write_changed pf n t e) (write_changed pf n t e)"
  unfolding write_unchanged_def write_changed_def upsert_snapshot_def by (intro tsim_intros alike_write; simp)+

lemma alike_charge [tsim_intros]: "tsim alike (charge_tally t ta) (charge_tally t ta)"
  unfolding charge_tally_def charge_subscription_def Let_def by (intro tsim_intros alike_write) simp_all

lemma alike_prepare:
  assumes "alike db db'"
  shows "prepare_samples db' n boot k samples = prepare_samples db n boot k samples"
proof -
  have "prepare_sample db' n boot k = prepare_sample db n boot k"
    by (rule ext, unfold prepare_sample_def alike_tables [OF assms], rule refl)
  then show ?thesis by (simp add: prepare_samples_def)
qed

lemma alike_batch [tsim_intros]:
  "tsim alike (applyDirectBatch pf a n t boot k samples) (applyDirectBatch pf a n t boot k samples)"
  unfolding applyDirectBatch_def
  apply (intro tsim_if tsim_basic tsim_bind_read)
  subgoal premises alike for s s'
    unfolding alike_prepare [OF alike(3)] alike_tables(3) [OF alike(3)] by (intro tsim_intros)
  done

section \<open>The intake\<close>

lemma list_all2_insort_key:
  assumes "list_all2 R xs ys" and "R x y" and "\<And>x y. R x y \<Longrightarrow> k y = k x"
  shows "list_all2 R (insort_key k x xs) (insort_key k y ys)"
  using assms(1,2) by (induction rule: list_all2_induct) (auto simp: assms(3))

lemma list_all2_sort_key:
  assumes "list_all2 R xs ys" and "\<And>x y. R x y \<Longrightarrow> k y = k x"
  shows "list_all2 R (sort_key k xs) (sort_key k ys)"
  using assms(1) by (induction rule: list_all2_induct) (auto intro: list_all2_insort_key assms(2))

lemma list_all2_filter:
  assumes "list_all2 R xs ys" and "\<And>x y. R x y \<Longrightarrow> p y = p x"
  shows "list_all2 R (filter p xs) (filter p ys)"
  using assms(1) by (induction rule: list_all2_induct) (auto simp: assms(2))

lemma alike_batches_after:
  assumes "alike db db'"
  shows "redacted (batches_after limit a n boot ack db) (batches_after limit a n boot ack db')"
  unfolding batches_after_def
  by (intro list_all2_takeI list_all2_sort_key list_all2_filter alike_tables(14) [OF assms]) (simp_all add: redacts_sel)

lemma alike_set_batches [tsim_intros]:
  "tsim alike (set_batches (\<lambda>r. nb_id r = i) (\<lambda>r. r\<lparr>nb_accountedAt := Some t\<rparr>)) (set_batches (\<lambda>r. nb_id r = i) (\<lambda>r. r\<lparr>nb_accountedAt := Some t\<rparr>))"
proof (rule tsimI)
  fix s s' a u assume al: "alike s s'" and run: "set_batches (\<lambda>r. nb_id r = i) (\<lambda>r. r\<lparr>nb_accountedAt := Some t\<rparr>) s = Inr (a, u)"
  let ?mark = "tmodify (\<lambda>r. nb_id r = i) (\<lambda>r. r\<lparr>nb_accountedAt := Some t\<rparr>)"
  from al have "redacted (?mark (usage_batches s)) (?mark (usage_batches s'))"
    by (auto simp: tmodify_def list_all2_map1 list_all2_map2 redacts_sel(1) elim!: list_all2_mono dest!: alike_tables(14))
      (metis (no_types, lifting) redacts_def NodeUsageBatch.surjective NodeUsageBatch.update_convs(7,9) NodeUsageBatch.select_convs(9) option.distinct(1))
  with al run show "\<exists>t'. set_batches (\<lambda>r. nb_id r = i) (\<lambda>r. r\<lparr>nb_accountedAt := Some t\<rparr>) s' = Inr (a, t') \<and> alike u t'"
    by (auto simp: set_batches_def elim!: alikeE intro!: alikeI)
qed (simp add: set_batches_def)

lemma alike_account_loop:
  "redacted bs bs' \<Longrightarrow> tsim alike (account_loop pf a n boot bs acc) (account_loop pf a n boot bs' acc)"
proof (induction arbitrary: acc rule: list_all2_induct)
  case (Cons b bs b' bs')
  note same = redacts_sel [OF Cons(1)]
  have one: "tsim alike (if nb_accountedAt b = None then account_batch pf a n boot b acc else tret acc)
      (if nb_accountedAt b = None then account_batch pf a n boot b' acc else tret acc)"
    using same(10) by (auto simp: account_batch_def intro!: tsim_intros)
  show ?case unfolding account_loop.simps same(5,8) by (intro tsim_intros one Cons(3))
qed (auto intro: tsim_intros)

lemma alike_contiguous: "redacted bs bs' \<Longrightarrow> contiguous_ack bs' ack = contiguous_ack bs ack"
  by (induction arbitrary: ack rule: list_all2_induct) (auto simp: redacts_sel(5))

lemma alike_advance [tsim_intros]: "tsim alike (advanceAck a n boot ack) (advanceAck a n boot ack)"
  unfolding advanceAck_def by (rule tsimI) (simp_all add: alike_contiguous [OF alike_batches_after])

lemma alike_account [tsim_intros]: "tsim alike (accountContiguousBatches pf a n boot ack) (accountContiguousBatches pf a n boot ack)"
  unfolding accountContiguousBatches_def by (rule tsim_bind_read) (rule alike_account_loop [OF alike_batches_after])

lemma alike_process [tsim_intros]: "tsim alike (process_stored pf agent node boot ack) (process_stored pf agent node boot ack)"
  unfolding process_stored_def by (intro tsim_intros)

lemma redacts_key: "redacts b b' \<Longrightarrow> batch_key b' = batch_key b"
  by (simp add: batch_key_def redacts_sel)

lemma alike_find:
  assumes "alike db db'"
  shows "map_option nb_payloadHash (tfind batch_key k (usage_batches db')) = map_option nb_payloadHash (tfind batch_key k (usage_batches db))"
  using alike_tables(14) [OF assms]
  by (induction rule: list_all2_induct) (auto simp: tfind_def redacts_sel redacts_key)

lemma alike_already_stored [tsim_intros]: "tsim alike (already_stored pf agent input k) (already_stored pf agent input k)"
  unfolding already_stored_def
proof (rule tsim_bind_read)
  fix s s' assume "alike s s'"
  from alike_find [OF this, of "(na_nodeId agent, ub_bootId input, k)"]
  show "tsim alike (case tfind batch_key (na_nodeId agent, ub_bootId input, k) (usage_batches s) of None \<Rightarrow> tret False
      | Some b \<Rightarrow> tbind (tassert (nb_payloadHash b = pf_sha256json pf (canonicalBatchPayload input)) (ConflictError ''sequence'')) (\<lambda>_. tret True))
    (case tfind batch_key (na_nodeId agent, ub_bootId input, k) (usage_batches s') of None \<Rightarrow> tret False
      | Some b \<Rightarrow> tbind (tassert (nb_payloadHash b = pf_sha256json pf (canonicalBatchPayload input)) (ConflictError ''sequence'')) (\<lambda>_. tret True))"
    by (auto split: option.splits intro!: tsim_intros)
qed

lemma alike_insert_batch [tsim_intros]: "tsim alike (insert_batch b) (insert_batch b)"
proof -
  have keys: "batch_key ` set (usage_batches s') = batch_key ` set (usage_batches s)" "nb_id ` set (usage_batches s') = nb_id ` set (usage_batches s)"
    if "alike s s'" for s s'
    using redacted_map [OF alike_tables(14) [OF that], of batch_key] redacted_map [OF alike_tables(14) [OF that], of nb_id]
    by (metis redacts_key list.set_map, metis redacts_sel(1) list.set_map)
  show ?thesis
    by (rule tsimI) (auto simp: insert_batch_def keys elim!: alikeE intro!: alikeI list_all2_appendI split: if_splits)
qed

lemma alike_ingest [tsim_intros]: "tsim alike (ingest_tx pf agent input k) (ingest_tx pf agent input k)"
  unfolding ingest_tx_def live_agent_def switch_boot_def store_batch_def record_ack_def by (intro tsim_intros) simp_all

lemma alike_guarded [tsim_intros]: "(\<And>a. tsim alike (f a) (f a)) \<Longrightarrow> tsim alike (guarded pf request f) (guarded pf request f)"
  unfolding guarded_def by (intro tsim_intros) (auto simp: canActivate_def authenticate_def cong: option.case_cong)

lemma alike_upload: "tsim alike (post_usageBatches pf isDate fault request batch) (post_usageBatches pf isDate fault request batch)"
  unfolding post_usageBatches_def usageBatches_def ingestUsageBatch_def publish_pending_def publish_job_def
  by (intro tsim_intros) simp_all

lemma alike_heartbeat: "tsim alike (post_heartbeat pf request beat) (post_heartbeat pf request beat)"
  unfolding post_heartbeat_def heartbeat_def live_agent_def Let_def by (intro tsim_intros) simp_all

section \<open>Runs of the intake\<close>

text \<open>What reaches the intake: uploads, heartbeats and the hourly reclaiming.\<close>

datatype intake_event =
    Upload platform "string \<Rightarrow> bool" db_faults AgentAuthenticatedRequest UsageBatch
  | Beat platform AgentAuthenticatedRequest AgentHeartbeatDto
  | Reclaim "NodeUsageBatch list \<Rightarrow> NodeUsageBatch list" UsageBatch db_faults "string option" int

datatype intake_answer =
    Ack "(api_error, AgentUsageBatchAckDto) result"
  | Pulse "(api_error, HeartbeatResult) result"

definition answered :: "((api_error, 'a) result \<Rightarrow> intake_answer) \<Rightarrow> (control_plane, 'a) tx \<Rightarrow> control_plane \<Rightarrow> intake_answer list \<times> control_plane" where
  "answered wrap m db = (case m db of Inl e \<Rightarrow> ([wrap (Inl e)], db) | Inr (a, db') \<Rightarrow> ([wrap (Inr a)], db'))"

fun intake_step :: "intake_event \<Rightarrow> control_plane \<Rightarrow> intake_answer list \<times> control_plane" where
  "intake_step (Upload pf isDate fault request batch) db = answered Ack (post_usageBatches pf isDate fault request batch) db"
| "intake_step (Beat pf request beat) db = answered Pulse (post_heartbeat pf request beat) db"
| "intake_step (Reclaim scan blank fault daysEnv now) db = ([], snd (redactSettledUsagePayloads scan blank fault daysEnv now db))"

fun intake_run :: "intake_event list \<Rightarrow> control_plane \<Rightarrow> intake_answer list \<times> control_plane" where
  "intake_run [] db = ([], db)"
| "intake_run (e # es) db =
     (case intake_step e db of (first, db1) \<Rightarrow> case intake_run es db1 of (later, db2) \<Rightarrow> (first @ later, db2))"

fun reclaims :: "intake_event \<Rightarrow> bool" where
  "reclaims (Reclaim scan blank fault daysEnv now) = True"
| "reclaims e = False"

fun event_ok :: "intake_event \<Rightarrow> bool" where
  "event_ok (Reclaim scan blank fault daysEnv now) = reorders scan"
| "event_ok e = True"

lemma answered_alike:
  assumes "tsim alike m m" and "alike db db'"
  shows "fst (answered wrap m db') = fst (answered wrap m db)" "alike (snd (answered wrap m db)) (snd (answered wrap m db'))"
  using tsimD [OF assms] assms(2) by (auto simp: answered_def answers_def split: sum.splits)

lemma answered_rows_wf:
  assumes "\<And>a db'. m db = Inr (a, db') \<Longrightarrow> rows_wf db'" and "rows_wf db"
  shows "rows_wf (snd (answered wrap m db))"
  using assms by (auto simp: answered_def split: sum.splits)

lemma upload_rows_wf: "post_usageBatches pf isDate fault request batch db = Inr (a, db') \<Longrightarrow> rows_wf db \<Longrightarrow> rows_wf db'"
  by (auto simp: post_usageBatches_def guarded_Inr intro: rows_upload)

lemma heartbeat_rows_wf: "post_heartbeat pf request beat db = Inr (a, db') \<Longrightarrow> rows_wf db \<Longrightarrow> rows_wf db'"
  by (auto simp: post_heartbeat_def guarded_Inr tx_simps rows_wf_def elim!: heartbeat_effect)

lemma intake_step_rows_wf: "event_ok e \<Longrightarrow> rows_wf db \<Longrightarrow> rows_wf (snd (intake_step e db))"
proof (cases e)
  case (Reclaim scan blank fault daysEnv now)
  assume "event_ok e" "rows_wf db"
  then show ?thesis
    using Reclaim rows_wf_same reclaim_rows(1) [of db scan blank fault daysEnv now] by (auto simp: prod_eq_iff)
qed (auto intro: answered_rows_wf upload_rows_wf heartbeat_rows_wf)

lemma reclaim_alike:
  assumes "rows_wf db" and "reorders scan"
  shows "alike db (snd (redactSettledUsagePayloads scan blank fault daysEnv now db))"
  using reclaim_redacts [of db scan blank fault daysEnv now] assms
  by (auto simp: rows_wf_def prod_eq_iff intro: alikeI)

lemma intake_run_alike:
  assumes "alike db db'" and "rows_wf db'" and "list_all event_ok es"
  shows "fst (intake_run es db') = fst (intake_run (filter (Not \<circ> reclaims) es) db)
    \<and> alike (snd (intake_run (filter (Not \<circ> reclaims) es) db)) (snd (intake_run es db'))"
  using assms
proof (induction es arbitrary: db db')
  case (Cons e es)
  have wf: "rows_wf (snd (intake_step e db'))" using Cons.prems by (simp add: intake_step_rows_wf)
  show ?case
  proof (cases "reclaims e")
    case True
    then obtain scan blank fault daysEnv now where e: "e = Reclaim scan blank fault daysEnv now" by (cases e) auto
    have "alike db (snd (intake_step e db'))"
      using alike_trans [OF Cons.prems(1) reclaim_alike [OF Cons.prems(2)]] Cons.prems(3) e by simp
    from Cons.IH [OF this wf] Cons.prems(3) True e show ?thesis by (simp split: prod.splits)
  next
    case False
    then have "fst (intake_step e db') = fst (intake_step e db) \<and> alike (snd (intake_step e db)) (snd (intake_step e db'))"
      using answered_alike [OF alike_upload Cons.prems(1)] answered_alike [OF alike_heartbeat Cons.prems(1)] by (cases e) auto
    with Cons.IH [OF _ wf, of "snd (intake_step e db)"] Cons.prems(3) False show ?thesis
      by (auto simp: prod_eq_iff split: prod.splits)
  qed
qed simp

section \<open>Properties\<close>

text \<open>
  C35: reclaiming payloads is invisible: in any run of uploads, heartbeats and reclaiming, however
  often and wherever it happens, every upload and heartbeat is answered as if nothing had been
  reclaimed, and subscriptions, bindings, snapshots, ledger, agents and commands end up the same.
\<close>

theorem reclaiming_is_invisible:
  assumes "rows_wf db" and "list_all event_ok es"
  shows "fst (intake_run es db) = fst (intake_run (filter (Not \<circ> reclaims) es) db)
    \<and> (\<exists>rows. snd (intake_run es db) = (snd (intake_run (filter (Not \<circ> reclaims) es) db))\<lparr>usage_batches := rows\<rparr>
        \<and> list_all2 redacts (usage_batches (snd (intake_run (filter (Not \<circ> reclaims) es) db))) rows)"
  using intake_run_alike [OF alike_refl assms] by (auto simp: alike_def)

definition demo_blank :: UsageBatch where
  "demo_blank = \<lparr>ub_bootId = [], ub_sequence = [], ub_sampledAt = [], ub_samples = []\<rparr>"

definition demo_upload :: "string \<Rightarrow> string \<Rightarrow> string \<Rightarrow> intake_event" where
  "demo_upload n up down = Upload demo_platform (\<lambda>s. True) (\<lambda>k. None) demo_request (demo_batch n up down)"

definition demo_events :: "intake_event list" where
  "demo_events = [demo_upload ''1'' ''60'' ''80'', Reclaim rev demo_blank (\<lambda>k. None) None (10 ^ 13), demo_upload ''1'' ''60'' ''80'']"

lemma demo_run:
  "case intake_run demo_events demo_service of (replies, db) \<Rightarrow>
     (case replies of [Ack (Inr a), Ack (Inr b)] \<Rightarrow> \<not> au_duplicate a \<and> au_duplicate b | _ \<Rightarrow> False)
     \<and> map nb_payload (usage_batches db) = [demo_blank]"
  by code_simp

theorem reclaiming_is_invisible_witness:
  "map nb_payload (usage_batches (snd (intake_run demo_events demo_service))) = [demo_blank]
    \<and> fst (intake_run demo_events demo_service) = fst (intake_run [demo_upload ''1'' ''60'' ''80'', demo_upload ''1'' ''60'' ''80''] demo_service)"
proof -
  have "rows_wf demo_service" using demo_service_wf by (simp add: service_wf_def)
  moreover have "list_all event_ok demo_events" by (simp add: demo_events_def demo_upload_def)
  moreover have "filter (Not \<circ> reclaims) demo_events = [demo_upload ''1'' ''60'' ''80'', demo_upload ''1'' ''60'' ''80'']"
    by (simp add: demo_events_def demo_upload_def)
  ultimately show ?thesis using reclaiming_is_invisible [of demo_service demo_events] demo_run by (auto split: prod.splits)
qed

text \<open>One statement clears what it finds, up to its limit.\<close>

lemma redact_chunk_count: "fst (redact_chunk scan blank before db) \<le> CHUNK_ROWS"
  by (simp add: redact_chunk_def Let_def)

lemma redact_chunk_clears:
  assumes "reorders scan" and "redact_chunk scan blank before db = (k, db')" and "k < CHUNK_ROWS" and "b \<in> set (usage_batches db')"
  shows "\<not> expired_payload blank before b"
proof -
  let ?found = "filter (expired_payload blank before) (scan (usage_batches db))"
  have "length (take CHUNK_ROWS ?found) < CHUNK_ROWS" using assms(2,3) by (auto simp: redact_chunk_def Let_def)
  then have all: "take CHUNK_ROWS ?found = ?found" by simp
  from assms(2,4) obtain c where c: "c \<in> set (usage_batches db)"
    "b = (if nb_id c \<in> nb_id ` set ?found then c\<lparr>nb_payload := blank\<rparr> else c)"
    by (auto simp: redact_chunk_def Let_def all set_tmodify)
  show ?thesis
  proof (cases "nb_id c \<in> nb_id ` set ?found")
    case False
    then have "c \<notin> set ?found" by blast
    with c False assms(1) show ?thesis by auto
  qed (use c in \<open>simp add: expired_payload_def\<close>)
qed

text \<open>
  C36: a tick of the reclaiming changes at most two hundred thousand rows, and when it ends without
  a fault below that limit no accounted batch older than the retention period keeps its payload.
\<close>

theorem reclaiming_tick_bounded:
  assumes "reorders scan" and "redactSettledUsagePayloads scan blank fault daysEnv now db = (Inr n, db')"
  shows "n \<le> 200000 \<and> (n = 200000 \<or> (\<forall>b \<in> set (usage_batches db').
    \<not> expired_payload blank (now - 86400000 * readPositiveIntegerEnv daysEnv 30) b))"
proof -
  let ?statement = "redact_chunk scan blank (days_before now (readPositiveIntegerEnv daysEnv DEFAULT_USAGE_PAYLOAD_RETENTION_DAYS))"
  from assms(2) have run: "chunk_loop fault CHUNK_ROWS ?statement MAX_CHUNKS_PER_TICK 0 db = (Inr n, db')"
    by (simp add: redactSettledUsagePayloads_def)
  have "n \<le> 0 + MAX_CHUNKS_PER_TICK * CHUNK_ROWS" by (rule chunk_loop_bounded [OF redact_chunk_count run])
  moreover have "(\<forall>b \<in> set (usage_batches db'). \<not> expired_payload blank
      (days_before now (readPositiveIntegerEnv daysEnv DEFAULT_USAGE_PAYLOAD_RETENTION_DAYS)) b) \<or> n = 0 + MAX_CHUNKS_PER_TICK * CHUNK_ROWS"
    by (rule chunk_loop_finishes [OF _ redact_chunk_count run]) (use redact_chunk_clears [OF assms(1)] in blast)
  ultimately show ?thesis
    by (auto simp: MAX_CHUNKS_PER_TICK_def CHUNK_ROWS_def days_before_def DEFAULT_USAGE_PAYLOAD_RETENTION_DAYS_def)
qed

theorem reclaiming_tick_bounded_witness:
  "\<exists>n db'. redactSettledUsagePayloads rev demo_blank (\<lambda>k. None) None (10 ^ 13) demo_service = (Inr n, db') \<and> n \<le> 200000"
proof -
  have "case redactSettledUsagePayloads rev demo_blank (\<lambda>k. None) None (10 ^ 13) demo_service of (r, db') \<Rightarrow> r = Inr 0" by code_simp
  then obtain db' where "redactSettledUsagePayloads rev demo_blank (\<lambda>k. None) None (10 ^ 13) demo_service = (Inr 0, db')"
    by (auto split: prod.splits)
  with reclaiming_tick_bounded [of rev demo_blank "\<lambda>k. None" None "10 ^ 13" demo_service 0 db'] show ?thesis by auto
qed

section \<open>Switching boots\<close>

text \<open>
  Why rows must stay: an upload of another boot than the agent's current one starts the walk over,
  so that it acknowledges and accounts nothing above number four.  A batch of an earlier boot with a
  higher number is therefore neither acknowledged nor accounted while messages of the running boot
  come in between.
\<close>

theorem switched_boot_accounts_first_four:
  assumes "usageBatches pf isDate fault agent input db = Inr (ack, db')" and "rows_wf db"
    and "tfind na_id (na_id agent) (agents db) = Some current"
    and "tfind nd_id (na_nodeId agent) (nodes db) = Some node" and "nd_controlMode node = Direct_primary"
    and "na_bootId current = Some other" and "other \<noteq> []" and "other \<noteq> ub_bootId input"
  shows "(\<exists>m \<le> 4. au_ackThrough ack = bigint_toString (int m))
    \<and> (\<forall>b' \<in> set (usage_batches db'). 4 < nb_sequence b' \<longrightarrow> b' \<in> set (usage_batches db) \<or> nb_accountedAt b' = None)"
proof -
  have start: "start_ack current (ub_bootId input) = 0" using assms(6-8) by (simp add: start_ack_def)
  from assms(1,3-5) obtain n new db1 db2 acc where
    fresh: "\<forall>b. new = Some b \<longrightarrow> (\<exists>u. b = new_row pf agent input n u) \<and> batch_key b \<notin> batch_key ` set (usage_batches db)
       \<and> nb_id b \<notin> nb_id ` set (usage_batches db)"
    and db1: "usage_batches db1 = stored_rows db new"
    and run: "accountContiguousBatches pf (na_id agent) (na_nodeId agent) (ub_bootId input) 0 db1 = Inr (acc, db2)"
    and rows: "usage_batches db' = usage_batches db2"
    and out: "au_ackThrough ack = bigint_toString (in_ackThrough acc)" by (rule direct_upload_run) (simp only: start)
  let ?bs = "batches_after 4 (na_id agent) (na_nodeId agent) (ub_bootId input) 0 db1"
  note acct = run_accounts [OF run]
  have ids: "distinct (map nb_id (usage_batches db1))" unfolding db1 using fresh by (intro stored_rows_wf(1) [OF assms(2)]) auto
  have "b' \<in> set (usage_batches db) \<or> nb_accountedAt b' = None" if b': "b' \<in> set (usage_batches db')" "4 < nb_sequence b'" for b'
  proof -
    from b'(1) obtain c where c: "c \<in> set (usage_batches db1)"
      "b' = (if nb_id c \<in> nb_id ` set (due ?bs 0) then c\<lparr>nb_accountedAt := Some (pf_now pf)\<rparr> else c)"
      unfolding rows acct(3) mark_accounted_def set_tmodify by blast
    have "nb_id c \<notin> nb_id ` set (due ?bs 0)"
    proof
      assume "nb_id c \<in> nb_id ` set (due ?bs 0)"
      then obtain d where d: "d \<in> set (due ?bs 0)" "nb_id d = nb_id c" by force
      then have "d \<in> set (taken ?bs 0)" by (simp add: due_def)
      with taken_subset [of ?bs 0] have "d \<in> set ?bs" by blast
      then have "d \<in> set (usage_batches db1)" by (blast dest: batches_after_subset)
      with c(1) d(2) have "d = c" using distinct_map_eq [OF ids, of d c] by simp
      with taken_sequence [OF \<open>d \<in> set (taken ?bs 0)\<close>] acct(2) c(2) b'(2) show False by (auto split: if_splits)
    qed
    with c fresh show ?thesis by (auto simp: db1 stored_rows_def new_row_def split: option.splits)
  qed
  moreover have "\<exists>m \<le> 4. au_ackThrough ack = bigint_toString (int m)"
    by (rule exI [of _ "length (taken ?bs 0)"]) (simp add: acct(1,2) out)
  ultimately show ?thesis by simp
qed

end
