(* ===== verification/UsageLocks.thy ===== *)
theory UsageLocks
  imports Transactions "HOL-Library.Product_Lexorder"
begin

text \<open>
  The locks around metering and provisioning (\<open>common/usage-lock.utils.ts\<close>): which locks a call
  takes and in which order, the polling loop that acquires one, the nesting of calls within one
  asynchronous context, and the in-process fallback.  PostgreSQL's advisory locks are a table from
  keys to the session that owns them and how often it took them.
\<close>

section \<open>Lock specifications\<close>

datatype lock_kind = Provisioning | Node_usage | Usage | Owner

record LockSpec =
  sp_kind :: lock_kind
  sp_id :: string

definition lock_class :: "lock_kind \<Rightarrow> int" where
  "lock_class k = (case k of Usage \<Rightarrow> 420704 | Owner \<Rightarrow> 420705 | Node_usage \<Rightarrow> 420706 | Provisioning \<Rightarrow> 420707)"

definition local_key :: "LockSpec \<Rightarrow> string" where
  "local_key sp = (case sp_kind sp of Usage \<Rightarrow> ''usage:'' | Owner \<Rightarrow> ''owner:'' | Node_usage \<Rightarrow> ''node-usage:''
     | Provisioning \<Rightarrow> ''provisioning:'') @ sp_id sp"

definition lock_label :: "LockSpec \<Rightarrow> string" where
  "lock_label sp = (case sp_kind sp of Usage \<Rightarrow> ''subscription usage'' | Owner \<Rightarrow> ''subscription owner''
     | Node_usage \<Rightarrow> ''node usage'' | Provisioning \<Rightarrow> ''subscription provisioning'')"

text \<open>\<open>derive\<close> is the first 32 bits of the SHA-256 digest, read as a signed integer.\<close>

type_synonym lock_id = "int \<times> int"

definition lock_args :: "(string \<Rightarrow> int) \<Rightarrow> LockSpec \<Rightarrow> lock_id" where
  "lock_args derive sp = (lock_class (sp_kind sp), derive (sp_id sp))"

definition node_and_subscription_specs :: "string \<Rightarrow> string list \<Rightarrow> LockSpec list" where
  "node_and_subscription_specs nodeId subscriptionIds =
     \<lparr>sp_kind = Node_usage, sp_id = nodeId\<rparr> #
     map (\<lambda>i. \<lparr>sp_kind = Usage, sp_id = i\<rparr>) (sort (remdups subscriptionIds))"

definition missing_specs :: "string set \<Rightarrow> LockSpec list \<Rightarrow> LockSpec list" where
  "missing_specs held specs = filter (\<lambda>sp. local_key sp \<notin> held) specs"

lemma local_key_inject: "local_key a = local_key b \<Longrightarrow> a = b"
  by (cases a; cases b) (auto simp: local_key_def split: lock_kind.splits)

lemma lock_args_eq:
  "inj_on derive ids \<Longrightarrow> sp_id a \<in> ids \<Longrightarrow> sp_id b \<in> ids \<Longrightarrow> lock_args derive a = lock_args derive b \<longleftrightarrow> a = b"
  by (cases a; cases b) (auto simp: lock_args_def lock_class_def inj_on_eq_iff split: lock_kind.splits)

section \<open>Acquiring one lock\<close>

definition DEFAULT_SUBSCRIPTION_LOCK_WAIT_TIMEOUT_MS :: int where
  "DEFAULT_SUBSCRIPTION_LOCK_WAIT_TIMEOUT_MS = 5000"

definition DEFAULT_SUBSCRIPTION_LOCK_RETRY_INTERVAL_MS :: int where
  "DEFAULT_SUBSCRIPTION_LOCK_RETRY_INTERVAL_MS = 100"

text \<open>
  The polling loop: \<open>locked k\<close> is the answer to the \<open>k\<close>-th query and \<open>clock k\<close> the time after it.
  \<open>None\<close> means that \<open>fuel\<close> queries were not enough.
\<close>

fun acquire_loop :: "string \<Rightarrow> (nat \<Rightarrow> bool) \<Rightarrow> (nat \<Rightarrow> int) \<Rightarrow> int \<Rightarrow> nat \<Rightarrow> nat \<Rightarrow> (api_error, nat) result option" where
  "acquire_loop label locked clock deadline 0 k = None"
| "acquire_loop label locked clock deadline (Suc fuel) k =
     (if locked k then Some (Inr k)
      else if deadline - clock k \<le> 0 then Some (Inl (ConflictError label))
      else acquire_loop label locked clock deadline fuel (Suc k))"

definition readSubscriptionLockWaitTimeoutMs :: "string option \<Rightarrow> int" where
  "readSubscriptionLockWaitTimeoutMs env = readPositiveIntegerEnv env DEFAULT_SUBSCRIPTION_LOCK_WAIT_TIMEOUT_MS"

definition readSubscriptionLockRetryIntervalMs :: "string option \<Rightarrow> int" where
  "readSubscriptionLockRetryIntervalMs env = readPositiveIntegerEnv env DEFAULT_SUBSCRIPTION_LOCK_RETRY_INTERVAL_MS"

definition acquirePgSubscriptionLock ::
  "LockSpec \<Rightarrow> string option \<Rightarrow> (nat \<Rightarrow> bool) \<Rightarrow> (nat \<Rightarrow> int) \<Rightarrow> int \<Rightarrow> nat \<Rightarrow> (api_error, nat) result option" where
  "acquirePgSubscriptionLock sp waitEnv locked clock start fuel =
     acquire_loop (lock_label sp) locked clock (start + readSubscriptionLockWaitTimeoutMs waitEnv) fuel 0"

text \<open>\<open>delay\<close> sleeps at least the shorter of the retry interval and the time left.\<close>

definition polls :: "(nat \<Rightarrow> int) \<Rightarrow> int \<Rightarrow> int \<Rightarrow> bool" where
  "polls clock interval deadline \<longleftrightarrow> (\<forall>k. clock k + min interval (deadline - clock k) \<le> clock (Suc k))"

lemma acquire_loop_ends:
  assumes "polls clock interval deadline" and "0 < interval" and "deadline - clock k \<le> int n * interval" and "n < fuel"
  shows "\<exists>r. acquire_loop label locked clock deadline fuel k = Some r \<and> (\<forall>j. r = Inr j \<longrightarrow> locked j \<and> j \<le> k + n)"
  using assms(3,4)
proof (induction n arbitrary: k fuel)
  case 0
  then obtain f where "fuel = Suc f" by (cases fuel) auto
  with 0 show ?case by auto
next
  case (Suc n)
  then obtain f where f: "fuel = Suc f" "n < f" by (cases fuel) auto
  show ?case
  proof (cases "locked k \<or> deadline - clock k \<le> 0")
    case True
    then show ?thesis using f by auto
  next
    case False
    have "clock k + min interval (deadline - clock k) \<le> clock (Suc k)" using assms(1) by (simp add: polls_def)
    moreover have "0 \<le> int n * interval" using assms(2) by simp
    moreover have "deadline - clock k \<le> int n * interval + interval" using Suc.prems(1) by (simp add: algebra_simps)
    ultimately have "deadline - clock (Suc k) \<le> int n * interval" by (simp add: min_def split: if_splits)
    from Suc.IH [OF this f(2)] False f(1) show ?thesis by auto
  qed
qed

lemma acquire_loop_error: "acquire_loop label locked clock deadline fuel k = Some (Inl e) \<Longrightarrow> e = ConflictError label"
  by (induction fuel arbitrary: k) (auto split: if_splits)

section \<open>Sessions and nested calls\<close>

text \<open>PostgreSQL's advisory locks: reentrant within a session, released when it ends.\<close>

type_synonym lock_table = "lock_id \<Rightarrow> (nat \<times> nat) option"

definition pg_try_advisory_lock :: "nat \<Rightarrow> lock_id \<Rightarrow> lock_table \<Rightarrow> lock_table option" where
  "pg_try_advisory_lock session k table = (case table k of
       None \<Rightarrow> Some (table(k \<mapsto> (session, 1)))
     | Some (owner, n) \<Rightarrow> if owner = session then Some (table(k \<mapsto> (session, n + 1))) else None)"

definition pg_advisory_unlock :: "nat \<Rightarrow> lock_id \<Rightarrow> lock_table \<Rightarrow> lock_table" where
  "pg_advisory_unlock session k table = (case table k of
       None \<Rightarrow> table
     | Some (owner, n) \<Rightarrow>
         if owner \<noteq> session then table else if n \<le> 1 then table(k := None) else table(k \<mapsto> (session, n - 1)))"

definition end_session :: "nat \<Rightarrow> lock_table \<Rightarrow> lock_table" where
  "end_session session table k = (case table k of Some (owner, n) \<Rightarrow> if owner = session then None else Some (owner, n) | None \<Rightarrow> None)"

text \<open>
  One call of \<open>runWith...Lock\<close> in progress: its session, the locks it has, those it still needs,
  and whether its task runs.  The innermost call comes first; the keys of the running ones are what
  \<open>heldSubscriptionLocks.getStore()\<close> answers.
\<close>

record lock_call =
  lc_session :: nat
  lc_acquired :: "LockSpec list"
  lc_todo :: "LockSpec list"
  lc_running :: bool

definition held_keys :: "lock_call list \<Rightarrow> string set" where
  "held_keys calls = (\<Union>c \<in> set (filter lc_running calls). local_key ` set (lc_acquired c))"

record lock_world =
  lw_table :: lock_table
  lw_calls :: "nat \<Rightarrow> lock_call list"
  lw_next :: nat

text \<open>The \<open>finally\<close> block: unlock in reverse order, then close the connection.\<close>

definition release_call :: "(string \<Rightarrow> int) \<Rightarrow> lock_call \<Rightarrow> lock_table \<Rightarrow> lock_table" where
  "release_call derive c table =
     end_session (lc_session c) (fold (pg_advisory_unlock (lc_session c)) (rev (map (lock_args derive) (lc_acquired c))) table)"

definition idle :: "lock_call list \<Rightarrow> bool" where
  "idle calls \<longleftrightarrow> list_all lc_running calls"

definition open_call :: "nat \<Rightarrow> LockSpec list \<Rightarrow> lock_world \<Rightarrow> lock_world" where
  "open_call t specs w =
     (let missing = missing_specs (held_keys (lw_calls w t)) specs in
      w\<lparr>lw_calls := (lw_calls w)(t := \<lparr>lc_session = lw_next w, lc_acquired = [], lc_todo = missing, lc_running = (missing = [])\<rparr>
          # lw_calls w t), lw_next := lw_next w + 1\<rparr>)"

text \<open>The exported calls: each names its locks; the first four need one lock each.\<close>

definition runWithSubscriptionUsageLock :: "nat \<Rightarrow> string \<Rightarrow> lock_world \<Rightarrow> lock_world" where
  "runWithSubscriptionUsageLock t subscriptionId = open_call t [\<lparr>sp_kind = Usage, sp_id = subscriptionId\<rparr>]"

definition runWithSubscriptionProvisioningLock :: "nat \<Rightarrow> string \<Rightarrow> lock_world \<Rightarrow> lock_world" where
  "runWithSubscriptionProvisioningLock t subscriptionId = open_call t [\<lparr>sp_kind = Provisioning, sp_id = subscriptionId\<rparr>]"

definition runWithSubscriptionOwnerLock :: "nat \<Rightarrow> string \<Rightarrow> lock_world \<Rightarrow> lock_world" where
  "runWithSubscriptionOwnerLock t ownerKey = open_call t [\<lparr>sp_kind = Owner, sp_id = ownerKey\<rparr>]"

definition runWithNodeUsageLock :: "nat \<Rightarrow> string \<Rightarrow> lock_world \<Rightarrow> lock_world" where
  "runWithNodeUsageLock t nodeId = open_call t [\<lparr>sp_kind = Node_usage, sp_id = nodeId\<rparr>]"

definition runWithNodeAndSubscriptionUsageLocks :: "nat \<Rightarrow> string \<Rightarrow> string list \<Rightarrow> lock_world \<Rightarrow> lock_world" where
  "runWithNodeAndSubscriptionUsageLocks t nodeId subscriptionIds = open_call t (node_and_subscription_specs nodeId subscriptionIds)"

lemmas run_with_defs = runWithSubscriptionUsageLock_def runWithSubscriptionProvisioningLock_def
  runWithSubscriptionOwnerLock_def runWithNodeUsageLock_def runWithNodeAndSubscriptionUsageLocks_def

text \<open>
  A task opens a call when it is not waiting for one, the innermost call takes its next lock when
  the poll succeeds, and a call ends whenever its task settles or its wait is given up.
\<close>

inductive lock_step :: "(string \<Rightarrow> int) \<Rightarrow> lock_world \<Rightarrow> lock_world \<Rightarrow> bool" for derive where
  opened: "idle (lw_calls w t) \<Longrightarrow> lock_step derive w (open_call t specs w)"
| acquired: "lw_calls w t = c # cs \<Longrightarrow> lc_todo c = sp # rest \<Longrightarrow>
    pg_try_advisory_lock (lc_session c) (lock_args derive sp) (lw_table w) = Some table \<Longrightarrow>
    lock_step derive w (w\<lparr>lw_table := table, lw_calls := (lw_calls w)(t := c\<lparr>lc_acquired := lc_acquired c @ [sp], lc_todo := rest,
      lc_running := (rest = [])\<rparr> # cs)\<rparr>)"
| finished: "lw_calls w t = c # cs \<Longrightarrow>
    lock_step derive w (w\<lparr>lw_table := release_call derive c (lw_table w), lw_calls := (lw_calls w)(t := cs)\<rparr>)"

inductive lock_reachable :: "(string \<Rightarrow> int) \<Rightarrow> lock_world \<Rightarrow> bool" for derive where
  start: "lock_reachable derive \<lparr>lw_table = Map.empty, lw_calls = (\<lambda>t. []), lw_next = 0\<rparr>"
| step: "lock_reachable derive w \<Longrightarrow> lock_step derive w w' \<Longrightarrow> lock_reachable derive w'"

section \<open>Who owns what\<close>

definition sessions :: "lock_world \<Rightarrow> nat \<Rightarrow> nat list" where
  "sessions w t = map lc_session (lw_calls w t)"

definition sessions_wf :: "lock_world \<Rightarrow> bool" where
  "sessions_wf w \<longleftrightarrow> (\<forall>t. \<forall>s \<in> set (sessions w t). s < lw_next w) \<and> (\<forall>t. distinct (sessions w t))
     \<and> (\<forall>t u s. s \<in> set (sessions w t) \<longrightarrow> s \<in> set (sessions w u) \<longrightarrow> t = u)"

lemma session_unique:
  "sessions_wf w \<Longrightarrow> c \<in> set (lw_calls w t) \<Longrightarrow> d \<in> set (lw_calls w u) \<Longrightarrow> lc_session c = lc_session d \<Longrightarrow> t = u"
  unfolding sessions_wf_def sessions_def by (metis imageI set_map)

text \<open>A call owns what it has acquired, and every owned lock was acquired by a call.\<close>

definition owners_wf :: "(string \<Rightarrow> int) \<Rightarrow> lock_world \<Rightarrow> bool" where
  "owners_wf derive w \<longleftrightarrow>
     (\<forall>t. \<forall>c \<in> set (lw_calls w t). \<forall>sp \<in> set (lc_acquired c). \<exists>n. lw_table w (lock_args derive sp) = Some (lc_session c, n))
     \<and> (\<forall>k owner n. lw_table w k = Some (owner, n) \<longrightarrow>
          (\<exists>t. \<exists>c \<in> set (lw_calls w t). lc_session c = owner \<and> k \<in> lock_args derive ` set (lc_acquired c)))"

lemma unlock_other: "table k = Some (owner, n) \<Longrightarrow> owner \<noteq> session \<Longrightarrow> pg_advisory_unlock session k' table k = Some (owner, n)"
  by (auto simp: pg_advisory_unlock_def split: option.splits)

lemma unlock_source:
  "pg_advisory_unlock session k' table k = Some (owner, n) \<Longrightarrow> \<exists>m. table k = Some (owner, m)"
  by (auto simp: pg_advisory_unlock_def split: option.splits if_splits)

lemma release_other:
  assumes "table k = Some (owner, n)" and "owner \<noteq> lc_session c"
  shows "release_call derive c table k = Some (owner, n)"
proof -
  have "fold (pg_advisory_unlock (lc_session c)) ks table k = Some (owner, n)" for ks
    using assms by (induction ks arbitrary: table) (auto intro: unlock_other)
  with assms(2) show ?thesis by (simp add: release_call_def end_session_def)
qed

lemma release_source:
  assumes "release_call derive c table k = Some (owner, n)"
  shows "owner \<noteq> lc_session c \<and> (\<exists>m. table k = Some (owner, m))"
proof -
  have "\<exists>m. table k = Some (owner, m)" if "fold (pg_advisory_unlock (lc_session c)) ks table k = Some (owner, m')" for ks m'
    using that
  proof (induction ks arbitrary: table)
    case (Cons k' ks)
    from Cons.IH [of "pg_advisory_unlock (lc_session c) k' table"] Cons.prems show ?case by (auto dest: unlock_source)
  qed auto
  with assms show ?thesis by (auto simp: release_call_def end_session_def split: option.splits if_splits)
qed

lemma sessions_wf_fewer:
  assumes "sessions_wf w" and "lw_next w' = lw_next w" and "\<And>u. set (sessions w' u) \<subseteq> set (sessions w u)" and "\<And>u. distinct (sessions w' u)"
  shows "sessions_wf w'"
proof -
  have "t = u" if "s \<in> set (sessions w' t)" "s \<in> set (sessions w' u)" for t u s
  proof -
    have "s \<in> set (sessions w t)" "s \<in> set (sessions w u)" using that assms(3) by blast+
    then show ?thesis using assms(1) unfolding sessions_wf_def by blast
  qed
  moreover have "s < lw_next w'" if "s \<in> set (sessions w' t)" for t s
    using that assms(1,2) assms(3) [of t] unfolding sessions_wf_def by auto
  ultimately show ?thesis using assms(4) unfolding sessions_wf_def by auto
qed

lemma lock_step_sessions:
  assumes "lock_step derive w w'" and "sessions_wf w"
  shows "sessions_wf w'"
  using assms
proof (induction rule: lock_step.induct)
  case (opened w t specs)
  have new: "lw_next w \<notin> set (sessions w u)" for u using opened(2) by (auto simp: sessions_wf_def)
  have shown: "sessions (open_call t specs w) u = (if u = t then lw_next w # sessions w u else sessions w u)"
    "lw_next (open_call t specs w) = Suc (lw_next w)" for u
    by (simp_all add: open_call_def sessions_def Let_def)
  show ?case
    using opened(2) new unfolding sessions_wf_def shown by (auto intro: less_SucI split: if_splits)
next
  case (acquired w t c cs sp rest table)
  have "sessions (w\<lparr>lw_table := table, lw_calls := (lw_calls w)(t := c\<lparr>lc_acquired := lc_acquired c @ [sp], lc_todo := rest,
      lc_running := (rest = [])\<rparr> # cs)\<rparr>) u = sessions w u" for u
    using acquired(1) by (simp add: sessions_def)
  with acquired(4) show ?case by (simp add: sessions_wf_def)
next
  case (finished w t c cs)
  have "distinct (sessions w u)" for u using finished(2) by (simp add: sessions_wf_def)
  from this [of t] finished(1) have "distinct (map lc_session cs)" by (simp add: sessions_def)
  with \<open>\<And>u. distinct (sessions w u)\<close> finished(1) show ?case
    by (intro sessions_wf_fewer [OF finished(2)]) (auto simp: sessions_def)
qed

lemma try_effect:
  assumes "pg_try_advisory_lock session k table = Some table'"
  shows "table j = Some (owner, n) \<Longrightarrow> \<exists>m. table' j = Some (owner, m)" "\<exists>m. table' k = Some (session, m)"
    "table' j = Some (owner, n) \<Longrightarrow> (j = k \<and> owner = session) \<or> table j = Some (owner, n)"
  using assms by (auto simp: pg_try_advisory_lock_def split: option.splits if_splits)

lemma lock_step_owners:
  assumes "lock_step derive w w'" and "sessions_wf w" and "owners_wf derive w"
  shows "owners_wf derive w'"
  using assms
proof (induction rule: lock_step.induct)
  case (opened w t specs)
  then show ?case by (fastforce simp: owners_wf_def open_call_def Let_def)
next
  case (acquired w t c cs sp rest table)
  note eff = try_effect [OF acquired(3)]
  let ?c = "c\<lparr>lc_acquired := lc_acquired c @ [sp], lc_todo := rest, lc_running := (rest = [])\<rparr>"
  let ?calls = "(lw_calls w)(t := ?c # cs)"
  have calls: "\<exists>d' \<in> set (?calls u). lc_session d' = lc_session d \<and> set (lc_acquired d) \<subseteq> set (lc_acquired d')"
    if "d \<in> set (lw_calls w u)" for u d
    using that acquired(1) by (cases "u = t \<and> d = c") (auto intro: bexI [of _ ?c])
  have "\<exists>n. table (lock_args derive sp') = Some (lc_session d, n)" if d: "d \<in> set (?calls u)" "sp' \<in> set (lc_acquired d)" for u d sp'
  proof -
    have "(sp' = sp \<and> lc_session d = lc_session c) \<or> (\<exists>d0 \<in> set (lw_calls w u). lc_session d0 = lc_session d \<and> sp' \<in> set (lc_acquired d0))"
      using d acquired(1) by (cases "u = t") auto
    then show ?thesis using eff(1,2) acquired(5) unfolding owners_wf_def by metis
  qed
  moreover have "\<exists>u. \<exists>d \<in> set (?calls u). lc_session d = owner \<and> k \<in> lock_args derive ` set (lc_acquired d)"
    if "table k = Some (owner, n)" for k owner n
    using eff(3) [OF that]
  proof
    assume "k = lock_args derive sp \<and> owner = lc_session c"
    then show ?thesis by (intro exI [of _ t] bexI [of _ ?c]) auto
  next
    assume "lw_table w k = Some (owner, n)"
    with acquired(5) obtain u d where "d \<in> set (lw_calls w u)" "lc_session d = owner" "k \<in> lock_args derive ` set (lc_acquired d)"
      unfolding owners_wf_def by blast
    with calls [of d u] show ?thesis by blast
  qed
  ultimately show ?case unfolding owners_wf_def by simp
next
  case (finished w t c cs)
  let ?calls = "(lw_calls w)(t := cs)"
  have others: "d \<in> set (lw_calls w u) \<and> lc_session d \<noteq> lc_session c" if "d \<in> set (?calls u)" for u d
  proof (cases "u = t")
    case True
    moreover have "distinct (sessions w t)" using finished(2) by (simp add: sessions_wf_def)
    ultimately have "lc_session c \<notin> lc_session ` set cs" "d \<in> set cs" using that finished(1) by (simp_all add: sessions_def)
    with True finished(1) show ?thesis by (metis imageI list.set_intros(2))
  next
    case False
    then have "d \<in> set (lw_calls w u)" using that by simp
    with session_unique [OF finished(2), of c t d u] False finished(1) show ?thesis by auto
  qed
  have "\<exists>n. release_call derive c (lw_table w) (lock_args derive sp) = Some (lc_session d, n)"
    if "d \<in> set (?calls u)" "sp \<in> set (lc_acquired d)" for u d sp
    using others [OF that(1)] that(2) finished(3) release_other unfolding owners_wf_def by metis
  moreover have "\<exists>u. \<exists>d \<in> set (?calls u). lc_session d = owner \<and> k \<in> lock_args derive ` set (lc_acquired d)"
    if "release_call derive c (lw_table w) k = Some (owner, n)" for k owner n
  proof -
    from release_source [OF that] finished(3) obtain u d where
      d: "d \<in> set (lw_calls w u)" "lc_session d = owner" "k \<in> lock_args derive ` set (lc_acquired d)" "owner \<noteq> lc_session c"
      unfolding owners_wf_def by blast
    then have "d \<in> set (?calls u)" using finished(1) by auto
    with d show ?thesis by blast
  qed
  ultimately show ?case unfolding owners_wf_def by simp
qed

lemma lock_reachable_wf: "lock_reachable derive w \<Longrightarrow> sessions_wf w \<and> owners_wf derive w"
proof (induction rule: lock_reachable.induct)
  case start
  then show ?case by (simp add: sessions_wf_def sessions_def owners_wf_def)
next
  case (step w w')
  then show ?case by (blast intro: lock_step_sessions lock_step_owners)
qed

section \<open>Order\<close>

definition lock_rank :: "LockSpec \<Rightarrow> nat \<times> string" where
  "lock_rank sp = (case sp_kind sp of Owner \<Rightarrow> 0 | Provisioning \<Rightarrow> 1 | Node_usage \<Rightarrow> 2 | Usage \<Rightarrow> 3, sp_id sp)"

abbreviation ordered_specs :: "LockSpec list \<Rightarrow> bool" where
  "ordered_specs \<equiv> sorted_wrt (\<lambda>a b. lock_rank a < lock_rank b)"

text \<open>What a context has acquired, and the calls that take locks only above it.\<close>

definition acquired_specs :: "lock_call list \<Rightarrow> LockSpec set" where
  "acquired_specs calls = (\<Union>c \<in> set calls. set (lc_acquired c))"

definition orderly_call :: "lock_call list \<Rightarrow> LockSpec list \<Rightarrow> bool" where
  "orderly_call calls specs \<longleftrightarrow> (let missing = missing_specs (held_keys calls) specs in
     ordered_specs missing \<and> (\<forall>h \<in> acquired_specs calls. \<forall>m \<in> set missing. lock_rank h < lock_rank m))"

inductive orderly_step :: "(string \<Rightarrow> int) \<Rightarrow> lock_world \<Rightarrow> lock_world \<Rightarrow> bool" for derive where
  opened: "idle (lw_calls w t) \<Longrightarrow> orderly_call (lw_calls w t) specs \<Longrightarrow> orderly_step derive w (open_call t specs w)"
| moved: "lock_step derive w w' \<Longrightarrow> (\<And>t specs. w' \<noteq> open_call t specs w) \<Longrightarrow> orderly_step derive w w'"

inductive orderly_reachable :: "(string \<Rightarrow> int) \<Rightarrow> lock_world \<Rightarrow> bool" for derive where
  start: "orderly_reachable derive \<lparr>lw_table = Map.empty, lw_calls = (\<lambda>t. []), lw_next = 0\<rparr>"
| step: "orderly_reachable derive w \<Longrightarrow> orderly_step derive w w' \<Longrightarrow> orderly_reachable derive w'"

lemma orderly_lock: "orderly_reachable derive w \<Longrightarrow> lock_reachable derive w"
proof (induction rule: orderly_reachable.induct)
  case (step w w')
  from step(2,3) show ?case
    by (cases rule: orderly_step.cases) (blast intro: lock_reachable.step lock_step.opened)+
qed (rule lock_reachable.start)

definition order_wf :: "lock_world \<Rightarrow> bool" where
  "order_wf w \<longleftrightarrow> (\<forall>t c cs. lw_calls w t = c # cs \<longrightarrow> ordered_specs (lc_todo c)
     \<and> (\<forall>h \<in> acquired_specs (lw_calls w t). \<forall>m \<in> set (lc_todo c). lock_rank h < lock_rank m)
     \<and> (\<forall>d \<in> set cs. lc_todo d = []))"

text \<open>A running call needs nothing more.\<close>

definition running_wf :: "lock_world \<Rightarrow> bool" where
  "running_wf w \<longleftrightarrow> (\<forall>t. \<forall>c \<in> set (lw_calls w t). lc_running c \<longleftrightarrow> lc_todo c = [])"

lemma lock_step_running: "lock_step derive w w' \<Longrightarrow> running_wf w \<Longrightarrow> running_wf w'"
  by (induction rule: lock_step.induct) (auto simp: running_wf_def open_call_def Let_def, (metis list.set_intros(2))+)

lemma orderly_step_wf:
  assumes "orderly_step derive w w'" and "running_wf w" and "order_wf w"
  shows "running_wf w' \<and> order_wf w'"
  using assms
proof (induction rule: orderly_step.induct)
  case (opened w t specs)
  have run: "running_wf (open_call t specs w)"
    by (rule lock_step_running [OF lock_step.opened [where derive = "\<lambda>_. 0", OF opened(1)] opened(3)])
  have done_below: "lc_todo d = []" if "d \<in> set (lw_calls w t)" for d
    using opened(1,3) that by (simp add: idle_def running_wf_def list_all_iff)
  have "order_wf (open_call t specs w)"
    unfolding order_wf_def
  proof (intro allI impI)
    fix u c cs assume u: "lw_calls (open_call t specs w) u = c # cs"
    show "ordered_specs (lc_todo c) \<and> (\<forall>h \<in> acquired_specs (lw_calls (open_call t specs w) u). \<forall>m \<in> set (lc_todo c). lock_rank h < lock_rank m)
      \<and> (\<forall>d \<in> set cs. lc_todo d = [])"
    proof (cases "u = t")
      case True
      with u opened(2) done_below show ?thesis
        by (auto simp: open_call_def Let_def orderly_call_def acquired_specs_def)
    next
      case False
      with u opened(4) show ?thesis by (simp add: order_wf_def open_call_def Let_def)
    qed
  qed
  with run show ?case by simp
next
  case (moved w w')
  from moved(1,3,4) lock_step_running [OF moved(1,3)] moved(2) show ?case
  proof (cases rule: lock_step.cases)
    case (acquired t c cs sp rest table)
    have "order_wf w'"
      unfolding order_wf_def
    proof (intro allI impI)
      fix u d ds assume u: "lw_calls w' u = d # ds"
      show "ordered_specs (lc_todo d) \<and> (\<forall>h \<in> acquired_specs (lw_calls w' u). \<forall>m \<in> set (lc_todo d). lock_rank h < lock_rank m)
        \<and> (\<forall>d \<in> set ds. lc_todo d = [])"
      proof (cases "u = t")
        case True
        from moved(4) acquired(2,3) have "ordered_specs (sp # rest)" "\<forall>d \<in> set cs. lc_todo d = []"
          "\<forall>h \<in> acquired_specs (c # cs). \<forall>m \<in> set (sp # rest). lock_rank h < lock_rank m"
          unfolding order_wf_def by metis+
        with True u acquired(1) show ?thesis by (auto simp: acquired_specs_def ball_Un)
      next
        case False
        with u acquired(1) moved(4) show ?thesis by (simp add: order_wf_def)
      qed
    qed
    with lock_step_running [OF moved(1,3)] show ?thesis by simp
  next
    case (finished t c cs)
    have "order_wf w'"
      unfolding order_wf_def
    proof (intro allI impI)
      fix u d ds assume u: "lw_calls w' u = d # ds"
      show "ordered_specs (lc_todo d) \<and> (\<forall>h \<in> acquired_specs (lw_calls w' u). \<forall>m \<in> set (lc_todo d). lock_rank h < lock_rank m)
        \<and> (\<forall>d \<in> set ds. lc_todo d = [])"
      proof (cases "u = t")
        case True
        from moved(4) finished(2) have "\<forall>d \<in> set cs. lc_todo d = []" unfolding order_wf_def by blast
        with True u finished(1) show ?thesis by auto
      next
        case False
        with u finished(1) moved(4) show ?thesis by (simp add: order_wf_def)
      qed
    qed
    with lock_step_running [OF moved(1,3)] show ?thesis by simp
  qed auto
qed

lemma orderly_reachable_wf: "orderly_reachable derive w \<Longrightarrow> running_wf w \<and> order_wf w"
proof (induction rule: orderly_reachable.induct)
  case start
  then show ?case by (simp add: running_wf_def order_wf_def)
next
  case (step w w')
  then show ?case using orderly_step_wf by blast
qed

text \<open>The locks of a metering transaction are ordered.\<close>

lemma combined_specs_ordered: "ordered_specs (node_and_subscription_specs nodeId subscriptionIds)"
proof -
  have "sorted_wrt (<) (sort (remdups subscriptionIds))" by (simp add: strict_sorted_iff)
  then show ?thesis
    by (auto simp: node_and_subscription_specs_def lock_rank_def sorted_wrt_map)
qed

section \<open>The fallback within one process\<close>

text \<open>
  Without a database a key's lock is the chain of promises in \<open>localSubscriptionLocks\<close>.  A ticket
  is one call: the ticket it waits for, whether \<open>releaseCurrent\<close> was called, and its state.  Its
  tail settles once it is released and the ticket before it has settled.
\<close>

datatype ticket_state = Waiting | Running | Over

record ticket =
  tk_key :: string
  tk_previous :: "nat option"
  tk_released :: bool
  tk_state :: ticket_state

record local_locks =
  ll_tickets :: "ticket list"
  ll_tails :: "string \<Rightarrow> nat option"

definition new_local_locks :: local_locks where
  "new_local_locks = \<lparr>ll_tickets = [], ll_tails = Map.empty\<rparr>"

function tail_settled :: "ticket list \<Rightarrow> nat \<Rightarrow> bool" where
  "tail_settled ts i = (i < length ts \<and> tk_released (ts ! i) \<and>
     (case tk_previous (ts ! i) of None \<Rightarrow> True | Some j \<Rightarrow> if j < i then tail_settled ts j else False))"
  by pat_completeness auto
termination by (relation "measure snd") auto

declare tail_settled.simps [simp del]

definition local_request :: "string \<Rightarrow> local_locks \<Rightarrow> local_locks" where
  "local_request key l =
     l\<lparr>ll_tickets := ll_tickets l @ [\<lparr>tk_key = key, tk_previous = ll_tails l key, tk_released = False, tk_state = Waiting\<rparr>],
       ll_tails := (ll_tails l)(key \<mapsto> length (ll_tickets l))\<rparr>"

definition previous_settled :: "local_locks \<Rightarrow> nat \<Rightarrow> bool" where
  "previous_settled l i = (case tk_previous (ll_tickets l ! i) of None \<Rightarrow> True | Some j \<Rightarrow> tail_settled (ll_tickets l) j)"

definition local_enter :: "nat \<Rightarrow> local_locks \<Rightarrow> local_locks option" where
  "local_enter i l =
     (if i < length (ll_tickets l) \<and> tk_state (ll_tickets l ! i) = Waiting \<and> previous_settled l i
      then Some (l\<lparr>ll_tickets := (ll_tickets l)[i := (ll_tickets l ! i)\<lparr>tk_state := Running\<rparr>]\<rparr>) else None)"

text \<open>Leaving and giving up release the ticket, and forget its tail when it is the last.\<close>

definition local_release :: "nat \<Rightarrow> local_locks \<Rightarrow> local_locks" where
  "local_release i l =
     (let key = tk_key (ll_tickets l ! i) in
      l\<lparr>ll_tickets := (ll_tickets l)[i := (ll_tickets l ! i)\<lparr>tk_state := Over, tk_released := True\<rparr>],
        ll_tails := (if ll_tails l key = Some i then (ll_tails l)(key := None) else ll_tails l)\<rparr>)"

definition local_leave :: "nat \<Rightarrow> local_locks \<Rightarrow> local_locks option" where
  "local_leave i l = (if i < length (ll_tickets l) \<and> tk_state (ll_tickets l ! i) = Running then Some (local_release i l) else None)"

definition local_timeout :: "nat \<Rightarrow> local_locks \<Rightarrow> local_locks option" where
  "local_timeout i l = (if i < length (ll_tickets l) \<and> tk_state (ll_tickets l ! i) = Waiting then Some (local_release i l) else None)"

inductive local_step :: "local_locks \<Rightarrow> local_locks \<Rightarrow> bool" where
  requested: "local_step l (local_request key l)"
| entered: "local_enter i l = Some l' \<Longrightarrow> local_step l l'"
| left: "local_leave i l = Some l' \<Longrightarrow> local_step l l'"

definition running_for :: "string \<Rightarrow> local_locks \<Rightarrow> nat list" where
  "running_for key l = filter (\<lambda>i. tk_state (ll_tickets l ! i) = Running \<and> tk_key (ll_tickets l ! i) = key) [0 ..< length (ll_tickets l)]"

definition local_run :: "local_locks option" where
  "local_run = Option.bind (local_enter 0 (local_request ''usage:s1'' new_local_locks)) (\<lambda>l.
     Option.bind (local_timeout 1 (local_request ''usage:s1'' l)) (\<lambda>l.
     local_enter 2 (local_request ''usage:s1'' l)))"

lemma demo_local: "case local_run of None \<Rightarrow> False | Some l \<Rightarrow> running_for ''usage:s1'' l = [0, 2]"
  by code_simp

text \<open>All tickets of a key below an index are released.\<close>

definition cleared :: "ticket list \<Rightarrow> string \<Rightarrow> nat \<Rightarrow> bool" where
  "cleared ts key n \<longleftrightarrow> (\<forall>m < n. tk_key (ts ! m) = key \<longrightarrow> tk_released (ts ! m))"

definition ticket_wf :: "ticket list \<Rightarrow> nat \<Rightarrow> bool" where
  "ticket_wf ts i \<longleftrightarrow>
     (case tk_previous (ts ! i) of
        None \<Rightarrow> cleared ts (tk_key (ts ! i)) i
      | Some j \<Rightarrow> j < i \<and> tk_key (ts ! j) = tk_key (ts ! i) \<and> (\<forall>m. j < m \<longrightarrow> m < i \<longrightarrow> tk_key (ts ! m) \<noteq> tk_key (ts ! i)))
     \<and> (tk_state (ts ! i) = Running \<longrightarrow> cleared ts (tk_key (ts ! i)) i)
     \<and> (tk_released (ts ! i) \<longleftrightarrow> tk_state (ts ! i) = Over)"

definition tail_wf :: "local_locks \<Rightarrow> string \<Rightarrow> bool" where
  "tail_wf l key \<longleftrightarrow> (case ll_tails l key of
       None \<Rightarrow> cleared (ll_tickets l) key (length (ll_tickets l))
     | Some i \<Rightarrow> i < length (ll_tickets l) \<and> tk_key (ll_tickets l ! i) = key
         \<and> (\<forall>m. i < m \<longrightarrow> m < length (ll_tickets l) \<longrightarrow> tk_key (ll_tickets l ! m) \<noteq> key))"

definition chains_wf :: "local_locks \<Rightarrow> bool" where
  "chains_wf l \<longleftrightarrow> (\<forall>i < length (ll_tickets l). ticket_wf (ll_tickets l) i) \<and> (\<forall>key. tail_wf l key)"

lemma settled_clears:
  assumes "\<forall>i < length ts. ticket_wf ts i"
  shows "tail_settled ts j \<Longrightarrow> cleared ts (tk_key (ts ! j)) (Suc j)"
proof (induction j rule: less_induct)
  case (less j)
  from less.prems have j: "j < length ts" "tk_released (ts ! j)" by (subst (asm) tail_settled.simps, simp)+
  with assms have wf: "ticket_wf ts j" by blast
  show ?case
  proof (cases "tk_previous (ts ! j)")
    case None
    with wf j(2) show ?thesis by (auto simp: ticket_wf_def cleared_def less_Suc_eq)
  next
    case (Some i)
    with less.prems have i: "i < j" "tail_settled ts i" by (subst (asm) tail_settled.simps, simp split: if_splits)+
    with wf Some less.IH [OF i] have "cleared ts (tk_key (ts ! j)) (Suc i)"
      "\<forall>m. i < m \<longrightarrow> m < j \<longrightarrow> tk_key (ts ! m) \<noteq> tk_key (ts ! j)" by (auto simp: ticket_wf_def)
    then show ?thesis using j(2) unfolding cleared_def by (metis less_Suc_eq not_less_eq)
  qed
qed

lemma chains_request: "chains_wf l \<Longrightarrow> chains_wf (local_request key l)"
proof -
  assume wf: "chains_wf l"
  let ?n = "length (ll_tickets l)" and ?t = "\<lparr>tk_key = key, tk_previous = ll_tails l key, tk_released = False, tk_state = Waiting\<rparr>"
  let ?ts = "ll_tickets l @ [?t]"
  have "ticket_wf ?ts i" if "i < Suc ?n" for i
  proof (cases "i = ?n")
    case True
    from wf have "tail_wf l key" by (simp add: chains_wf_def)
    with True show ?thesis by (auto simp: ticket_wf_def tail_wf_def cleared_def nth_append split: option.splits)
  next
    case False
    with that have i: "i < ?n" by simp
    with wf have "ticket_wf (ll_tickets l) i" by (simp add: chains_wf_def)
    with i show ?thesis by (auto simp: ticket_wf_def cleared_def nth_append split: option.splits)
  qed
  moreover have "tail_wf (local_request key l) k" for k
  proof -
    from wf have "tail_wf l k" by (simp add: chains_wf_def)
    then show ?thesis
      by (auto simp: tail_wf_def local_request_def cleared_def nth_append less_Suc_eq split: option.splits)
  qed
  ultimately show ?thesis by (simp add: chains_wf_def local_request_def)
qed

lemma chains_enter:
  assumes wf: "chains_wf l" and run: "local_enter i l = Some l'"
  shows "chains_wf l'"
proof -
  let ?ts = "ll_tickets l" and ?t = "(ll_tickets l ! i)\<lparr>tk_state := Running\<rparr>"
  from run have i: "i < length ?ts" "tk_state (?ts ! i) = Waiting" "previous_settled l i"
    and l': "l' = l\<lparr>ll_tickets := ?ts[i := ?t]\<rparr>" by (auto simp: local_enter_def split: if_splits)
  from wf have tickets: "\<forall>j < length ?ts. ticket_wf ?ts j" by (simp add: chains_wf_def)
  have "cleared ?ts (tk_key (?ts ! i)) i"
  proof (cases "tk_previous (?ts ! i)")
    case None
    with tickets i(1) show ?thesis by (auto simp: ticket_wf_def)
  next
    case (Some j)
    with i(3) settled_clears [OF tickets, of j] have "cleared ?ts (tk_key (?ts ! j)) (Suc j)" by (simp add: previous_settled_def)
    moreover from tickets i(1) Some have "tk_key (?ts ! j) = tk_key (?ts ! i)"
      "\<forall>m. j < m \<longrightarrow> m < i \<longrightarrow> tk_key (?ts ! m) \<noteq> tk_key (?ts ! i)" by (auto simp: ticket_wf_def)
    ultimately show ?thesis unfolding cleared_def by (metis not_less_eq)
  qed
  note clear_i = this
  have same: "tk_key (?ts[i := ?t] ! m) = tk_key (?ts ! m)" "tk_released (?ts[i := ?t] ! m) = tk_released (?ts ! m)"
    "tk_previous (?ts[i := ?t] ! m) = tk_previous (?ts ! m)" for m
    using i(1) by (simp_all add: nth_list_update)
  have "ticket_wf (?ts[i := ?t]) j" if "j < length ?ts" for j
  proof (cases "j = i")
    case True
    moreover from tickets i(1) have "ticket_wf ?ts i" by blast
    ultimately show ?thesis using i clear_i by (auto simp: ticket_wf_def same cleared_def split: option.splits)
  next
    case False
    moreover from tickets that have "ticket_wf ?ts j" by blast
    ultimately show ?thesis by (auto simp: ticket_wf_def same cleared_def split: option.splits)
  qed
  moreover have "tail_wf l' k" for k
  proof -
    from wf have "tail_wf l k" by (simp add: chains_wf_def)
    then show ?thesis by (auto simp: tail_wf_def l' same cleared_def split: option.splits)
  qed
  ultimately show ?thesis by (simp add: chains_wf_def l')
qed

lemma chains_leave:
  assumes wf: "chains_wf l" and run: "local_leave i l = Some l'"
  shows "chains_wf l'"
proof -
  let ?ts = "ll_tickets l" and ?t = "(ll_tickets l ! i)\<lparr>tk_state := Over, tk_released := True\<rparr>"
  from run have i: "i < length ?ts" "tk_state (?ts ! i) = Running" and l': "l' = local_release i l"
    by (auto simp: local_leave_def split: if_splits)
  from wf have tickets: "\<forall>j < length ?ts. ticket_wf ?ts j" by (simp add: chains_wf_def)
  have same: "tk_key (?ts[i := ?t] ! m) = tk_key (?ts ! m)" "tk_previous (?ts[i := ?t] ! m) = tk_previous (?ts ! m)" for m
    using i(1) by (simp_all add: nth_list_update)
  have more: "tk_released (?ts[i := ?t] ! m) \<longleftrightarrow> tk_released (?ts ! m) \<or> m = i" for m
    using i(1) by (cases "m = i") auto
  have "ticket_wf (?ts[i := ?t]) j" if "j < length ?ts" for j
  proof (cases "j = i")
    case True
    moreover from tickets i(1) have "ticket_wf ?ts i" by blast
    ultimately show ?thesis using i by (auto simp: ticket_wf_def same more cleared_def split: option.splits)
  next
    case False
    moreover from tickets that have "ticket_wf ?ts j" by blast
    ultimately show ?thesis by (auto simp: ticket_wf_def same more cleared_def split: option.splits)
  qed
  moreover have "tail_wf l' k" for k
  proof -
    from wf have old: "tail_wf l k" by (simp add: chains_wf_def)
    show ?thesis
    proof (cases "k = tk_key (?ts ! i) \<and> ll_tails l k = Some i")
      case True
      have "cleared ?ts k i" using tickets i True by (auto simp: ticket_wf_def)
      moreover have "\<forall>m. i < m \<longrightarrow> m < length ?ts \<longrightarrow> tk_key (?ts ! m) \<noteq> k"
        using old unfolding tail_wf_def True [THEN conjunct2] by simp
      ultimately have "cleared (?ts[i := ?t]) k (length ?ts)"
        unfolding cleared_def same more by (metis linorder_neqE_nat)
      moreover have "ll_tails l' k = None" "ll_tickets l' = ?ts[i := ?t]"
        using True by (auto simp: l' local_release_def Let_def)
      ultimately show ?thesis by (simp add: tail_wf_def)
    next
      case False
      then have "ll_tails l' k = ll_tails l k" by (auto simp: l' local_release_def Let_def)
      with old show ?thesis
        by (auto simp: tail_wf_def l' local_release_def Let_def same more cleared_def split: option.splits)
    qed
  qed
  ultimately show ?thesis by (simp add: chains_wf_def l' local_release_def Let_def)
qed

lemma local_steps_wf: "local_step\<^sup>*\<^sup>* new_local_locks l \<Longrightarrow> chains_wf l"
proof (induction rule: rtranclp_induct)
  case base
  then show ?case by (simp add: chains_wf_def new_local_locks_def tail_wf_def cleared_def)
next
  case (step l l')
  from step(2,3) show ?case
    by (cases rule: local_step.cases) (auto intro: chains_request chains_enter chains_leave)
qed

section \<open>Properties\<close>


definition demo_world1 :: lock_world where
  "demo_world1 = open_call 7 (node_and_subscription_specs ''n1'' [''s2'', ''s1'', ''s2''])
     \<lparr>lw_table = Map.empty, lw_calls = (\<lambda>t. []), lw_next = 0\<rparr>"

lemma demo_world1_reachable: "lock_reachable derive demo_world1"
  unfolding demo_world1_def by (rule lock_reachable.step [OF lock_reachable.start lock_step.opened]) (simp add: idle_def)


text \<open>A context waits for another that owns the next lock it needs.\<close>

definition waits_for :: "(string \<Rightarrow> int) \<Rightarrow> lock_world \<Rightarrow> nat \<Rightarrow> nat \<Rightarrow> bool" where
  "waits_for derive w t u \<longleftrightarrow> (\<exists>c cs sp rest owner n. lw_calls w t = c # cs \<and> lc_todo c = sp # rest
     \<and> lw_table w (lock_args derive sp) = Some (owner, n) \<and> owner \<in> lc_session ` set (lw_calls w u))"

text \<open>The ids of all locks that are held or waited for.\<close>

definition ids_in_use :: "lock_world \<Rightarrow> string set" where
  "ids_in_use w = (\<Union>t. \<Union>c \<in> set (lw_calls w t). sp_id ` set (lc_acquired c @ lc_todo c))"


lemma demo_world1_orderly: "orderly_reachable derive demo_world1"
  unfolding demo_world1_def
proof (rule orderly_reachable.step [OF orderly_reachable.start orderly_step.opened])
  have "missing_specs {} specs = specs" for specs by (simp add: missing_specs_def)
  then show "orderly_call (lw_calls \<lparr>lw_table = Map.empty, lw_calls = (\<lambda>t. []), lw_next = 0\<rparr> 7) (node_and_subscription_specs ''n1'' [''s2'', ''s1'', ''s2''])"
    using combined_specs_ordered by (simp add: orderly_call_def held_keys_def acquired_specs_def Let_def)
qed (simp add: idle_def)

definition demo_derive :: "string \<Rightarrow> int" where
  "demo_derive s = foldr (\<lambda>c n. 256 * n + int (of_char c)) s 0 mod 2 ^ 31"

lemma demo_world1_ids: "ids_in_use demo_world1 = {''n1'', ''s1'', ''s2''}"
proof -
  have "sp_id ` set (lc_todo (hd (lw_calls demo_world1 7))) = {''n1'', ''s1'', ''s2''}" by code_simp
  then show ?thesis by (auto simp: ids_in_use_def demo_world1_def open_call_def Let_def)
qed




text \<open>
  Without a database the locks exclude each other as well, as long as no waiting call gives
  up: in every order of requests, entries and exits at most one call runs under a key.
\<close>

theorem local_locks_exclude:
  assumes "local_step\<^sup>*\<^sup>* new_local_locks l" and "i < length (ll_tickets l)" and "j < length (ll_tickets l)"
    and "tk_state (ll_tickets l ! i) = Running" and "tk_state (ll_tickets l ! j) = Running"
    and "tk_key (ll_tickets l ! i) = tk_key (ll_tickets l ! j)"
  shows "i = j"
proof -
  have wf: "ticket_wf (ll_tickets l) i" "ticket_wf (ll_tickets l) j"
    using local_steps_wf [OF assms(1)] assms(2,3) by (simp_all add: chains_wf_def)
  show ?thesis
    using wf assms(4-6) unfolding ticket_wf_def cleared_def by (metis linorder_neqE_nat ticket_state.distinct(5))
qed

text \<open>
  A waiting call that times out as the last of its key forgets the tail although an earlier call
  still runs: the next request then runs beside it.
\<close>

theorem local_timeout_breaks_exclusion:
  "\<exists>l. local_run = Some l \<and> running_for ''usage:s1'' l = [0, 2]"
  using demo_local by (auto split: option.splits)

end
