(* ===== verification/WorkLifecycle.thy ===== *)
theory WorkLifecycle
  imports Prelude
begin

text \<open>
  Draining the API process (\<open>apps/api/src/work-lifecycle.ts\<close>) before it is restarted or replaced:
  every request, job and piece of background work is accounted as a token, a drain refuses new
  work, closes the streams and waits for the tokens, and a failure or a second signal fences the
  process.  Admission after a promotion (\<open>apps/api/src/promotion-admission.ts\<close>) guards the same
  entry points.
\<close>

section \<open>State\<close>

text \<open>An error object; budget errors carry the identity of the timer that made them.\<close>

datatype work_error = Work_failed string | Budget_exceeded nat nat | Drain_cancelled | Drain_timeout nat | Already_draining

record work =
  wl_draining :: bool
  wl_active :: "nat set"
  wl_streamClosers :: "nat set"
  wl_failure :: "work_error option"
  wl_recoveryHold :: bool
  wl_fresh :: nat

definition newWorkLifecycle :: work where
  "newWorkLifecycle = \<lparr>wl_draining = False, wl_active = {}, wl_streamClosers = {}, wl_failure = None,
     wl_recoveryHold = False, wl_fresh = 0\<rparr>"

definition work_fence :: "work_error \<Rightarrow> work \<Rightarrow> work" where
  "work_fence e s = s\<lparr>wl_draining := True, wl_failure := Some e, wl_recoveryHold := True\<rparr>"

definition cancelDrain :: "work \<Rightarrow> work" where
  "cancelDrain = work_fence Drain_cancelled"

definition assertHealthy :: "work \<Rightarrow> (work_error, unit) result" where
  "assertHealthy s = (case wl_failure s of None \<Rightarrow> Inr () | Some e \<Rightarrow> Inl e)"

definition work_enter :: "work \<Rightarrow> nat \<times> work" where
  "work_enter s = (wl_fresh s, s\<lparr>wl_active := insert (wl_fresh s) (wl_active s), wl_fresh := Suc (wl_fresh s)\<rparr>)"

definition work_leave :: "nat \<Rightarrow> work \<Rightarrow> work" where
  "work_leave token s = s\<lparr>wl_active := wl_active s - {token}\<rparr>"

section \<open>Waiting under a budget\<close>

text \<open>The race between a task and its timer, as it turns out.\<close>

datatype 'a race = Settled "(work_error, 'a) result" | Expired

text \<open>The token is given back whoever wins; an expiry makes an error of its own identity.\<close>

definition awaitWithBudget :: "nat \<Rightarrow> (work \<Rightarrow> 'a race \<times> work) \<Rightarrow> work \<Rightarrow> (work_error, 'a) result \<times> work_error option \<times> work" where
  "awaitWithBudget timeoutMs run s =
     (case work_enter s of (token, s1) \<Rightarrow>
      case run s1 of (outcome, s2) \<Rightarrow>
      let expiry = Budget_exceeded timeoutMs token in
      case outcome of
        Settled r \<Rightarrow> (r, None, work_leave token s2)
      | Expired \<Rightarrow> (Inl expiry, Some expiry, work_leave token s2))"

definition awaitWithBudgetElse ::
  "nat \<Rightarrow> (work \<Rightarrow> 'a race \<times> work) \<Rightarrow> 'f \<Rightarrow> work \<Rightarrow> (work_error, 'a + 'f) result \<times> work" where
  "awaitWithBudgetElse timeoutMs run onExpiry s =
     (case awaitWithBudget timeoutMs run s of
        (Inr a, _, s') \<Rightarrow> (Inr (Inl a), s')
      | (Inl e, expiry, s') \<Rightarrow> (if expiry = Some e then Inr (Inr onExpiry) else Inl e, s'))"

text \<open>
  \<open>withShutdownDeadline\<close>: the deadline turns a pending shutdown into an error.
\<close>

definition withShutdownDeadline :: "unit race \<Rightarrow> nat \<Rightarrow> (work_error, unit) result" where
  "withShutdownDeadline outcome timeoutMs = (case outcome of Settled r \<Rightarrow> r | Expired \<Rightarrow> Inl (Drain_timeout timeoutMs))"

section \<open>Entry points\<close>

text \<open>\<open>None\<close> is the answer 503.\<close>

definition work_middleware :: "work \<Rightarrow> (nat \<times> work) option" where
  "work_middleware s = (if wl_draining s then None else Some (work_enter s))"

definition intercept :: "bool \<Rightarrow> work \<Rightarrow> nat option \<times> work" where
  "intercept throws s = (case work_enter s of (token, s') \<Rightarrow> if throws then (None, work_leave token s') else (Some token, s'))"

definition onDrain :: "nat \<Rightarrow> work \<Rightarrow> bool \<times> work" where
  "onDrain close s = (if wl_draining s then (True, s) else (False, s\<lparr>wl_streamClosers := insert close (wl_streamClosers s)\<rparr>))"

definition forgetStream :: "nat \<Rightarrow> work \<Rightarrow> work" where
  "forgetStream close s = s\<lparr>wl_streamClosers := wl_streamClosers s - {close}\<rparr>"

definition deferred_done :: "nat \<Rightarrow> string option \<Rightarrow> work \<Rightarrow> work" where
  "deferred_done token failed s =
     (case failed of None \<Rightarrow> work_leave token s
      | Some e \<Rightarrow> work_leave token (s\<lparr>wl_failure := Some (Work_failed (''Deferred work failed: '' @ e))\<rparr>))"

record admission =
  pa_token :: "string option"
  pa_file :: "string option"
  pa_approved :: bool

text \<open>\<open>content\<close> is what the approval file holds when it is read, if it can be.\<close>

definition isApproved :: "string option \<Rightarrow> admission \<Rightarrow> bool \<times> admission" where
  "isApproved content a =
     (case pa_token a of
        None \<Rightarrow> (True, a)
      | Some token \<Rightarrow>
          if pa_approved a then (True, a)
          else if token = [] \<or> (case pa_file a of None \<Rightarrow> True | Some f \<Rightarrow> f = []) then (False, a)
          else case content of
            None \<Rightarrow> (False, a)
          | Some text \<Rightarrow> (text = token, a\<lparr>pa_approved := (text = token)\<rparr>))"

text \<open>Health probes pass a process that awaits approval; every other request is answered 503.\<close>

definition health_probe :: "string \<Rightarrow> string \<Rightarrow> bool" where
  "health_probe method url \<longleftrightarrow> (method = ''GET'' \<or> method = ''HEAD'') \<and>
     takeWhile (\<lambda>c. c \<noteq> CHR ''?'') url \<in> {''/api/health'', ''/api/health/'', ''/api/health/ready'', ''/api/health/ready/''}"

definition admission_middleware :: "string option \<Rightarrow> string \<Rightarrow> string \<Rightarrow> admission \<Rightarrow> bool \<times> admission" where
  "admission_middleware content method url a = (if health_probe method url then (True, a) else isApproved content a)"

lemma approval_is_permanent:
  assumes "isApproved content a = (True, a')"
  shows "isApproved content' a' = (True, a')"
  using assms by (auto simp: isApproved_def split: option.splits if_splits)

definition DrainableJob :: "bool \<Rightarrow> work \<Rightarrow> (nat \<times> work) option" where
  "DrainableJob approved s = (if wl_draining s \<or> \<not> approved then None else Some (work_enter s))"

section \<open>The drain\<close>

definition drain_start :: "work \<Rightarrow> (work_error, nat set \<times> work) result" where
  "drain_start s =
     (if wl_draining s then Inl Already_draining
      else Inr (wl_streamClosers s, s\<lparr>wl_draining := True, wl_streamClosers := {}\<rparr>))"

text \<open>The callback of \<open>server.close\<close>; a server that never listened is closed already.\<close>

definition server_closed :: "string option \<Rightarrow> work \<Rightarrow> work" where
  "server_closed error s = (case error of
       None \<Rightarrow> s | Some code \<Rightarrow> if code = ''ERR_SERVER_NOT_RUNNING'' then s else s\<lparr>wl_failure := Some (Work_failed code)\<rparr>)"

datatype drain_verdict = Go_on | Stop "(work_error, unit) result"

definition drain_check :: "bool \<Rightarrow> int \<Rightarrow> int \<Rightarrow> work \<Rightarrow> drain_verdict" where
  "drain_check closed now deadline s =
     (if \<not> closed \<or> wl_active s \<noteq> {} then
        case wl_failure s of
          Some e \<Rightarrow> Stop (Inl e)
        | None \<Rightarrow> if now \<ge> deadline then Stop (Inl (Drain_timeout (card (wl_active s)))) else Go_on
      else Stop (assertHealthy s))"

text \<open>The loop over what it sees at each turn; it sleeps twenty milliseconds in between.\<close>

fun drain_loop :: "(nat \<Rightarrow> bool \<times> work) \<Rightarrow> (nat \<Rightarrow> int) \<Rightarrow> int \<Rightarrow> nat \<Rightarrow> nat \<Rightarrow> (work_error, unit) result option" where
  "drain_loop seen clock deadline 0 k = None"
| "drain_loop seen clock deadline (Suc fuel) k =
     (case drain_check (fst (seen k)) (clock k) deadline (snd (seen k)) of
        Stop r \<Rightarrow> Some r | Go_on \<Rightarrow> drain_loop seen clock deadline fuel (Suc k))"

datatype drain_phase = No_drain | Draining bool int | Drained | Drain_failed work_error

text \<open>
  The process: requests and jobs start work, running work starts more (\<open>track\<close>, \<open>all\<close>, \<open>defer\<close> and the
  interceptor, none of which looks at \<open>draining\<close>), finishes or fails, streams come and go, and a
  drain polls until it succeeds or fails.  With \<open>late\<close>, work may also be started by code that holds
  no token any more: a request whose client hung up while its guards were running (the middleware
  gives the token back on \<open>close\<close>, the interceptor runs after the guards), or a task abandoned when
  its budget expired.
\<close>

inductive work_step :: "bool \<Rightarrow> work \<times> drain_phase \<Rightarrow> work \<times> drain_phase \<Rightarrow> bool" for late where
  requested: "work_middleware s = Some (t, s') \<Longrightarrow> work_step late (s, d) (s', d)"
| ticked: "DrainableJob approved s = Some (t, s') \<Longrightarrow> work_step late (s, d) (s', d)"
| spawned: "late \<or> wl_active s \<noteq> {} \<Longrightarrow> work_step late (s, d) (snd (work_enter s), d)"
| intercepted: "late \<or> wl_active s \<noteq> {} \<Longrightarrow> work_step late (s, d) (snd (intercept throws s), d)"
| settled: "work_step late (s, d) (work_leave t s, d)"
| deferred: "work_step late (s, d) (deferred_done t failed s, d)"
| subscribed: "work_step late (s, d) (snd (onDrain close s), d)"
| unsubscribed: "work_step late (s, d) (forgetStream close s, d)"
| fenced: "work_step late (s, d) (work_fence e s, d)"
| began: "drain_start s = Inr (closers, s') \<Longrightarrow> work_step late (s, No_drain) (s', Draining False deadline)"
| closed: "work_step late (s, Draining False deadline) (server_closed error s, Draining True deadline)"
| polled: "drain_check closed now deadline s = Stop r \<Longrightarrow>
    work_step late (s, Draining closed deadline) (s, case r of Inr _ \<Rightarrow> Drained | Inl e \<Rightarrow> Drain_failed e)"

inductive work_reachable :: "bool \<Rightarrow> work \<times> drain_phase \<Rightarrow> bool" for late where
  start: "work_reachable late (newWorkLifecycle, No_drain)"
| step: "work_reachable late x \<Longrightarrow> work_step late x y \<Longrightarrow> work_reachable late y"

lemmas work_defs = work_middleware_def DrainableJob_def intercept_def work_enter_def work_leave_def deferred_done_def onDrain_def
  forgetStream_def work_fence_def drain_start_def server_closed_def drain_check_def assertHealthy_def

definition drain_wf :: "work \<times> drain_phase \<Rightarrow> bool" where
  "drain_wf x \<longleftrightarrow> (snd x \<noteq> No_drain \<longrightarrow> wl_draining (fst x)) \<and> (snd x = Drained \<longrightarrow> wl_active (fst x) = {})"

lemma work_step_wf: "work_step False x y \<Longrightarrow> drain_wf x \<Longrightarrow> drain_wf y"
  by (induction rule: work_step.induct)
    (auto simp: drain_wf_def work_defs split: if_splits option.splits sum.splits)

lemma work_reachable_wf: "work_reachable False x \<Longrightarrow> drain_wf x"
proof (induction rule: work_reachable.induct)
  case start
  show ?case by (simp add: drain_wf_def)
next
  case (step x y)
  then show ?case by (blast intro: work_step_wf)
qed

lemma drained_stays: "work_step False x y \<Longrightarrow> snd x = Drained \<Longrightarrow> snd y = Drained"
  by (induction rule: work_step.induct) auto

section \<open>Properties\<close>

text \<open>
  C40: a successful drain is final as long as work is started only by requests, jobs and work that
  holds a token: once the drain reports success no accounted work is running, and from then on none
  ever starts, whatever requests, jobs, streams and signals still arrive.
\<close>

theorem drained_process_stays_quiet:
  assumes "work_reachable False (s, Drained)" and "(work_step False)\<^sup>*\<^sup>* (s, Drained) y"
  shows "snd y = Drained \<and> wl_active (fst y) = {} \<and> wl_draining (fst y)"
proof -
  from assms(2) have "work_reachable False y \<and> snd y = Drained"
  proof (induction rule: rtranclp_induct)
    case base
    then show ?case using assms(1) by simp
  next
    case (step y z)
    then show ?case by (blast intro: work_reachable.step drained_stays)
  qed
  with work_reachable_wf [of y] show ?thesis by (auto simp: drain_wf_def)
qed

definition demo_drained :: work where
  "demo_drained = newWorkLifecycle\<lparr>wl_draining := True\<rparr>"

lemma demo_drained_reachable: "work_reachable late (demo_drained, Drained)"
proof -
  have "work_step late (newWorkLifecycle, No_drain) (demo_drained, Draining False 100)"
    by (rule work_step.began [where closers = "{}"]) (simp add: drain_start_def newWorkLifecycle_def demo_drained_def)
  moreover have "work_step late (demo_drained, Draining False 100) (demo_drained, Draining True 100)"
    using work_step.closed [of late demo_drained 100 None] by (simp add: server_closed_def)
  moreover have "work_step late (demo_drained, Draining True 100) (demo_drained, Drained)"
    using work_step.polled [of True 0 100 demo_drained "Inr ()"]
    by (simp add: drain_check_def assertHealthy_def demo_drained_def newWorkLifecycle_def)
  ultimately show ?thesis by (blast intro: work_reachable.intros)
qed

theorem drained_process_stays_quiet_witness:
  "work_step False (demo_drained, Drained) (work_fence Drain_cancelled demo_drained, Drained)
    \<and> wl_active (work_fence Drain_cancelled demo_drained) = {}"
proof -
  have step: "work_step False (demo_drained, Drained) (work_fence Drain_cancelled demo_drained, Drained)" by (rule work_step.fenced)
  from drained_process_stays_quiet [OF demo_drained_reachable r_into_rtranclp [of "work_step False", OF step]] step show ?thesis by simp
qed

text \<open>
  The condition on who starts work is needed: a request whose client hung up during its guards
  reaches the interceptor after the drain has succeeded, and the process is closed while its
  controller runs.
\<close>

theorem late_controller_escapes_drain:
  "\<exists>s. work_reachable True (s, Drained) \<and> wl_active s \<noteq> {} \<and> assertHealthy s = Inr ()"
proof -
  have "work_reachable True (snd (intercept False demo_drained), Drained)"
    by (rule work_reachable.step [OF demo_drained_reachable work_step.intercepted]) simp
  then show ?thesis
    by (intro exI [of _ "snd (intercept False demo_drained)"])
      (simp add: intercept_def work_enter_def assertHealthy_def demo_drained_def newWorkLifecycle_def)
qed

text \<open>
  A drain ends: with the clock advancing twenty milliseconds a turn it has a verdict after
  \<open>timeout / 20\<close> further turns at most, and success means that the server is closed, no work
  is active and nothing has failed.
\<close>

theorem drain_ends:
  assumes "\<forall>k. clock k + 20 \<le> clock (Suc k)" and "deadline - clock j \<le> 20 * int turns"
  shows "\<exists>r. drain_loop seen clock deadline (Suc turns) j = Some r"
  using assms(2)
proof (induction turns arbitrary: j)
  case 0
  then show ?case by (auto simp: drain_check_def split: option.splits)
next
  case (Suc turns)
  from assms(1) have "clock j + 20 \<le> clock (Suc j)" by blast
  with Suc.prems have "deadline - clock (Suc j) \<le> 20 * int turns" by simp
  from Suc.IH [OF this] show ?case by (subst drain_loop.simps) (auto split: drain_verdict.splits)
qed

text \<open>
  Waiting under a budget gives back its token and nothing else, and an expired budget inside the
  task is reported as the task's failure, never mistaken for the own one.
\<close>

lemma budget_balanced:
  assumes "run (snd (work_enter s)) = (outcome, snd (work_enter s))" and "wl_fresh s \<notin> wl_active s"
  shows "wl_active (snd (snd (awaitWithBudget timeoutMs run s))) = wl_active s"
  using assms by (auto simp: awaitWithBudget_def work_enter_def work_leave_def Let_def split: race.splits)

lemma nested_expiry_propagates:
  assumes "run (snd (work_enter s)) = (Settled (Inl e), s')"
  shows "fst (awaitWithBudgetElse timeoutMs run onExpiry s) = Inl e"
  using assms by (auto simp: awaitWithBudgetElse_def awaitWithBudget_def work_enter_def Let_def)

end
